theory Spec2Isabelle
  imports Complex_Main
begin

section \<open>The tridiagonal solver\<close>

text \<open>
  The program computes with C++ \<^verbatim>\<open>double\<close>; the embedding computes with the reals, so a
  statement about real numbers below is about exact arithmetic. A \<^verbatim>\<open>std::vector<double>\<close> is a
  \<open>real list\<close>, \<^verbatim>\<open>v[i] = e\<close> is \<open>v[i := e]\<close>. Indexing a vector out of range is undefined
  behaviour in C++: \<open>solveTridiagonal\<close> returns \<open>None\<close> on the inputs that would do so. A
  division by zero yields an infinity or a NaN in C++ and \<open>0\<close> in HOL: what is proved about a
  system solved on the reals is proved for systems without a zero pivot, where no such
  division happens. The solver uses \<open>0\<close>, \<open>-\<close>, \<open>*\<close> and \<open>/\<close> only and is written for any type that
  has them: the reals here, and further down the doubles with their special values.
\<close>

text \<open>
  One iteration of the forward loop \<^verbatim>\<open>for (int i = 1; i < n; i++)\<close>:
  \<^verbatim>\<open>double m = b[i] - a[i] * c_star[i - 1];
  c_star[i] = c[i] / m;
  d_star[i] = (d[i] - a[i] * d_star[i - 1]) / m;\<close>
\<close>

definition forward_step ::
  "'a list \<Rightarrow> 'a list \<Rightarrow> 'a list \<Rightarrow> 'a list \<Rightarrow> nat \<Rightarrow> 'a list \<times> 'a list \<Rightarrow>
   ('a :: {zero, minus, times, inverse}) list \<times> 'a list"
where
  "forward_step a b c d i cd =
     (let c_star = fst cd; d_star = snd cd;
          m = b ! i - a ! i * c_star ! (i - 1)
      in (c_star[i := c ! i / m], d_star[i := (d ! i - a ! i * d_star ! (i - 1)) / m]))"

text \<open>
  The forward elimination pass: \<open>c_star\<close> and \<open>d_star\<close> start as \<open>n\<close> zeros, entry 0 is
  set from row 0, then the loop runs over \<open>i = 1, ..., n - 1\<close>.
\<close>

definition forward_elimination ::
  "'a list \<Rightarrow> 'a list \<Rightarrow> 'a list \<Rightarrow> 'a list \<Rightarrow> ('a :: {zero, minus, times, inverse}) list \<times> 'a list"
where
  "forward_elimination a b c d =
     (let n = length b;
          c_star = (replicate n 0)[0 := c ! 0 / b ! 0];
          d_star = (replicate n 0)[0 := d ! 0 / b ! 0]
      in fold (forward_step a b c d) [1..<n] (c_star, d_star))"

text \<open>
  One iteration of the backward loop \<^verbatim>\<open>for (int i = n - 2; i >= 0; i--)\<close>:
  \<^verbatim>\<open>x[i] = d_star[i] - c_star[i] * x[i + 1];\<close>
\<close>

definition backward_step ::
  "'a list \<Rightarrow> 'a list \<Rightarrow> nat \<Rightarrow> 'a list \<Rightarrow> ('a :: {zero, minus, times, inverse}) list"
where
  "backward_step c_star d_star i x = x[i := d_star ! i - c_star ! i * x ! (i + 1)]"

text \<open>
  The backward substitution pass: \<open>x\<close> starts as \<open>n\<close> zeros, \<open>x[n - 1] = d_star[n - 1]\<close>,
  then the loop runs over \<open>i = n - 2, ..., 0\<close>.
\<close>

definition backward_substitution ::
  "'a list \<Rightarrow> 'a list \<Rightarrow> nat \<Rightarrow> ('a :: {zero, minus, times, inverse}) list"
where
  "backward_substitution c_star d_star n =
     fold (backward_step c_star d_star) (rev [0..<n - 1])
       ((replicate n 0)[n - 1 := d_star ! (n - 1)])"

text \<open>
  \<^verbatim>\<open>solveTridiagonal(a, b, c, d)\<close>, with \<open>n = b.size()\<close>. It reads \<open>b[i]\<close>, \<open>c[i]\<close>, \<open>d[i]\<close>
  for \<open>i < n\<close> and \<open>a[i]\<close> for \<open>1 \<le> i < n\<close>, and it reads index 0 even when \<open>n = 0\<close>.
\<close>

definition solveTridiagonal ::
  "'a list \<Rightarrow> 'a list \<Rightarrow> 'a list \<Rightarrow> 'a list \<Rightarrow> ('a :: {zero, minus, times, inverse}) list option"
where
  "solveTridiagonal a b c d =
     (let n = length b in
      if n = 0 \<or> length c < n \<or> length d < n \<or> (1 < n \<and> length a < n) then None
      else
        let cd = forward_elimination a b c d
        in Some (backward_substitution (fst cd) (snd cd) n))"

text \<open>
  The pivot of row \<open>i\<close>: \<open>b[0]\<close> for the first row, and the \<open>m\<close> of loop iteration \<open>i\<close>
  otherwise. Iteration \<open>i\<close> reads \<open>c_star[i - 1]\<close>, which no later iteration writes, so
  \<open>m\<close> is given by the array the forward pass returns.
\<close>

definition pivot :: "real list \<Rightarrow> real list \<Rightarrow> real list \<Rightarrow> real list \<Rightarrow> nat \<Rightarrow> real" where
  "pivot a b c d i =
     (if i = 0 then b ! 0
      else b ! i - a ! i * fst (forward_elimination a b c d) ! (i - 1))"

definition pivots_nonzero :: "real list \<Rightarrow> real list \<Rightarrow> real list \<Rightarrow> real list \<Rightarrow> bool" where
  "pivots_nonzero a b c d = list_all (\<lambda>i. pivot a b c d i \<noteq> 0) [0..<length b]"

section \<open>Streams\<close>

text \<open>
  A C++ output stream is the list of the operands inserted into it with \<^verbatim>\<open><<\<close>, in order:
  a string literal or a \<^verbatim>\<open>double\<close>. How a number is formatted is left to the library.
\<close>

datatype item = Text string | Number real

section \<open>Fluid properties\<close>

text \<open>
  A property function is modelled by the pair of what it inserts into \<^verbatim>\<open>std::cout\<close> and the
  value it returns. \<^verbatim>\<open>pow(x, 0.5)\<close> is \<open>x powr 0.5\<close> and \<^verbatim>\<open>std::log\<close> is \<open>ln\<close>; they agree with
  the C++ functions for \<open>x \<ge> 0\<close> and \<open>x > 0\<close>, where C++ does not return a NaN. Literals in
  scientific notation are written out (\<open>5.5226e-5\<close> is \<open>0.000055226\<close>).
\<close>

subsection \<open>Namespace \<^verbatim>\<open>liquid_sodium\<close> of \<^verbatim>\<open>PISO.cpp\<close>\<close>

definition Tcrit :: real where
  "Tcrit = 2509.46"

definition Tsolid :: real where
  "Tsolid = 370.87"

text \<open>
  \<^verbatim>\<open>std::cout << "Warning, temperature " << T << " is below solidification temperature!"\<close>
\<close>

definition warning :: "real \<Rightarrow> item list" where
  "warning T =
     [Text ''Warning, temperature '', Number T, Text '' is below solidification temperature!'']"

definition liquid_sodium_rho :: "real \<Rightarrow> item list \<times> real" where
  "liquid_sodium_rho T =
     ((if T < Tsolid then warning T else []),
      219.0 + 275.32 * (1.0 - T / Tcrit) + 511.58 * (1.0 - T / Tcrit) powr 0.5)"

definition liquid_sodium_k :: "real \<Rightarrow> item list \<times> real" where
  "liquid_sodium_k T =
     ((if T < Tsolid then warning T else []),
      124.67 - 0.11381 * T + 0.000055226 * T * T - 0.000000011842 * T * T * T)"

definition liquid_sodium_cp :: "real \<Rightarrow> item list \<times> real" where
  "liquid_sodium_cp T =
     ((if T < Tsolid then warning T else []),
      (let dXT = T - 273.15 in 1436.72 - 0.58 * dXT + 0.0004627 * dXT * dXT))"

definition liquid_sodium_mu :: "real \<Rightarrow> item list \<times> real" where
  "liquid_sodium_mu T =
     ((if T < Tsolid then warning T else []),
      exp (-6.4406 - 0.3958 * ln T + 556.835 / T))"

subsection \<open>Namespace \<^verbatim>\<open>liquid_sodium\<close> of the second PISO source file\<close>

text \<open>
  The second file holding the PISO solver (\<^verbatim>\<open>part_000\<close>) declares \<^verbatim>\<open>Tcrit\<close> only; its four
  functions consist of the return statement.
\<close>

definition part_000_rho :: "real \<Rightarrow> item list \<times> real" where
  "part_000_rho T =
     ([], 219.0 + 275.32 * (1.0 - T / Tcrit) + 511.58 * (1.0 - T / Tcrit) powr 0.5)"

definition part_000_k :: "real \<Rightarrow> item list \<times> real" where
  "part_000_k T = ([], 124.67 - 0.11381 * T + 0.000055226 * T * T - 0.000000011842 * T * T * T)"

definition part_000_cp :: "real \<Rightarrow> item list \<times> real" where
  "part_000_cp T = ([], (let dT = T - 273.15 in 1436.72 - 0.58 * dT + 0.0004627 * dT * dT))"

definition part_000_mu :: "real \<Rightarrow> item list \<times> real" where
  "part_000_mu T = ([], exp (-6.4406 - 0.3958 * ln T + 556.835 / T))"

subsection \<open>The property functions of the SIMPLEC program\<close>

definition T_Na_crit :: real where
  "T_Na_crit = 2509.46"

definition rho_Na_l :: "real \<Rightarrow> item list \<times> real" where
  "rho_Na_l T =
     (let Tc = T_Na_crit
      in ([], 219.0 + 275.32 * (1.0 - T / Tc) + 511.58 * (1.0 - T / Tc) powr 0.5))"

definition k_Na_l :: "real \<Rightarrow> item list \<times> real" where
  "k_Na_l T = ([], 124.67 - 0.11381 * T + 0.000055226 * T * T - 0.000000011842 * T * T * T)"

definition Cp_Na_l :: "real \<Rightarrow> item list \<times> real" where
  "Cp_Na_l T = ([], (let dT = T - 273.15 in 1436.72 - 0.58 * dT + 0.0004627 * dT * dT))"

definition mu_Na :: "real \<Rightarrow> item list \<times> real" where
  "mu_Na T = ([], exp (-6.4406 - 0.3958 * ln T + 556.835 / T))"

subsection \<open>Property values\<close>

text \<open>
  Inside \<^verbatim>\<open>main\<close> of the PISO program the property functions are used for their values;
  what they insert into \<^verbatim>\<open>std::cout\<close> there is not part of the state modelled below. The two
  files compute the same values.
\<close>

definition rho :: "real \<Rightarrow> real" where
  "rho T = snd (liquid_sodium_rho T)"

definition mu :: "real \<Rightarrow> real" where
  "mu T = snd (liquid_sodium_mu T)"

definition k_cond :: "real \<Rightarrow> real" where
  "k_cond T = snd (liquid_sodium_k T)"

definition cp :: "real \<Rightarrow> real" where
  "cp T = snd (liquid_sodium_cp T)"

section \<open>The momentum predictor of the SIMPLEC program\<close>

text \<open>
  The first program of \<^verbatim>\<open>PISO.cpp\<close> (the SIMPLEC solver) assembles its momentum system in
  local vectors \<open>a, b, c, d\<close> of \<open>Nx\<close> zeros. One iteration of
  \<^verbatim>\<open>for (int ix = 1; ix < Nx - 1; ix++)\<close>:
  \<^verbatim>\<open>a[ix] = -mu_node / (dx * dx);
  c[ix] = -mu_node / (dx * dx);
  b[ix] = rho_node / dt + 2 * mu_node / (dx * dx) + rho_node * (u[ix] - u[ix - 1]) / dx
          + mu_node / K + CF * rho_node / sqrt(K) * abs(u[ix]);
  d[ix] = rho_node * u[ix] / dt - (p[ix + 1] - p[ix - 1]) / (2 * dx);\<close>
  The vector \<^verbatim>\<open>b_SIMPLEC\<close> and the scalars \<^verbatim>\<open>b_0_RC\<close>, \<^verbatim>\<open>b_Nx_1_RC\<close>, which the loop and the
  boundary rows also set, are not arguments of the solve and are left out. \<^verbatim>\<open>abs\<close> is taken
  as the absolute value of a \<^verbatim>\<open>double\<close>.
\<close>

definition SIMPLEC_cell ::
  "real \<Rightarrow> real \<Rightarrow> real \<Rightarrow> real \<Rightarrow> real list \<Rightarrow> real list \<Rightarrow> real list \<Rightarrow> nat \<Rightarrow>
   real list \<times> real list \<times> real list \<times> real list \<Rightarrow> real list \<times> real list \<times> real list \<times> real list"
where
  "SIMPLEC_cell dx dt K CF u p T ix sys =
     (case sys of (a, b, c, d) \<Rightarrow>
        let rho_node = snd (rho_Na_l (T ! ix));
            mu_node = snd (mu_Na (T ! ix))
        in (a[ix := - mu_node / (dx * dx)],
            b[ix := rho_node / dt + 2 * mu_node / (dx * dx) + rho_node * (u ! ix - u ! (ix - 1)) / dx
                    + mu_node / K + CF * rho_node / sqrt K * \<bar>u ! ix\<bar>],
            c[ix := - mu_node / (dx * dx)],
            d[ix := rho_node * u ! ix / dt - (p ! (ix + 1) - p ! (ix - 1)) / (2 * dx)]))"

text \<open>
  The interior loop, then the boundary rows:
  \<^verbatim>\<open>b[0] = 1; c[0] = 0; d[0] = u_inlet;\<close> (velocity fixed on the left) and
  \<^verbatim>\<open>a[Nx - 1] = -1; b[Nx - 1] = 1; d[Nx - 1] = 0;\<close> (zero gradient on the right).
\<close>

definition SIMPLEC_momentum_system ::
  "nat \<Rightarrow> real \<Rightarrow> real \<Rightarrow> real \<Rightarrow> real \<Rightarrow> real \<Rightarrow> real list \<Rightarrow> real list \<Rightarrow> real list \<Rightarrow>
   real list \<times> real list \<times> real list \<times> real list"
where
  "SIMPLEC_momentum_system Nx dx dt K CF u_inlet u p T =
     (case fold (SIMPLEC_cell dx dt K CF u p T) [1..<Nx - 1]
             (replicate Nx 0, replicate Nx 0, replicate Nx 0, replicate Nx 0)
      of (a, b, c, d) \<Rightarrow>
        (a[Nx - 1 := - 1], b[0 := 1, Nx - 1 := 1], c[0 := 0], d[0 := u_inlet, Nx - 1 := 0]))"

text \<open>\<^verbatim>\<open>u = solveTridiagonal(a, b, c, d);\<close>\<close>

definition SIMPLEC_momentum_predictor ::
  "nat \<Rightarrow> real \<Rightarrow> real \<Rightarrow> real \<Rightarrow> real \<Rightarrow> real \<Rightarrow> real list \<Rightarrow> real list \<Rightarrow> real list \<Rightarrow> real list option"
where
  "SIMPLEC_momentum_predictor Nx dx dt K CF u_inlet u p T =
     (case SIMPLEC_momentum_system Nx dx dt K CF u_inlet u p T of
        (a, b, c, d) \<Rightarrow> solveTridiagonal a b c d)"

section \<open>Special values of double arithmetic\<close>

text \<open>
  The real numbers have no infinity and no NaN. Where a claim depends on them, the code is
  embedded a second time, on the type \<open>double\<close>: a real number, one of the two infinities, or
  NaN, with the arithmetic of IEEE 754 on the special values. An operation on two numbers is
  still exact (neither rounding nor overflow is modelled), and zero has no sign: a nonzero
  number divided by zero is the infinity with the sign of the dividend, as for \<open>+0\<close>.
\<close>

datatype double = Finite real | PInf | NInf | NaN

text \<open>
  \<open>+\<close>, unary and binary \<open>-\<close>, \<open>*\<close>, \<open>/\<close>, \<^verbatim>\<open>std::fabs\<close> (written \<open>\<bar>x\<bar>\<close>) and the comparisons. NaN is
  the result of every operation with a NaN operand and of \<open>\<infinity> - \<infinity>\<close>, \<open>0 * \<infinity>\<close>, \<open>0 / 0\<close> and
  \<open>\<infinity> / \<infinity>\<close>; every comparison with a NaN operand is false.
\<close>

instantiation double :: "{zero, uminus, plus, minus, times, inverse, abs, ord}"
begin

definition zero_double :: double where
  "zero_double = Finite 0"

fun uminus_double :: "double \<Rightarrow> double" where
  "uminus_double (Finite a) = Finite (- a)"
| "uminus_double PInf = NInf"
| "uminus_double NInf = PInf"
| "uminus_double NaN = NaN"

fun plus_double :: "double \<Rightarrow> double \<Rightarrow> double" where
  "plus_double (Finite a) (Finite b) = Finite (a + b)"
| "plus_double NaN _ = NaN"
| "plus_double _ NaN = NaN"
| "plus_double PInf NInf = NaN"
| "plus_double NInf PInf = NaN"
| "plus_double PInf _ = PInf"
| "plus_double _ PInf = PInf"
| "plus_double NInf _ = NInf"
| "plus_double _ NInf = NInf"

definition minus_double :: "double \<Rightarrow> double \<Rightarrow> double" where
  "minus_double a b = a + (- b)"

fun times_double :: "double \<Rightarrow> double \<Rightarrow> double" where
  "times_double (Finite a) (Finite b) = Finite (a * b)"
| "times_double NaN _ = NaN"
| "times_double _ NaN = NaN"
| "times_double (Finite a) PInf = (if a = 0 then NaN else if 0 < a then PInf else NInf)"
| "times_double (Finite a) NInf = (if a = 0 then NaN else if 0 < a then NInf else PInf)"
| "times_double PInf (Finite b) = (if b = 0 then NaN else if 0 < b then PInf else NInf)"
| "times_double NInf (Finite b) = (if b = 0 then NaN else if 0 < b then NInf else PInf)"
| "times_double PInf PInf = PInf"
| "times_double PInf NInf = NInf"
| "times_double NInf PInf = NInf"
| "times_double NInf NInf = PInf"

fun divide_double :: "double \<Rightarrow> double \<Rightarrow> double" where
  "divide_double (Finite a) (Finite b) =
     (if b = 0 then (if a = 0 then NaN else if 0 < a then PInf else NInf) else Finite (a / b))"
| "divide_double NaN _ = NaN"
| "divide_double _ NaN = NaN"
| "divide_double (Finite a) _ = Finite 0"
| "divide_double PInf (Finite b) = (if b < 0 then NInf else PInf)"
| "divide_double NInf (Finite b) = (if b < 0 then PInf else NInf)"
| "divide_double _ _ = NaN"

definition inverse_double :: "double \<Rightarrow> double" where
  "inverse_double a = divide (Finite 1) a"

fun abs_double :: "double \<Rightarrow> double" where
  "abs_double (Finite a) = Finite \<bar>a\<bar>"
| "abs_double PInf = PInf"
| "abs_double NInf = PInf"
| "abs_double NaN = NaN"

fun less_double :: "double \<Rightarrow> double \<Rightarrow> bool" where
  "less_double (Finite a) (Finite b) \<longleftrightarrow> a < b"
| "less_double NaN _ \<longleftrightarrow> False"
| "less_double _ NaN \<longleftrightarrow> False"
| "less_double NInf NInf \<longleftrightarrow> False"
| "less_double NInf _ \<longleftrightarrow> True"
| "less_double PInf _ \<longleftrightarrow> False"
| "less_double (Finite a) PInf \<longleftrightarrow> True"
| "less_double (Finite a) NInf \<longleftrightarrow> False"

definition less_eq_double :: "double \<Rightarrow> double \<Rightarrow> bool" where
  "less_eq_double a b \<longleftrightarrow> a < b \<or> (a = b \<and> a \<noteq> NaN)"

instance ..

end

text \<open>
  \<^verbatim>\<open>std::max(a, b)\<close> is \<^verbatim>\<open>(a < b) ? b : a\<close>: it returns its first argument when the second
  is NaN.
\<close>

definition std_max :: "double \<Rightarrow> double \<Rightarrow> double" where
  "std_max a b = (if a < b then b else a)"

text \<open>
  \<^verbatim>\<open>pow(x, y)\<close> for an exponent \<open>y\<close> that is a positive number and not an integer (the program
  has \<open>y = 0.5\<close>), \<^verbatim>\<open>std::exp\<close> and \<^verbatim>\<open>std::log\<close>: NaN for a negative base or argument.
\<close>

definition std_pow :: "double \<Rightarrow> real \<Rightarrow> double" where
  "std_pow x y =
     (case x of
        Finite a \<Rightarrow> if a < 0 then NaN else Finite (a powr y)
      | PInf \<Rightarrow> PInf
      | NInf \<Rightarrow> PInf
      | NaN \<Rightarrow> NaN)"

definition std_exp :: "double \<Rightarrow> double" where
  "std_exp x =
     (case x of
        Finite a \<Rightarrow> Finite (exp a)
      | PInf \<Rightarrow> PInf
      | NInf \<Rightarrow> Finite 0
      | NaN \<Rightarrow> NaN)"

definition std_log :: "double \<Rightarrow> double" where
  "std_log x =
     (case x of
        Finite a \<Rightarrow> if a < 0 then NaN else if a = 0 then NInf else Finite (ln a)
      | PInf \<Rightarrow> PInf
      | NInf \<Rightarrow> NaN
      | NaN \<Rightarrow> NaN)"

text \<open>
  The values of \<^verbatim>\<open>liquid_sodium::rho\<close> and \<^verbatim>\<open>liquid_sodium::mu\<close> (the same formulas in both PISO
  files).
\<close>

definition rho_double :: "double \<Rightarrow> double" where
  "rho_double T =
     Finite 219.0 + Finite 275.32 * (Finite 1.0 - T / Finite Tcrit)
     + Finite 511.58 * std_pow (Finite 1.0 - T / Finite Tcrit) 0.5"

definition mu_double :: "double \<Rightarrow> double" where
  "mu_double T = std_exp (Finite (- 6.4406) - Finite 0.3958 * std_log T + Finite 556.835 / T)"

text \<open>
  The boundary rows of the momentum predictor (the same in both PISO files), written into
  the vectors \<open>aU, bU, cU, dU\<close> that the assembly loop has filled, and the solve that follows:
  \<^verbatim>\<open>D_first = mu(T[0]) / dz;   D_last = mu(T[N - 1]) / dz;
  bU[0] = (rho(T[0]) * dz / dt + 2 * D_first); cU[0] = 0.0;
  dU[0] = (rho(T[0]) * dz / dt + 2 * D_first) * u_inlet;
  aU[N - 1] = 0.0; bU[N - 1] = (rho(T[N - 1]) * dz / dt + 2 * D_last);
  dU[N - 1] = (rho(T[N - 1]) * dz / dt + 2 * D_last) * u_outlet;
  u = solveTridiagonal(aU, bU, cU, dU);\<close>
\<close>

definition momentum_boundary_double ::
  "nat \<Rightarrow> real \<Rightarrow> real \<Rightarrow> real \<Rightarrow> real \<Rightarrow> double list \<Rightarrow>
   double list \<times> double list \<times> double list \<times> double list \<Rightarrow>
   double list \<times> double list \<times> double list \<times> double list"
where
  "momentum_boundary_double N dz dt u_inlet u_outlet T sys =
     (case sys of (aU, bU, cU, dU) \<Rightarrow>
        let D_first = mu_double (T ! 0) / Finite dz;
            D_last = mu_double (T ! (N - 1)) / Finite dz;
            b_first = rho_double (T ! 0) * Finite dz / Finite dt + Finite 2 * D_first;
            b_last = rho_double (T ! (N - 1)) * Finite dz / Finite dt + Finite 2 * D_last
        in (aU[N - 1 := Finite 0.0], bU[0 := b_first, N - 1 := b_last], cU[0 := Finite 0.0],
            dU[0 := b_first * Finite u_inlet, N - 1 := b_last * Finite u_outlet]))"

definition momentum_solve_double ::
  "nat \<Rightarrow> real \<Rightarrow> real \<Rightarrow> real \<Rightarrow> real \<Rightarrow> double list \<Rightarrow>
   double list \<times> double list \<times> double list \<times> double list \<Rightarrow> double list option"
where
  "momentum_solve_double N dz dt u_inlet u_outlet T sys =
     (case momentum_boundary_double N dz dt u_inlet u_outlet T sys of
        (aU, bU, cU, dU) \<Rightarrow> solveTridiagonal aU bU cU dU)"

text \<open>
  The velocity corrector (the same in both PISO files), on the pair of \<open>u\<close> and \<open>maxErr\<close>:
  \<^verbatim>\<open>maxErr = 0.0;
  for (int i = 1; i < N - 1; i++) {
    double u_prev = u[i];
    u[i] = u[i] - (p_prime[i + 1] - p_prime[i - 1]) / (2.0 * dz * bU[i]);
    maxErr = std::max(maxErr, std::fabs(u[i] - u_prev)); }\<close>
\<close>

definition velocity_cell_double ::
  "real \<Rightarrow> double list \<Rightarrow> double list \<Rightarrow> nat \<Rightarrow> double list \<times> double \<Rightarrow> double list \<times> double"
where
  "velocity_cell_double dz p_prime bU i um =
     (case um of (u, maxErr) \<Rightarrow>
        let u_prev = u ! i;
            u_new = u[i := u ! i - (p_prime ! (i + 1) - p_prime ! (i - 1))
                                  / (Finite 2.0 * Finite dz * bU ! i)]
        in (u_new, std_max maxErr \<bar>u_new ! i - u_prev\<bar>))"

definition velocity_corrector_double ::
  "nat \<Rightarrow> real \<Rightarrow> double list \<Rightarrow> double list \<Rightarrow> double list \<Rightarrow> double list \<times> double"
where
  "velocity_corrector_double N dz p_prime bU u =
     fold (velocity_cell_double dz p_prime bU) [1..<N - 1] (u, Finite 0.0)"

section \<open>The PISO program\<close>

text \<open>
  The PISO solver exists in two source files, \<^verbatim>\<open>PISO.cpp\<close> and a second file (\<^verbatim>\<open>part_000\<close>);
  they share the structure of \<^verbatim>\<open>main\<close> and differ in constants and in some formulas. The
  embedding follows both: the configuration names the file, and a definition branches on it
  where the two files differ.
\<close>

datatype source_file = PISO_cpp | Part_000

text \<open>
  The \<^verbatim>\<open>const\<close> declarations at the head of \<^verbatim>\<open>main\<close>. Counts (\<^verbatim>\<open>const int\<close>) that are never
  negative are natural numbers. \<open>T_inlet\<close> and \<open>T_outlet\<close> exist in the second file only, and
  only its temperature boundary rows read them; \<open>energy_source\<close> is the magnitude written into
  \<open>St\<close> (\<open>1000000.0\<close> in \<^verbatim>\<open>PISO.cpp\<close>, \<open>1.0\<close> in the second file). \<open>D_pipe\<close> enters the progress
  line only and is left out.
\<close>

record config =
  source :: source_file
  L :: real
  N :: nat
  K :: real
  CF :: real
  T_init :: real
  dt :: real
  t_max :: real
  tot_iter :: nat
  corr_iter :: nat
  tol :: real
  u_inlet :: real
  u_outlet :: real
  p_outlet :: real
  T_inlet :: real
  T_outlet :: real
  mass_source_zone :: real
  mass_sink_zone :: real
  energy_source_zone :: real
  energy_sink_zone :: real
  energy_source :: real
  rhie_chow_on_off :: int

definition PISO_cpp_config :: config where
  "PISO_cpp_config =
     \<lparr>source = PISO_cpp, L = 1.0, N = 1000, K = 0.000001, CF = 0.0, T_init = 600, dt = 0.1,
      t_max = 1000.0, tot_iter = 200, corr_iter = 2, tol = 0.00000001, u_inlet = 0.0,
      u_outlet = 0.0, p_outlet = 50000.0, T_inlet = 0, T_outlet = 0,
      mass_source_zone = 0.2, mass_sink_zone = 0.2, energy_source_zone = 0.2,
      energy_sink_zone = 0.2, energy_source = 1000000.0, rhie_chow_on_off = 1\<rparr>"

definition Part_000_config :: config where
  "Part_000_config =
     \<lparr>source = Part_000, L = 1.0, N = 100, K = 0.000001, CF = 0.0, T_init = 200, dt = 0.001,
      t_max = 1.0, tot_iter = 200, corr_iter = 2, tol = 0.00000001, u_inlet = 0.0,
      u_outlet = 0.0, p_outlet = 50000.0, T_inlet = 300.0, T_outlet = 100.0,
      mass_source_zone = 0.2, mass_sink_zone = 0.2, energy_source_zone = 0.2,
      energy_sink_zone = 0.2, energy_source = 1.0, rhie_chow_on_off = 1\<rparr>"

text \<open>\<^verbatim>\<open>const double dz = L / (N - 1);\<close>\<close>

definition dz :: "config \<Rightarrow> real" where
  "dz cfg = L cfg / real_of_int (int (N cfg) - 1)"

text \<open>
  \<^verbatim>\<open>const int t_iter = (int)std::round(t_max / dt);\<close> where \<^verbatim>\<open>std::round\<close> rounds halfway
  cases away from zero.
\<close>

definition std_round :: "real \<Rightarrow> int" where
  "std_round x = (if 0 \<le> x then \<lfloor>x + 1 / 2\<rfloor> else \<lceil>x - 1 / 2\<rceil>)"

definition t_iter :: "config \<Rightarrow> int" where
  "t_iter cfg = std_round (t_max cfg / dt cfg)"

text \<open>
  The stages of a timestep, named after the \<^verbatim>\<open>#pragma region\<close>s of \<^verbatim>\<open>PISO.cpp\<close>. The state
  carries a log of the stages that have run; the log is an observer added by the embedding
  and no stage reads it.
\<close>

datatype stage =
  Momentum_predictor | Continuity_satisfactor | Pressure_corrector | Velocity_corrector
  | Temperature_calculator | Output

text \<open>
  The variables of \<^verbatim>\<open>main\<close> that the time loop reads and writes. \<open>p_storage\<close> has \<open>N + 2\<close>
  entries, and \<^verbatim>\<open>p_padded = &p_storage[1]\<close>, so \<^verbatim>\<open>p_padded[j]\<close> is \<^verbatim>\<open>p_storage[j + 1]\<close>.
\<close>

record state =
  u :: "real list"
  p :: "real list"
  T :: "real list"
  p_storage :: "real list"
  T_old :: "real list"
  p_old :: "real list"
  p_prime :: "real list"
  Sm :: "real list"
  Su :: "real list"
  St :: "real list"
  aU :: "real list"
  bU :: "real list"
  cU :: "real list"
  dU :: "real list"
  maxErr :: real
  fout :: "item list"
  stage_log :: "stage list"

definition p_padded :: "state \<Rightarrow> int \<Rightarrow> real" where
  "p_padded s j = p_storage s ! nat (j + 1)"

text \<open>
  Every vector of \<^verbatim>\<open>main\<close> is declared with its size and never resized. The stages index
  them without checks, so the stages are modelled on states of these sizes.
\<close>

definition well_sized :: "config \<Rightarrow> state \<Rightarrow> bool" where
  "well_sized cfg s \<longleftrightarrow>
     1 \<le> N cfg \<and>
     length (u s) = N cfg \<and> length (p s) = N cfg \<and> length (T s) = N cfg \<and>
     length (p_storage s) = N cfg + 2 \<and>
     length (T_old s) = N cfg \<and> length (p_old s) = N cfg \<and> length (p_prime s) = N cfg \<and>
     length (Sm s) = N cfg \<and> length (Su s) = N cfg \<and> length (St s) = N cfg \<and>
     length (aU s) = N cfg \<and> length (bU s) = N cfg \<and> length (cU s) = N cfg \<and>
     length (dU s) = N cfg"

subsection \<open>Source terms and the initial state\<close>

text \<open>
  \<^verbatim>\<open>const double mass_source_nodes = std::floor(N * mass_source_zone);\<close> and the loop
  \<^verbatim>\<open>for (int i = 1; i < N - 1; ++i) {
    if (i > 0 && i <= mass_source_nodes) Sm[i] = 1.0;
    else if (i >= (N - mass_sink_nodes) && i < (N - 1)) Sm[i] = -1.0; }\<close>
  The loop for \<open>St\<close> is the same with the energy zones and the magnitude \<open>energy_source\<close>.
\<close>

definition zone_nodes :: "config \<Rightarrow> real \<Rightarrow> real" where
  "zone_nodes cfg zone = of_int \<lfloor>real (N cfg) * zone\<rfloor>"

definition source_step :: "config \<Rightarrow> real \<Rightarrow> real \<Rightarrow> real \<Rightarrow> nat \<Rightarrow> real list \<Rightarrow> real list" where
  "source_step cfg source_nodes sink_nodes magnitude i S =
     (if 0 < i \<and> real i \<le> source_nodes then S[i := magnitude]
      else if real (N cfg) - sink_nodes \<le> real i \<and> i < N cfg - 1 then S[i := - magnitude]
      else S)"

definition Sm_init :: "config \<Rightarrow> real list" where
  "Sm_init cfg =
     (let mass_source_nodes = zone_nodes cfg (mass_source_zone cfg);
          mass_sink_nodes = zone_nodes cfg (mass_sink_zone cfg)
      in fold (source_step cfg mass_source_nodes mass_sink_nodes 1.0) [1..<N cfg - 1]
           (replicate (N cfg) 0.0))"

definition St_init :: "config \<Rightarrow> real list" where
  "St_init cfg =
     (let energy_source_nodes = zone_nodes cfg (energy_source_zone cfg);
          energy_sink_nodes = zone_nodes cfg (energy_sink_zone cfg)
      in fold (source_step cfg energy_source_nodes energy_sink_nodes (energy_source cfg))
           [1..<N cfg - 1] (replicate (N cfg) 0.0))"

text \<open>
  The state when the time loop is entered. \<open>maxErr\<close> is declared inside the loop body and set
  to \<open>1.0\<close> at the start of every timestep; the output file has just been opened.
\<close>

definition init :: "config \<Rightarrow> state" where
  "init cfg =
     \<lparr>u = replicate (N cfg) 0.001, p = replicate (N cfg) 50000.0,
      T = replicate (N cfg) (T_init cfg), p_storage = replicate (N cfg + 2) 50000.0,
      T_old = replicate (N cfg) (T_init cfg), p_old = replicate (N cfg) 50000.0,
      p_prime = replicate (N cfg) 0.0,
      Sm = Sm_init cfg, Su = replicate (N cfg) 0.0, St = St_init cfg,
      aU = replicate (N cfg) 0.0,
      bU = replicate (N cfg) (rho (T_init cfg) * dz cfg / dt cfg + 2 * mu (T_init cfg) / dz cfg),
      cU = replicate (N cfg) 0.0, dU = replicate (N cfg) 0.0,
      maxErr = 1.0, fout = [], stage_log = []\<rparr>"

subsection \<open>Momentum predictor\<close>

text \<open>
  The Rhie and Chow corrections and the face velocities of cell \<open>i\<close>, as the three assembly
  loops compute them from the current \<open>bU\<close>, \<open>p_storage\<close> and \<open>u\<close>:
  \<^verbatim>\<open>rhie_chow_l = -(1.0 / bU[i - 1] + 1.0 / bU[i]) / (8 * dz) *
     (p_padded[i - 2] - 3 * p_padded[i - 1] + 3 * p_padded[i] - p_padded[i + 1]);
  rhie_chow_r = -(1.0 / bU[i + 1] + 1.0 / bU[i]) / (8 * dz) *
     (p_padded[i - 1] - 3 * p_padded[i] + 3 * p_padded[i + 1] - p_padded[i + 2]);
  u_l_face = 0.5 * (u[i - 1] + u[i]) + rhie_chow_on_off * rhie_chow_l;
  u_r_face = 0.5 * (u[i] + u[i + 1]) + rhie_chow_on_off * rhie_chow_r;\<close>
\<close>

definition rhie_chow_l :: "config \<Rightarrow> state \<Rightarrow> nat \<Rightarrow> real" where
  "rhie_chow_l cfg s i =
     - (1.0 / bU s ! (i - 1) + 1.0 / bU s ! i) / (8 * dz cfg) *
     (p_padded s (int i - 2) - 3 * p_padded s (int i - 1) + 3 * p_padded s (int i)
      - p_padded s (int i + 1))"

definition rhie_chow_r :: "config \<Rightarrow> state \<Rightarrow> nat \<Rightarrow> real" where
  "rhie_chow_r cfg s i =
     - (1.0 / bU s ! (i + 1) + 1.0 / bU s ! i) / (8 * dz cfg) *
     (p_padded s (int i - 1) - 3 * p_padded s (int i) + 3 * p_padded s (int i + 1)
      - p_padded s (int i + 2))"

definition u_l_face :: "config \<Rightarrow> state \<Rightarrow> nat \<Rightarrow> real" where
  "u_l_face cfg s i =
     0.5 * (u s ! (i - 1) + u s ! i) + real_of_int (rhie_chow_on_off cfg) * rhie_chow_l cfg s i"

definition u_r_face :: "config \<Rightarrow> state \<Rightarrow> nat \<Rightarrow> real" where
  "u_r_face cfg s i =
     0.5 * (u s ! i + u s ! (i + 1)) + real_of_int (rhie_chow_on_off cfg) * rhie_chow_r cfg s i"

text \<open>
  The upwind face mass fluxes of the momentum predictor:
  \<^verbatim>\<open>rho_l = (u_l_face >= 0) ? rho_L : rho_P;   F_l = rho_l * u_l_face;
  rho_r = (u_r_face >= 0) ? rho_P : rho_R;   F_r = rho_r * u_r_face;\<close>
\<close>

definition F_l :: "config \<Rightarrow> state \<Rightarrow> nat \<Rightarrow> real" where
  "F_l cfg s i =
     (let rho_P = rho (T s ! i); rho_L = rho (T s ! (i - 1));
          rho_l = (if u_l_face cfg s i \<ge> 0 then rho_L else rho_P)
      in rho_l * u_l_face cfg s i)"

definition F_r :: "config \<Rightarrow> state \<Rightarrow> nat \<Rightarrow> real" where
  "F_r cfg s i =
     (let rho_P = rho (T s ! i); rho_R = rho (T s ! (i + 1));
          rho_r = (if u_r_face cfg s i \<ge> 0 then rho_P else rho_R)
      in rho_r * u_r_face cfg s i)"

text \<open>
  The diffusive conductances. \<^verbatim>\<open>PISO.cpp\<close> has
  \<^verbatim>\<open>D_l = 0.5 * (mu_P + mu_L) / dz;   D_r = 0.5 * (mu_P + mu_R) / dz;\<close>
  and the second file has
  \<^verbatim>\<open>D_l = 0.5 * (rho_P + rho_L) / dz;   D_r = 0.5 * (rho_P + rho_R) / dz;\<close>
\<close>

definition D_l :: "config \<Rightarrow> state \<Rightarrow> nat \<Rightarrow> real" where
  "D_l cfg s i =
     (case source cfg of
        PISO_cpp \<Rightarrow> 0.5 * (mu (T s ! i) + mu (T s ! (i - 1))) / dz cfg
      | Part_000 \<Rightarrow> 0.5 * (rho (T s ! i) + rho (T s ! (i - 1))) / dz cfg)"

definition D_r :: "config \<Rightarrow> state \<Rightarrow> nat \<Rightarrow> real" where
  "D_r cfg s i =
     (case source cfg of
        PISO_cpp \<Rightarrow> 0.5 * (mu (T s ! i) + mu (T s ! (i + 1))) / dz cfg
      | Part_000 \<Rightarrow> 0.5 * (rho (T s ! i) + rho (T s ! (i + 1))) / dz cfg)"

text \<open>
  One iteration of the assembly loop \<^verbatim>\<open>for (int i = 1; i < N - 1; i++)\<close>. The loop is marked
  \<^verbatim>\<open>#pragma omp parallel for\<close>; the embedding runs it in index order, as one thread does.
  Iteration \<open>i\<close> reads \<open>bU[i - 1]\<close>, \<open>bU[i]\<close>, \<open>bU[i + 1]\<close> and writes \<open>bU[i]\<close> in the same
  vector. \<^verbatim>\<open>abs\<close> is taken as the absolute value of a \<^verbatim>\<open>double\<close>.
  \<^verbatim>\<open>aU[i] = -std::max(F_l, 0.0) - D_l;
  cU[i] = std::max(-F_r, 0.0) - D_r;
  bU[i] = (std::max(F_r, 0.0) - std::max(-F_l, 0.0)) + rho_P * dz / dt + D_l + D_r
          + mu_P / K * dz + CF * mu_P * dz / sqrt(K) * abs(u[i]);
  dU[i] = -0.5 * (p[i + 1] - p[i - 1]) + rho_P * u[i] * dz / dt + Su[i] * dz;\<close>
\<close>

definition momentum_cell :: "config \<Rightarrow> nat \<Rightarrow> state \<Rightarrow> state" where
  "momentum_cell cfg i s =
     (let rho_P = rho (T s ! i);
          mu_P = mu (T s ! i)
      in s\<lparr>aU := (aU s)[i := - max (F_l cfg s i) 0.0 - D_l cfg s i],
            cU := (cU s)[i := max (- F_r cfg s i) 0.0 - D_r cfg s i],
            bU := (bU s)[i := (max (F_r cfg s i) 0.0 - max (- F_l cfg s i) 0.0)
                        + rho_P * dz cfg / dt cfg + D_l cfg s i + D_r cfg s i
                        + mu_P / K cfg * dz cfg
                        + CF cfg * mu_P * dz cfg / sqrt (K cfg) * \<bar>u s ! i\<bar>],
            dU := (dU s)[i := - 0.5 * (p s ! (i + 1) - p s ! (i - 1))
                        + rho_P * u s ! i * dz cfg / dt cfg + Su s ! i * dz cfg]\<rparr>)"

text \<open>
  The boundary rows (Dirichlet at both ends):
  \<^verbatim>\<open>D_first = mu(T[0]) / dz;   D_last = mu(T[N - 1]) / dz;
  bU[0] = (rho(T[0]) * dz / dt + 2 * D_first); cU[0] = 0.0;
  dU[0] = (rho(T[0]) * dz / dt + 2 * D_first) * u_inlet;
  aU[N - 1] = 0.0; bU[N - 1] = (rho(T[N - 1]) * dz / dt + 2 * D_last);
  dU[N - 1] = (rho(T[N - 1]) * dz / dt + 2 * D_last) * u_outlet;\<close>
\<close>

definition momentum_boundary :: "config \<Rightarrow> state \<Rightarrow> state" where
  "momentum_boundary cfg s =
     (let D_first = mu (T s ! 0) / dz cfg;
          D_last = mu (T s ! (N cfg - 1)) / dz cfg;
          b_first = rho (T s ! 0) * dz cfg / dt cfg + 2 * D_first;
          b_last = rho (T s ! (N cfg - 1)) * dz cfg / dt cfg + 2 * D_last
      in s\<lparr>aU := (aU s)[N cfg - 1 := 0.0],
            bU := (bU s)[0 := b_first, N cfg - 1 := b_last],
            cU := (cU s)[0 := 0.0],
            dU := (dU s)[0 := b_first * u_inlet cfg, N cfg - 1 := b_last * u_outlet cfg]\<rparr>)"

text \<open>The assembled momentum system: the interior loop, then the boundary rows.\<close>

definition momentum_assembly :: "config \<Rightarrow> state \<Rightarrow> state" where
  "momentum_assembly cfg s = momentum_boundary cfg (fold (momentum_cell cfg) [1..<N cfg - 1] s)"

text \<open>
  \<^verbatim>\<open>u = solveTridiagonal(aU, bU, cU, dU);\<close> closes the region. \<open>None\<close> stands for a solve that
  would index out of range.
\<close>

definition momentum_predictor :: "config \<Rightarrow> state \<Rightarrow> state option" where
  "momentum_predictor cfg s =
     (let s1 = momentum_assembly cfg s
      in case solveTridiagonal (aU s1) (bU s1) (cU s1) (dU s1) of
           None \<Rightarrow> None
         | Some x \<Rightarrow> Some (s1\<lparr>u := x, stage_log := stage_log s1 @ [Momentum_predictor]\<rparr>))"

subsection \<open>Continuity satisfactor\<close>

text \<open>
  The pressure-correction system is assembled in local vectors \<open>aP, bP, cP, dP\<close> of \<open>N\<close>
  zeros, here the tuple \<open>(aP, bP, cP, dP)\<close>. One iteration of
  \<^verbatim>\<open>for (int i = 1; i < N - 1; i++)\<close> in \<^verbatim>\<open>PISO.cpp\<close>:
  \<^verbatim>\<open>rho_l = 0.5 * (rho_L + rho_P);
  d_l_face = 0.5 * (1.0 / bU[i - 1] + 1.0 / bU[i]);   E_l = rho_l * d_l_face / dz;
  rho_r = 0.5 * (rho_P + rho_R);
  d_r_face = 0.5 * (1.0 / bU[i] + 1.0 / bU[i + 1]);   E_r = rho_r * d_r_face / dz;
  u_l_star = 0.5 * (u[i - 1] + u[i]) + rhie_chow_on_off * rhie_chow_l;
  mdot_l_star = (u_l_star > 0.0) ? rho_L * u_l_star : rho_P * u_l_star;
  u_r_star = 0.5 * (u[i] + u[i + 1]) + rhie_chow_on_off * rhie_chow_r;
  mdot_r_star = (u_r_star > 0.0) ? rho_P * u_r_star : rho_R * u_r_star;
  mass_imbalance = (mdot_r_star - mdot_l_star);
  aP[i] = -E_l;  cP[i] = -E_r;  bP[i] = E_l + E_r;  dP[i] = Sm[i] * dz - mass_imbalance;\<close>
  The second file names the faces \<open>w\<close> and \<open>e\<close>, divides the conductances by \<open>dz * dz\<close> and
  the imbalance by \<open>dz\<close>, and has \<^verbatim>\<open>dP[i] = Sm[i] - mass_imbalance\<close>.
\<close>

definition continuity_cell ::
  "config \<Rightarrow> state \<Rightarrow> nat \<Rightarrow> real list \<times> real list \<times> real list \<times> real list \<Rightarrow>
   real list \<times> real list \<times> real list \<times> real list"
where
  "continuity_cell cfg s i sys =
     (case sys of (aP, bP, cP, dP) \<Rightarrow>
        let rho_P = rho (T s ! i); rho_L = rho (T s ! (i - 1)); rho_R = rho (T s ! (i + 1));
            rho_l = 0.5 * (rho_L + rho_P);
            d_l_face = 0.5 * (1.0 / bU s ! (i - 1) + 1.0 / bU s ! i);
            rho_r = 0.5 * (rho_P + rho_R);
            d_r_face = 0.5 * (1.0 / bU s ! i + 1.0 / bU s ! (i + 1));
            u_l_star = 0.5 * (u s ! (i - 1) + u s ! i)
                       + real_of_int (rhie_chow_on_off cfg) * rhie_chow_l cfg s i;
            mdot_l_star = (if u_l_star > 0.0 then rho_L * u_l_star else rho_P * u_l_star);
            u_r_star = 0.5 * (u s ! i + u s ! (i + 1))
                       + real_of_int (rhie_chow_on_off cfg) * rhie_chow_r cfg s i;
            mdot_r_star = (if u_r_star > 0.0 then rho_P * u_r_star else rho_R * u_r_star)
        in case source cfg of
             PISO_cpp \<Rightarrow>
               let E_l = rho_l * d_l_face / dz cfg;
                   E_r = rho_r * d_r_face / dz cfg;
                   mass_imbalance = mdot_r_star - mdot_l_star
               in (aP[i := - E_l], bP[i := E_l + E_r], cP[i := - E_r],
                   dP[i := Sm s ! i * dz cfg - mass_imbalance])
           | Part_000 \<Rightarrow>
               let E_w = rho_l * d_l_face / (dz cfg * dz cfg);
                   E_e = rho_r * d_r_face / (dz cfg * dz cfg);
                   mass_imbalance = (mdot_r_star - mdot_l_star) / dz cfg
               in (aP[i := - E_w], bP[i := E_w + E_e], cP[i := - E_e],
                   dP[i := Sm s ! i - mass_imbalance]))"

text \<open>
  The interior loop, then the boundary rows (zero gradient at the inlet, zero correction at
  the outlet):
  \<^verbatim>\<open>bP[0] = 1.0; cP[0] = -1.0; dP[0] = 0.0;
  bP[N - 1] = 1.0; aP[N - 1] = 0.0; dP[N - 1] = 0.0;\<close>
  The second file writes the same six values, the outlet row first.
\<close>

definition continuity_system ::
  "config \<Rightarrow> state \<Rightarrow> real list \<times> real list \<times> real list \<times> real list"
where
  "continuity_system cfg s =
     (case fold (continuity_cell cfg s) [1..<N cfg - 1]
             (replicate (N cfg) 0.0, replicate (N cfg) 0.0, replicate (N cfg) 0.0,
              replicate (N cfg) 0.0)
      of (aP, bP, cP, dP) \<Rightarrow>
        (aP[N cfg - 1 := 0.0], bP[0 := 1.0, N cfg - 1 := 1.0], cP[0 := - 1.0],
         dP[0 := 0.0, N cfg - 1 := 0.0]))"

text \<open>\<^verbatim>\<open>p_prime = solveTridiagonal(aP, bP, cP, dP);\<close>\<close>

definition continuity_satisfactor :: "config \<Rightarrow> state \<Rightarrow> state option" where
  "continuity_satisfactor cfg s =
     (case continuity_system cfg s of (aP, bP, cP, dP) \<Rightarrow>
        case solveTridiagonal aP bP cP dP of
          None \<Rightarrow> None
        | Some x \<Rightarrow> Some (s\<lparr>p_prime := x, stage_log := stage_log s @ [Continuity_satisfactor]\<rparr>))"

subsection \<open>Pressure corrector\<close>

text \<open>
  One iteration of \<^verbatim>\<open>for (int i = 0; i < N; i++)\<close>:
  \<^verbatim>\<open>p[i] += p_prime[i];
  p_storage[i + 1] = p[i];\<close>
\<close>

definition pressure_cell :: "nat \<Rightarrow> state \<Rightarrow> state" where
  "pressure_cell i s =
     (let p_new = (p s)[i := p s ! i + p_prime s ! i]
      in s\<lparr>p := p_new, p_storage := (p_storage s)[i + 1 := p_new ! i]\<rparr>)"

text \<open>
  The loop, then the ghost cells:
  \<^verbatim>\<open>p_storage[0] = p_storage[1];
  p_storage[N + 1] = p_outlet;\<close>
\<close>

definition pressure_corrector :: "config \<Rightarrow> state \<Rightarrow> state" where
  "pressure_corrector cfg s =
     (let s1 = fold pressure_cell [0..<N cfg] s;
          ghost_l = (p_storage s1)[0 := p_storage s1 ! 1]
      in s1\<lparr>p_storage := ghost_l[N cfg + 1 := p_outlet cfg],
             stage_log := stage_log s1 @ [Pressure_corrector]\<rparr>)"

subsection \<open>Velocity corrector\<close>

text \<open>
  One iteration of \<^verbatim>\<open>for (int i = 1; i < N - 1; i++)\<close>:
  \<^verbatim>\<open>double u_prev = u[i];
  u[i] = u[i] - (p_prime[i + 1] - p_prime[i - 1]) / (2.0 * dz * bU[i]);
  maxErr = std::max(maxErr, std::fabs(u[i] - u_prev));\<close>
\<close>

definition velocity_cell :: "config \<Rightarrow> nat \<Rightarrow> state \<Rightarrow> state" where
  "velocity_cell cfg i s =
     (let u_prev = u s ! i;
          u_new = (u s)[i := u s ! i - (p_prime s ! (i + 1) - p_prime s ! (i - 1))
                                      / (2.0 * dz cfg * bU s ! i)]
      in s\<lparr>u := u_new, maxErr := max (maxErr s) \<bar>u_new ! i - u_prev\<bar>\<rparr>)"

text \<open>\<^verbatim>\<open>maxErr = 0.0;\<close> and the loop.\<close>

definition velocity_corrector :: "config \<Rightarrow> state \<Rightarrow> state" where
  "velocity_corrector cfg s =
     (let s1 = fold (velocity_cell cfg) [1..<N cfg - 1] (s\<lparr>maxErr := 0.0\<rparr>)
      in s1\<lparr>stage_log := stage_log s1 @ [Velocity_corrector]\<rparr>)"

subsection \<open>The PISO iterations\<close>

text \<open>The body of \<^verbatim>\<open>for (int piso = 0; piso < corr_iter; piso++)\<close>: the three regions in turn.\<close>

definition corrector_round :: "config \<Rightarrow> state \<Rightarrow> state option" where
  "corrector_round cfg s =
     (case continuity_satisfactor cfg s of
        None \<Rightarrow> None
      | Some s1 \<Rightarrow> Some (velocity_corrector cfg (pressure_corrector cfg s1)))"

function piso_correctors :: "config \<Rightarrow> nat \<Rightarrow> state \<Rightarrow> state option" where
  "piso_correctors cfg piso s =
     (if piso < corr_iter cfg then
        case corrector_round cfg s of
          None \<Rightarrow> None
        | Some s' \<Rightarrow> piso_correctors cfg (piso + 1) s'
      else Some s)"
  by pat_completeness auto
termination
  by (relation "measure (\<lambda>(cfg, piso, s). corr_iter cfg - piso)") auto

declare piso_correctors.simps [simp del]

text \<open>The body of the \<^verbatim>\<open>while\<close> loop, up to \<^verbatim>\<open>iter++\<close>.\<close>

definition piso_iteration :: "config \<Rightarrow> state \<Rightarrow> state option" where
  "piso_iteration cfg s =
     (case momentum_predictor cfg s of
        None \<Rightarrow> None
      | Some s1 \<Rightarrow> piso_correctors cfg 0 s1)"

text \<open>
  \<^verbatim>\<open>while (iter < tot_iter && maxErr > tol) { ...; iter++; }\<close>. The result is the final
  \<open>iter\<close> and the final state.
\<close>

function piso_loop :: "config \<Rightarrow> nat \<Rightarrow> state \<Rightarrow> (nat \<times> state) option" where
  "piso_loop cfg iter s =
     (if iter < tot_iter cfg \<and> maxErr s > tol cfg then
        case piso_iteration cfg s of
          None \<Rightarrow> None
        | Some s' \<Rightarrow> piso_loop cfg (iter + 1) s'
      else Some (iter, s))"
  by pat_completeness auto
termination
  by (relation "measure (\<lambda>(cfg, iter, s). tot_iter cfg - iter)") auto

declare piso_loop.simps [simp del]

subsection \<open>Temperature calculator\<close>

text \<open>
  The energy system is assembled in local vectors of \<open>N\<close> zeros, here the tuple
  \<open>(aT, bT, cT, dT)\<close> (\<^verbatim>\<open>aXT, bXT, cXT, dXT\<close> in \<^verbatim>\<open>PISO.cpp\<close>). One iteration of
  \<^verbatim>\<open>for (int i = 1; i < N - 1; i++)\<close> in \<^verbatim>\<open>PISO.cpp\<close>:
  \<^verbatim>\<open>rhoCp_dzdt = rho_P * cp_P * dz / dt;
  D_l = 0.5 * (k_cond_P + k_cond_L) / dz;   D_r = 0.5 * (k_cond_P + k_cond_R) / dz;
  rho_l = (u_l_face >= 0) ? rho_L : rho_P;   rho_r = (u_r_face >= 0) ? rho_P : rho_R;
  cp_l = (u_l_face >= 0) ? cp_L : cp_P;      cp_r = (u_r_face >= 0) ? cp_P : cp_R;
  Fl = rho_l * u_l_face;   Fr = rho_r * u_r_face;   C_l = (Fl * cp_l);   C_r = (Fr * cp_r);
  aXT[i] = -D_l - std::max(C_l, 0.0);
  cXT[i] = -D_r + std::max(-C_r, 0.0);
  bXT[i] = (std::max(C_r, 0.0) - std::max(-C_l, 0.0)) + D_l + D_r + rhoCp_dzdt;
  dXT[i] = rhoCp_dzdt * T_old[i] + St[i] * dz;\<close>
  and in the second file:
  \<^verbatim>\<open>rhoCp_dt = rho_i * cp / dt;   D_w = k / (dz * dz);   D_e = k / (dz * dz);
  Fw = rho_w * u_l_face;   Fe = rho_e * u_r_face;
  C_w_dx = (Fw * cp) / dz;   C_e_dx = (Fe * cp) / dz;
  A_w = D_w + std::max(C_w_dx, 0.0);   A_e = D_e + std::max(-C_e_dx, 0.0);
  aT[i] = -A_w;  cT[i] = -A_e;  bT[i] = A_w + A_e + rhoCp_dt;  dT[i] = rhoCp_dt * T[i] + St[i];\<close>
  The upwind fluxes \<open>Fl\<close>, \<open>Fr\<close> (\<open>Fw\<close>, \<open>Fe\<close>) are computed as \<open>F_l\<close>, \<open>F_r\<close> of the momentum
  predictor are.
\<close>

definition temperature_cell ::
  "config \<Rightarrow> state \<Rightarrow> nat \<Rightarrow> real list \<times> real list \<times> real list \<times> real list \<Rightarrow>
   real list \<times> real list \<times> real list \<times> real list"
where
  "temperature_cell cfg s i sys =
     (case sys of (aT, bT, cT, dT) \<Rightarrow>
        case source cfg of
          PISO_cpp \<Rightarrow>
            let rho_P = rho (T s ! i);
                k_cond_P = k_cond (T s ! i); k_cond_L = k_cond (T s ! (i - 1));
                k_cond_R = k_cond (T s ! (i + 1));
                cp_P = cp (T s ! i); cp_L = cp (T s ! (i - 1)); cp_R = cp (T s ! (i + 1));
                rhoCp_dzdt = rho_P * cp_P * dz cfg / dt cfg;
                D_l = 0.5 * (k_cond_P + k_cond_L) / dz cfg;
                D_r = 0.5 * (k_cond_P + k_cond_R) / dz cfg;
                cp_l = (if u_l_face cfg s i \<ge> 0 then cp_L else cp_P);
                cp_r = (if u_r_face cfg s i \<ge> 0 then cp_P else cp_R);
                C_l = F_l cfg s i * cp_l;
                C_r = F_r cfg s i * cp_r
            in (aT[i := - D_l - max C_l 0.0],
                bT[i := (max C_r 0.0 - max (- C_l) 0.0) + D_l + D_r + rhoCp_dzdt],
                cT[i := - D_r + max (- C_r) 0.0],
                dT[i := rhoCp_dzdt * T_old s ! i + St s ! i * dz cfg])
        | Part_000 \<Rightarrow>
            let k = k_cond (T s ! i);
                cp = cp (T s ! i);
                rho_i = rho (T s ! i);
                rhoCp_dt = rho_i * cp / dt cfg;
                D_w = k / (dz cfg * dz cfg);
                D_e = k / (dz cfg * dz cfg);
                C_w_dx = (F_l cfg s i * cp) / dz cfg;
                C_e_dx = (F_r cfg s i * cp) / dz cfg;
                A_w = D_w + max C_w_dx 0.0;
                A_e = D_e + max (- C_e_dx) 0.0
            in (aT[i := - A_w], bT[i := A_w + A_e + rhoCp_dt], cT[i := - A_e],
                dT[i := rhoCp_dt * T s ! i + St s ! i]))"

text \<open>
  The interior loop, then the boundary rows. \<^verbatim>\<open>PISO.cpp\<close>:
  \<^verbatim>\<open>bXT[0] = 1.0; cXT[0] = -1.0; dXT[0] = 0.0;
  aXT[N - 1] = -1.0; bXT[N - 1] = 1.0; dXT[N - 1] = 0.0;\<close>
  The second file:
  \<^verbatim>\<open>bT[0] = 1.0; cT[0] = 0.0; dT[0] = T_inlet;
  aT[N - 1] = 0.0; bT[N - 1] = 1.0; dT[N - 1] = T_outlet;\<close>
\<close>

definition temperature_system ::
  "config \<Rightarrow> state \<Rightarrow> real list \<times> real list \<times> real list \<times> real list"
where
  "temperature_system cfg s =
     (case fold (temperature_cell cfg s) [1..<N cfg - 1]
             (replicate (N cfg) 0.0, replicate (N cfg) 0.0, replicate (N cfg) 0.0,
              replicate (N cfg) 0.0)
      of (aT, bT, cT, dT) \<Rightarrow>
        case source cfg of
          PISO_cpp \<Rightarrow>
            (aT[N cfg - 1 := - 1.0], bT[0 := 1.0, N cfg - 1 := 1.0], cT[0 := - 1.0],
             dT[0 := 0.0, N cfg - 1 := 0.0])
        | Part_000 \<Rightarrow>
            (aT[N cfg - 1 := 0.0], bT[0 := 1.0, N cfg - 1 := 1.0], cT[0 := 0.0],
             dT[0 := T_inlet cfg, N cfg - 1 := T_outlet cfg]))"

text \<open>\<^verbatim>\<open>T = solveTridiagonal(aXT, bXT, cXT, dXT);\<close>\<close>

definition temperature_calculator :: "config \<Rightarrow> state \<Rightarrow> state option" where
  "temperature_calculator cfg s =
     (case temperature_system cfg s of (aT, bT, cT, dT) \<Rightarrow>
        case solveTridiagonal aT bT cT dT of
          None \<Rightarrow> None
        | Some x \<Rightarrow> Some (s\<lparr>T := x, stage_log := stage_log s @ [Temperature_calculator]\<rparr>))"

subsection \<open>Output\<close>

text \<open>
  \<^verbatim>\<open>for (int i = 0; i < N; i++) { fout << v[i] << ", "; }\<close> for a vector \<open>v\<close>.
\<close>

definition write_profile :: "config \<Rightarrow> real list \<Rightarrow> item list \<Rightarrow> item list" where
  "write_profile cfg v f = fold (\<lambda>i f. f @ [Number (v ! i), Text '', '']) [0..<N cfg] f"

text \<open>
  The output region, for the timestep counter \<open>it\<close> (a \<^verbatim>\<open>double\<close> that counts \<open>0, 1, 2, ...\<close>):
  \<^verbatim>\<open>if (it == (t_iter - 1)) { for (...) { fout << u[i] << ", "; } } fout << "\n\n";
  if (it == (t_iter - 1)) { for (...) { fout << p[i] << ", "; } } fout << "\n\n";
  if (it == (t_iter - 1)) { for (...) { fout << T[i] << ", "; } }\<close>
\<close>

definition output_region :: "config \<Rightarrow> int \<Rightarrow> state \<Rightarrow> state" where
  "output_region cfg it s =
     (let f0 = fout s;
          f1 = (if it = t_iter cfg - 1 then write_profile cfg (u s) f0 else f0)
               @ [Text ''\<newline>\<newline>''];
          f2 = (if it = t_iter cfg - 1 then write_profile cfg (p s) f1 else f1)
               @ [Text ''\<newline>\<newline>''];
          f3 = (if it = t_iter cfg - 1 then write_profile cfg (T s) f2 else f2)
      in s\<lparr>fout := f3, stage_log := stage_log s @ [Output]\<rparr>)"

subsection \<open>The time loop\<close>

text \<open>
  The body of \<^verbatim>\<open>for (double it = 0; it < t_iter; it++)\<close>. The progress line goes to
  \<^verbatim>\<open>std::cout\<close> and changes no variable. \<^verbatim>\<open>PISO.cpp\<close> then backs up \<^verbatim>\<open>T_old = T; p_old = p;\<close>
  (the second file has no backup); both set \<^verbatim>\<open>iter = 0; maxErr = 1.0;\<close> and run the
  \<^verbatim>\<open>while\<close> loop, the temperature calculator and the output region.
\<close>

definition timestep :: "config \<Rightarrow> int \<Rightarrow> state \<Rightarrow> state option" where
  "timestep cfg it s =
     (let s0 = (case source cfg of
                  PISO_cpp \<Rightarrow> s\<lparr>T_old := T s, p_old := p s\<rparr>
                | Part_000 \<Rightarrow> s)
      in case piso_loop cfg 0 (s0\<lparr>maxErr := 1.0\<rparr>) of
           None \<Rightarrow> None
         | Some (iter, s1) \<Rightarrow>
             (case temperature_calculator cfg s1 of
                None \<Rightarrow> None
              | Some s2 \<Rightarrow> Some (output_region cfg it s2)))"

function time_loop :: "config \<Rightarrow> int \<Rightarrow> state \<Rightarrow> state option" where
  "time_loop cfg it s =
     (if it < t_iter cfg then
        case timestep cfg it s of
          None \<Rightarrow> None
        | Some s' \<Rightarrow> time_loop cfg (it + 1) s'
      else Some s)"
  by pat_completeness auto
termination
  by (relation "measure (\<lambda>(cfg, it, s). nat (t_iter cfg - it))") auto

declare time_loop.simps [simp del]

text \<open>\<^verbatim>\<open>main\<close>: the initial state, then the time loop from \<open>it = 0\<close>.\<close>

definition main :: "config \<Rightarrow> state option" where
  "main cfg = time_loop cfg 0 (init cfg)"

section \<open>Notions used in the statements\<close>

text \<open>A system held in four vectors of \<open>n\<close> entries each.\<close>

definition sized4 :: "nat \<Rightarrow> real list \<times> real list \<times> real list \<times> real list \<Rightarrow> bool" where
  "sized4 n sys = (case sys of (a, b, c, d) \<Rightarrow>
     length a = n \<and> length b = n \<and> length c = n \<and> length d = n)"

text \<open>\<open>k\<close> corrector rounds in sequence.\<close>

fun rounds :: "config \<Rightarrow> nat \<Rightarrow> state \<Rightarrow> state option" where
  "rounds cfg 0 s = Some s"
| "rounds cfg (Suc k) s =
     (case corrector_round cfg s of
        None \<Rightarrow> None
      | Some s' \<Rightarrow> rounds cfg k s')"

text \<open>
  The stages of one iteration of the \<^verbatim>\<open>while\<close> loop, in order: the momentum predictor (assembly
  and solve), then \<open>corr_iter\<close> times the continuity satisfactor (assembly and solve of the
  pressure correction), the pressure corrector (pressure and ghost-buffer update) and the
  velocity corrector.
\<close>

definition iteration_log :: "config \<Rightarrow> stage list" where
  "iteration_log cfg =
     Momentum_predictor #
     concat (replicate (corr_iter cfg) [Continuity_satisfactor, Pressure_corrector, Velocity_corrector])"

text \<open>
  The ghost-padded buffer agrees with the pressure field: \<open>p_storage[i + 1] = p[i]\<close> for every
  cell, the inlet ghost mirrors \<open>p[0]\<close> and the outlet ghost holds \<open>p_outlet\<close>.
\<close>

definition ghost_padded :: "config \<Rightarrow> state \<Rightarrow> bool" where
  "ghost_padded cfg s \<longleftrightarrow>
     (\<forall>i<N cfg. p_storage s ! (i + 1) = p s ! i) \<and>
     p_storage s ! 0 = p s ! 0 \<and> p_storage s ! (N cfg + 1) = p_outlet cfg"






section \<open>Properties of the tridiagonal solver\<close>

lemma forward_fold_inv:
  fixes a b c d :: "('a :: {zero, minus, times, inverse}) list"
  assumes "1 \<le> k" "k \<le> n" "length cs0 = n" "length ds0 = n"
  defines "r \<equiv> fold (forward_step a b c d) [1..<k] (cs0, ds0)"
  shows "length (fst r) = n \<and> length (snd r) = n \<and> fst r ! 0 = cs0 ! 0 \<and> snd r ! 0 = ds0 ! 0 \<and>
         (\<forall>i. 1 \<le> i \<and> i < k \<longrightarrow>
            fst r ! i = c ! i / (b ! i - a ! i * fst r ! (i - 1)) \<and>
            snd r ! i = (d ! i - a ! i * snd r ! (i - 1)) / (b ! i - a ! i * fst r ! (i - 1)))"
  using assms(1,2) unfolding r_def
proof (induction k rule: dec_induct)
  case base
  then show ?case using assms(3,4) by simp
next
  case (step k)
  define r where "r = fold (forward_step a b c d) [1..<k] (cs0, ds0)"
  have IH: "length (fst r) = n" "length (snd r) = n" "fst r ! 0 = cs0 ! 0" "snd r ! 0 = ds0 ! 0"
    "\<And>i. 1 \<le> i \<Longrightarrow> i < k \<Longrightarrow>
        fst r ! i = c ! i / (b ! i - a ! i * fst r ! (i - 1)) \<and>
        snd r ! i = (d ! i - a ! i * snd r ! (i - 1)) / (b ! i - a ! i * fst r ! (i - 1))"
    using step unfolding r_def by auto
  have eq: "fold (forward_step a b c d) [1..<Suc k] (cs0, ds0) = forward_step a b c d k r"
    using step(1) unfolding r_def by simp
  have kn: "k < n" "1 \<le> k" using step by auto
  define cs where "cs = fst r"
  define ds where "ds = snd r"
  define m where "m = b ! k - a ! k * cs ! (k - 1)"
  have fs: "forward_step a b c d k r = (cs[k := c ! k / m], ds[k := (d ! k - a ! k * ds ! (k - 1)) / m])"
    by (simp add: forward_step_def Let_def cs_def ds_def m_def)
  have old: "\<And>i. i < k \<Longrightarrow> (cs[k := v]) ! i = cs ! i \<and> (ds[k := w]) ! i = ds ! i" for v w
    by simp
  have new: "(cs[k := v]) ! k = v \<and> (ds[k := w]) ! k = w" for v w
    using kn IH(1,2) by (simp add: cs_def ds_def)
  have rec: "(cs[k := c ! k / m]) ! i = c ! i / (b ! i - a ! i * (cs[k := c ! k / m]) ! (i - 1)) \<and>
             (ds[k := (d ! k - a ! k * ds ! (k - 1)) / m]) ! i =
               (d ! i - a ! i * (ds[k := (d ! k - a ! k * ds ! (k - 1)) / m]) ! (i - 1)) /
               (b ! i - a ! i * (cs[k := c ! k / m]) ! (i - 1))"
    if "1 \<le> i" "i < Suc k" for i
  proof (cases "i = k")
    case True
    have "k - 1 < k" using kn by simp
    then show ?thesis using True new old[of "k - 1"] by (simp add: m_def)
  next
    case False
    then have ik: "i < k" "i - 1 < k" using that by auto
    show ?thesis using IH(5)[OF that(1) ik(1)] old[OF ik(1)] old[OF ik(2)]
      by (simp add: cs_def ds_def)
  qed
  have zero: "(cs[k := v]) ! 0 = cs0 ! 0 \<and> (ds[k := w]) ! 0 = ds0 ! 0" for v w
    using kn IH(3,4) by (simp add: cs_def ds_def)
  have len: "length (cs[k := v]) = n \<and> length (ds[k := w]) = n" for v w
    using IH(1,2) by (simp add: cs_def ds_def)
  show ?case unfolding eq fs fst_conv snd_conv
    using rec zero len by blast
qed

lemma backward_fold_inv:
  fixes cs ds :: "('a :: {zero, minus, times, inverse}) list"
  assumes "j \<le> n - 1" "length x0 = n"
  defines "x \<equiv> fold (backward_step cs ds) (rev [j..<n - 1]) x0"
  shows "length x = n \<and> x ! (n - 1) = x0 ! (n - 1) \<and>
         (\<forall>i. j \<le> i \<and> i < n - 1 \<longrightarrow> x ! i = ds ! i - cs ! i * x ! (i + 1))"
  using assms(1) unfolding x_def
proof (induction j rule: inc_induct)
  case base
  then show ?case using assms(2) by auto
next
  case (step j)
  define y where "y = fold (backward_step cs ds) (rev [Suc j..<n - 1]) x0"
  have IH: "length y = n" "y ! (n - 1) = x0 ! (n - 1)"
    "\<And>i. Suc j \<le> i \<Longrightarrow> i < n - 1 \<Longrightarrow> y ! i = ds ! i - cs ! i * y ! (i + 1)"
    using step unfolding y_def by auto
  have eq: "fold (backward_step cs ds) (rev [j..<n - 1]) x0 = backward_step cs ds j y"
    using step(2) unfolding y_def by (simp add: upt_conv_Cons)
  define v where "v = ds ! j - cs ! j * y ! (j + 1)"
  have bs: "backward_step cs ds j y = y[j := v]"
    by (simp add: backward_step_def v_def)
  have jn: "j < n - 1" using step by simp
  have rec: "(y[j := v]) ! i = ds ! i - cs ! i * (y[j := v]) ! (i + 1)" if "j \<le> i" "i < n - 1" for i
  proof (cases "i = j")
    case True
    then show ?thesis using IH(1) jn by (simp add: v_def)
  next
    case False
    then have "Suc j \<le> i" using that by simp
    from IH(3)[OF this that(2)] show ?thesis using False that by simp
  qed
  have last: "(y[j := v]) ! (n - 1) = x0 ! (n - 1)" using IH(2) jn by simp
  have len: "length (y[j := v]) = n" using IH(1) by simp
  show ?case unfolding eq bs using rec last len by blast
qed

lemma forward_elimination_props:
  fixes a b c d :: "('a :: {zero, minus, times, inverse}) list"
  assumes "1 \<le> length b"
  defines "cs \<equiv> fst (forward_elimination a b c d)" and "ds \<equiv> snd (forward_elimination a b c d)"
  shows "length cs = length b" "length ds = length b"
    "cs ! 0 = c ! 0 / b ! 0" "ds ! 0 = d ! 0 / b ! 0"
    "\<And>i. 1 \<le> i \<Longrightarrow> i < length b \<Longrightarrow>
        cs ! i = c ! i / (b ! i - a ! i * cs ! (i - 1)) \<and>
        ds ! i = (d ! i - a ! i * ds ! (i - 1)) / (b ! i - a ! i * cs ! (i - 1))"
proof -
  define n where "n = length b"
  define cs0 where "cs0 = (replicate n (0::'a))[0 := c ! 0 / b ! 0]"
  define ds0 where "ds0 = (replicate n (0::'a))[0 := d ! 0 / b ! 0]"
  have fe: "forward_elimination a b c d = fold (forward_step a b c d) [1..<n] (cs0, ds0)"
    by (simp add: forward_elimination_def Let_def n_def cs0_def ds0_def)
  have n1: "1 \<le> n" using assms(1) by (simp add: n_def)
  have l0: "length cs0 = n" "length ds0 = n" by (simp_all add: cs0_def ds0_def)
  have z0: "cs0 ! 0 = c ! 0 / b ! 0" "ds0 ! 0 = d ! 0 / b ! 0"
    using n1 by (simp_all add: cs0_def ds0_def)
  note inv = forward_fold_inv[OF n1 order_refl l0, of a b c d, folded fe, folded cs_def ds_def]
  show "length cs = length b" "length ds = length b" using inv by (simp_all add: n_def)
  show "cs ! 0 = c ! 0 / b ! 0" "ds ! 0 = d ! 0 / b ! 0" using inv z0 by simp_all
  show "\<And>i. 1 \<le> i \<Longrightarrow> i < length b \<Longrightarrow>
        cs ! i = c ! i / (b ! i - a ! i * cs ! (i - 1)) \<and>
        ds ! i = (d ! i - a ! i * ds ! (i - 1)) / (b ! i - a ! i * cs ! (i - 1))"
    using inv by (simp add: n_def)
qed

lemma backward_substitution_props:
  fixes cs ds :: "('a :: {zero, minus, times, inverse}) list"
  assumes "1 \<le> n"
  defines "x \<equiv> backward_substitution cs ds n"
  shows "length x = n" "x ! (n - 1) = ds ! (n - 1)"
    "\<And>i. i < n - 1 \<Longrightarrow> x ! i = ds ! i - cs ! i * x ! (i + 1)"
proof -
  define x0 where "x0 = (replicate n (0::'a))[n - 1 := ds ! (n - 1)]"
  have bs: "backward_substitution cs ds n = fold (backward_step cs ds) (rev [0..<n - 1]) x0"
    by (simp add: backward_substitution_def x0_def)
  have l0: "length x0 = n" by (simp add: x0_def)
  have last: "x0 ! (n - 1) = ds ! (n - 1)" using assms(1) by (simp add: x0_def)
  note inv = backward_fold_inv[OF le0 l0, of cs ds, folded bs, folded x_def]
  show "length x = n" "x ! (n - 1) = ds ! (n - 1)" using inv last by simp_all
  show "\<And>i. i < n - 1 \<Longrightarrow> x ! i = ds ! i - cs ! i * x ! (i + 1)" using inv by simp
qed

lemma pivots_nonzeroD:
  "pivots_nonzero a b c d \<Longrightarrow> i < length b \<Longrightarrow> pivot a b c d i \<noteq> 0"
  by (simp add: pivots_nonzero_def list_all_iff)

lemma thomas_rows:
  fixes a b c d :: "real list"
  assumes len: "length a = n" "length b = n" "length c = n" "length d = n"
    and n1: "1 \<le> n"
    and piv: "pivots_nonzero a b c d"
  defines "x \<equiv> backward_substitution (fst (forward_elimination a b c d))
                   (snd (forward_elimination a b c d)) n"
  shows "solveTridiagonal a b c d = Some x"
    "n = 1 \<Longrightarrow> b ! 0 * x ! 0 = d ! 0"
    "2 \<le> n \<Longrightarrow> b ! 0 * x ! 0 + c ! 0 * x ! 1 = d ! 0"
    "\<And>i. 0 < i \<Longrightarrow> i < n - 1 \<Longrightarrow>
        a ! i * x ! (i - 1) + b ! i * x ! i + c ! i * x ! (i + 1) = d ! i"
    "2 \<le> n \<Longrightarrow> a ! (n - 1) * x ! (n - 2) + b ! (n - 1) * x ! (n - 1) = d ! (n - 1)"
proof -
  define cs where "cs = fst (forward_elimination a b c d)"
  define ds where "ds = snd (forward_elimination a b c d)"
  have x_def: "x = backward_substitution cs ds n" by (simp add: x_def cs_def ds_def)
  have lb: "1 \<le> length b" using len n1 by simp
  note F = forward_elimination_props[where a=a and b=b and c=c and d=d, OF lb, folded cs_def ds_def, unfolded len]
  note B = backward_substitution_props[where cs=cs and ds=ds, OF n1, folded x_def]
  have sol: "solveTridiagonal a b c d = Some x"
    using len n1 by (simp add: solveTridiagonal_def Let_def x_def cs_def ds_def)
  have fe: "forward_elimination a b c d = (cs, ds)" by (simp add: cs_def ds_def)
  have b0: "b ! 0 \<noteq> 0"
    using pivots_nonzeroD[OF piv, of 0] len n1 by (simp add: pivot_def)
  have m: "b ! i - a ! i * cs ! (i - 1) \<noteq> 0" if "1 \<le> i" "i < n" for i
    using pivots_nonzeroD[OF piv, of i] that len by (simp add: pivot_def cs_def)
  have row: "a ! i * x ! (i - 1) + b ! i * x ! i = d ! i - c ! i * (d_star_next)" 
    if "1 \<le> i" "i < n" "x ! i = ds ! i - d_star_next * cs ! i" for i d_star_next
  proof -
    have i1: "i - 1 < n - 1" using that by simp
    have xp: "x ! (i - 1) = ds ! (i - 1) - cs ! (i - 1) * x ! i"
      using B(3)[OF i1] that(1) by simp
    define mm where "mm = b ! i - a ! i * cs ! (i - 1)"
    have mm0: "mm \<noteq> 0" using m[OF that(1,2)] by (simp add: mm_def)
    have ci: "cs ! i = c ! i / mm" and di: "ds ! i = (d ! i - a ! i * ds ! (i - 1)) / mm"
      using F(5)[OF that(1,2)] by (simp_all add: mm_def)
    have "a ! i * x ! (i - 1) + b ! i * x ! i = a ! i * ds ! (i - 1) + mm * x ! i"
      unfolding xp mm_def by (simp add: algebra_simps)
    also have "mm * x ! i = (d ! i - a ! i * ds ! (i - 1)) - d_star_next * c ! i"
      using mm0 by (simp add: that(3) ci di field_simps)
    finally show ?thesis by (simp add: algebra_simps)
  qed
  have one: "b ! 0 * x ! 0 = d ! 0" if "n = 1"
    using B(2) that F(4) b0 by simp
  have first: "b ! 0 * x ! 0 + c ! 0 * x ! 1 = d ! 0" if "2 \<le> n"
  proof -
    have "x ! 0 = ds ! 0 - cs ! 0 * x ! 1" using B(3)[of 0] that by simp
    then show ?thesis using F(3,4) b0 by (simp add: field_simps)
  qed
  have mid: "a ! i * x ! (i - 1) + b ! i * x ! i + c ! i * x ! (i + 1) = d ! i"
    if "0 < i" "i < n - 1" for i
  proof -
    have "x ! i = ds ! i - x ! (i + 1) * cs ! i" using B(3)[OF that(2)] by (simp add: mult.commute)
    from row[OF _ _ this] that show ?thesis by simp
  qed
  have last: "a ! (n - 1) * x ! (n - 2) + b ! (n - 1) * x ! (n - 1) = d ! (n - 1)" if "2 \<le> n"
  proof -
    have "x ! (n - 1) = ds ! (n - 1) - 0 * cs ! (n - 1)" using B(2) by simp
    from row[OF _ _ this] that have "a ! (n - 1) * x ! (n - 1 - 1) + b ! (n - 1) * x ! (n - 1) = d ! (n - 1)"
      by simp
    moreover have "n - 1 - 1 = n - 2" by simp
    ultimately show ?thesis by simp
  qed
  show "solveTridiagonal a b c d = Some x" by (rule sol)
  show "n = 1 \<Longrightarrow> b ! 0 * x ! 0 = d ! 0" by (rule one)
  show "2 \<le> n \<Longrightarrow> b ! 0 * x ! 0 + c ! 0 * x ! 1 = d ! 0" by (rule first)
  show "\<And>i. 0 < i \<Longrightarrow> i < n - 1 \<Longrightarrow>
        a ! i * x ! (i - 1) + b ! i * x ! i + c ! i * x ! (i + 1) = d ! i" by (rule mid)
  show "2 \<le> n \<Longrightarrow> a ! (n - 1) * x ! (n - 2) + b ! (n - 1) * x ! (n - 1) = d ! (n - 1)"
    by (rule last)
qed

text \<open>
  Claim C1. For sequences \<open>a, b, c, d\<close> of equal length \<open>n \<ge> 1\<close> with \<open>b[0]\<close> and every
  pivot \<open>m = b[i] - a[i] * c_star[i - 1]\<close> nonzero, \<open>solveTridiagonal\<close> returns a sequence
  \<open>x\<close>; the forward pass has computed \<open>c_star[i] = c[i] / m\<close> and
  \<open>d_star[i] = (d[i] - a[i] * d_star[i - 1]) / m\<close>, the backward pass
  \<open>x[n - 1] = d_star[n - 1]\<close> and \<open>x[i] = d_star[i] - c_star[i] * x[i + 1]\<close>; \<open>x\<close> has length
  \<open>n\<close> and solves the tridiagonal system: \<open>b[0] x[0] + c[0] x[1] = d[0]\<close>,
  \<open>a[i] x[i - 1] + b[i] x[i] + c[i] x[i + 1] = d[i]\<close> for \<open>0 < i < n - 1\<close> and
  \<open>a[n - 1] x[n - 2] + b[n - 1] x[n - 1] = d[n - 1]\<close>. For \<open>n = 1\<close> the system is the single
  equation \<open>b[0] x[0] = d[0]\<close>.
\<close>

theorem solveTridiagonal_solves_system:
  fixes a b c d :: "real list"
  assumes len: "length a = n" "length b = n" "length c = n" "length d = n"
    and n1: "1 \<le> n"
    and piv: "pivots_nonzero a b c d"
  shows "\<exists>x c_star d_star.
           solveTridiagonal a b c d = Some x \<and>
           forward_elimination a b c d = (c_star, d_star) \<and>
           c_star ! 0 = c ! 0 / b ! 0 \<and> d_star ! 0 = d ! 0 / b ! 0 \<and>
           (\<forall>i. 1 \<le> i \<and> i < n \<longrightarrow>
              c_star ! i = c ! i / (b ! i - a ! i * c_star ! (i - 1)) \<and>
              d_star ! i = (d ! i - a ! i * d_star ! (i - 1)) / (b ! i - a ! i * c_star ! (i - 1))) \<and>
           x ! (n - 1) = d_star ! (n - 1) \<and>
           (\<forall>i. i < n - 1 \<longrightarrow> x ! i = d_star ! i - c_star ! i * x ! (i + 1)) \<and>
           length x = n \<and>
           (n = 1 \<longrightarrow> b ! 0 * x ! 0 = d ! 0) \<and>
           (2 \<le> n \<longrightarrow>
              b ! 0 * x ! 0 + c ! 0 * x ! 1 = d ! 0 \<and>
              (\<forall>i. 0 < i \<and> i < n - 1 \<longrightarrow>
                 a ! i * x ! (i - 1) + b ! i * x ! i + c ! i * x ! (i + 1) = d ! i) \<and>
              a ! (n - 1) * x ! (n - 2) + b ! (n - 1) * x ! (n - 1) = d ! (n - 1))"
proof -
  define cs where "cs = fst (forward_elimination a b c d)"
  define ds where "ds = snd (forward_elimination a b c d)"
  define x where "x = backward_substitution cs ds n"
  have lb: "1 \<le> length b" using len n1 by simp
  note F = forward_elimination_props[where a=a and b=b and c=c and d=d, OF lb, folded cs_def ds_def, unfolded len]
  note B = backward_substitution_props[where cs=cs and ds=ds, OF n1, folded x_def]
  note R = thomas_rows[OF len n1 piv, folded cs_def ds_def, folded x_def]
  have fe: "forward_elimination a b c d = (cs, ds)" by (simp add: cs_def ds_def)
  have forward: "c_star ! 0 = c ! 0 / b ! 0 \<and> d_star ! 0 = d ! 0 / b ! 0 \<and>
           (\<forall>i. 1 \<le> i \<and> i < n \<longrightarrow>
              c_star ! i = c ! i / (b ! i - a ! i * c_star ! (i - 1)) \<and>
              d_star ! i = (d ! i - a ! i * d_star ! (i - 1)) / (b ! i - a ! i * c_star ! (i - 1)))"
    if "c_star = cs" "d_star = ds" for c_star d_star
    unfolding that using F(3,4,5) by blast
  have backward: "x ! (n - 1) = ds ! (n - 1) \<and> (\<forall>i. i < n - 1 \<longrightarrow> x ! i = ds ! i - cs ! i * x ! (i + 1))"
    using B(2,3) by blast
  have system: "(n = 1 \<longrightarrow> b ! 0 * x ! 0 = d ! 0) \<and>
           (2 \<le> n \<longrightarrow>
              b ! 0 * x ! 0 + c ! 0 * x ! 1 = d ! 0 \<and>
              (\<forall>i. 0 < i \<and> i < n - 1 \<longrightarrow>
                 a ! i * x ! (i - 1) + b ! i * x ! i + c ! i * x ! (i + 1) = d ! i) \<and>
              a ! (n - 1) * x ! (n - 2) + b ! (n - 1) * x ! (n - 1) = d ! (n - 1))"
    using R(2,3,4,5) by blast
  show ?thesis
    apply (rule exI[of _ x], rule exI[of _ cs], rule exI[of _ ds])
    using R(1) fe forward[OF refl refl] backward B(1) system by blast
qed

theorem solveTridiagonal_solves_system_witness:
  "length [0, 1, 1 :: real] = 3 \<and> length [2, 3, 4 :: real] = 3 \<and> length [1, 1, 0 :: real] = 3 \<and>
   length [4, 10, 14 :: real] = 3 \<and> (1::nat) \<le> 3 \<and>
   pivots_nonzero [0, 1, 1] [2, 3, 4] [1, 1, 0] [4, 10, 14] \<and>
   solveTridiagonal [0, 1, 1 :: real] [2, 3, 4] [1, 1, 0] [4, 10, 14] = Some [1, 2, 3] \<and>
   (\<exists>x. solveTridiagonal [0, 1, 1 :: real] [2, 3, 4] [1, 1, 0] [4, 10, 14] = Some x \<and> length x = 3 \<and>
        2 * x ! 0 + 1 * x ! 1 = 4 \<and> 1 * x ! 0 + 3 * x ! 1 + 1 * x ! 2 = 10 \<and>
        1 * x ! 1 + 4 * x ! 2 = 14)"
proof -
  have up: "[1..<3] = [1, 2]" "[0..<3] = [0, 1, 2]" "[0..<2] = [0, 1]"
    by (simp_all add: upt_conv_Cons)
  have fe: "forward_elimination [0, 1, 1 :: real] [2, 3, 4] [1, 1, 0] [4, 10, 14] = ([1/2, 2/5, 0], [2, 16/5, 3])"
    by (simp add: forward_elimination_def forward_step_def Let_def up)
  have piv: "pivots_nonzero [0, 1, 1] [2, 3, 4] [1, 1, 0] [4, 10, 14]"
    by (simp add: pivots_nonzero_def pivot_def fe up)
  have sol: "solveTridiagonal [0, 1, 1 :: real] [2, 3, 4] [1, 1, 0] [4, 10, 14] = Some [1, 2, 3]"
    by (simp add: solveTridiagonal_def fe backward_substitution_def backward_step_def up)
  have l: "length [0, 1, 1 :: real] = 3" "length [2, 3, 4 :: real] = 3" "length [1, 1, 0 :: real] = 3"
    "length [4, 10, 14 :: real] = 3" "(1::nat) \<le> 3" by simp_all
  from solveTridiagonal_solves_system[OF l piv]
  obtain x where H: "solveTridiagonal [0, 1, 1 :: real] [2, 3, 4] [1, 1, 0] [4, 10, 14] = Some x"
    "length x = 3"
    "2 \<le> (3::nat) \<longrightarrow>
       [2, 3, 4] ! 0 * x ! 0 + [1, 1, 0] ! 0 * x ! 1 = [4, 10, 14] ! 0 \<and>
       (\<forall>i. 0 < i \<and> i < 3 - 1 \<longrightarrow>
          [0, 1, 1] ! i * x ! (i - 1) + [2, 3, 4] ! i * x ! i + [1, 1, 0] ! i * x ! (i + 1) = [4, 10, 14] ! i) \<and>
       [0, 1, 1] ! (3 - 1) * x ! (3 - 2) + [2, 3, 4] ! (3 - 1) * x ! (3 - 1) = [4, 10, 14] ! (3 - 1)"
    by blast
  from H(3) have r0: "2 * x ! 0 + 1 * x ! 1 = 4" and r2: "1 * x ! 1 + 4 * x ! 2 = 14"
    by simp_all
  from H(3) have "[0, 1, 1] ! 1 * x ! (1 - 1) + [2, 3, 4] ! 1 * x ! 1 + [1, 1, 0] ! 1 * x ! (1 + 1) = [4, 10, 14] ! 1"
    by simp
  then have r1: "1 * x ! 0 + 3 * x ! 1 + 1 * x ! 2 = 10" by (simp add: numeral_2_eq_2)
  have "\<exists>x. solveTridiagonal [0, 1, 1 :: real] [2, 3, 4] [1, 1, 0] [4, 10, 14] = Some x \<and> length x = 3 \<and>
        2 * x ! 0 + 1 * x ! 1 = 4 \<and> 1 * x ! 0 + 3 * x ! 1 + 1 * x ! 2 = 10 \<and>
        1 * x ! 1 + 4 * x ! 2 = 14"
    using H(1,2) r0 r1 r2 by blast
  then show ?thesis using piv sol by auto
qed

section \<open>Properties of the arithmetic with special values\<close>

text \<open>
  The comparison of doubles is transitive and irreflexive, and total on the values other than
  NaN; NaN propagates through the four operations; on numbers the operations are those of
  the reals, up to the division by zero; within their ranges the property functions on
  doubles return the values of those on the reals.
\<close>

lemma less_double_trans: "a < b \<Longrightarrow> b < c \<Longrightarrow> a < (c::double)"
  by (cases a; cases b; cases c) simp_all

lemma less_double_irrefl: "\<not> a < (a::double)"
  by (cases a) simp_all

lemma less_double_total: "a \<noteq> NaN \<Longrightarrow> b \<noteq> NaN \<Longrightarrow> a < b \<or> a = b \<or> b < (a::double)"
  by (cases a; cases b) auto

lemma less_double_not_NaN: "a < b \<Longrightarrow> a \<noteq> NaN \<and> b \<noteq> (NaN::double)"
  by (cases a; cases b) simp_all

lemma abs_double_nonneg: "\<bar>a\<bar> \<noteq> NaN \<Longrightarrow> \<not> \<bar>a\<bar> < Finite 0"
  by (cases a) simp_all

lemma NaN_arith [simp]:
  "NaN - a = NaN" "a - NaN = NaN" "NaN + a = NaN" "a + NaN = NaN"
  "NaN * a = NaN" "a * NaN = NaN" "NaN / a = NaN" "a / NaN = NaN"
  by (cases a; simp add: minus_double_def)+

lemma std_max_props:
  "m \<noteq> NaN \<Longrightarrow> std_max m c \<noteq> NaN"
  "\<not> std_max m c < c"
  "std_max m c = m \<or> std_max m c = c"
  "\<not> m < x \<Longrightarrow> \<not> std_max m c < x"
proof -
  show "m \<noteq> NaN \<Longrightarrow> std_max m c \<noteq> NaN"
    using less_double_not_NaN[of m c] by (auto simp: std_max_def)
  show "\<not> std_max m c < c" by (simp add: std_max_def less_double_irrefl)
  show "std_max m c = m \<or> std_max m c = c" by (simp add: std_max_def)
  show "\<not> m < x \<Longrightarrow> \<not> std_max m c < x"
  proof (cases "m < c")
    case False
    assume "\<not> m < x"
    then show ?thesis using False by (simp add: std_max_def)
  next
    case True
    assume nx: "\<not> m < x"
    have "\<not> c < x"
    proof
      assume "c < x"
      from less_double_trans[OF True this] nx show False by simp
    qed
    then show ?thesis using True by (simp add: std_max_def)
  qed
qed

lemma Finite_arith [simp]:
  "Finite a - Finite b = Finite (a - b)"
  "b \<noteq> 0 \<Longrightarrow> Finite a / Finite b = Finite (a / b)"
  "std_max (Finite a) (Finite b) = Finite (max a b)"
  by (auto simp: minus_double_def std_max_def max_def)

lemma property_NaN: "rho_double NaN = NaN" "mu_double NaN = NaN"
  by (simp_all add: rho_double_def mu_double_def std_pow_def std_exp_def std_log_def)

lemma property_values_double:
  "t \<le> Tcrit \<Longrightarrow> rho_double (Finite t) = Finite (rho t)"
  "0 < t \<Longrightarrow> mu_double (Finite t) = Finite (mu t)"
proof -
  assume "t \<le> Tcrit"
  then have "\<not> 1 - t / Tcrit < 0" by (simp add: Tcrit_def)
  moreover have "Tcrit \<noteq> 0" by (simp add: Tcrit_def)
  ultimately show "rho_double (Finite t) = Finite (rho t)"
    by (simp add: rho_double_def rho_def liquid_sodium_rho_def std_pow_def minus_double_def)
next
  assume "0 < t"
  then show "mu_double (Finite t) = Finite (mu t)"
    by (simp add: mu_double_def mu_def liquid_sodium_mu_def std_exp_def std_log_def minus_double_def)
qed

section \<open>Sizes, initial state and the pressure corrector\<close>

lemma source_step_length: "length (source_step cfg a b m i S) = length S"
  by (simp add: source_step_def)

lemma fold_source_step_length: "length (fold (source_step cfg a b m) is S) = length S"
  by (induction "is" arbitrary: S) (simp_all add: source_step_length)

lemma length_Sm_init: "length (Sm_init cfg) = N cfg"
  by (simp add: Sm_init_def Let_def fold_source_step_length)

lemma length_St_init: "length (St_init cfg) = N cfg"
  by (simp add: St_init_def Let_def fold_source_step_length)

lemma well_sized_init: "1 \<le> N cfg \<Longrightarrow> well_sized cfg (init cfg)"
  by (simp add: well_sized_def init_def length_Sm_init length_St_init)

lemma pressure_fold_inv:
  assumes "k \<le> n" "length (p s) = n" "length (p_storage s) = n + 2"
  defines "r \<equiv> fold pressure_cell [0..<k] s"
  shows "length (p r) = n \<and> length (p_storage r) = n + 2 \<and> p_prime r = p_prime s \<and>
         (\<forall>i<k. p r ! i = p s ! i + p_prime s ! i \<and> p_storage r ! (i + 1) = p r ! i) \<and>
         (\<forall>i. k \<le> i \<longrightarrow> p r ! i = p s ! i)"
  using assms(1) unfolding r_def
proof (induction k)
  case 0
  then show ?case using assms(2,3) by simp
next
  case (Suc k)
  define r where "r = fold pressure_cell [0..<k] s"
  have IH: "length (p r) = n" "length (p_storage r) = n + 2" "p_prime r = p_prime s"
    "\<And>i. i < k \<Longrightarrow> p r ! i = p s ! i + p_prime s ! i \<and> p_storage r ! (i + 1) = p r ! i"
    "\<And>i. k \<le> i \<Longrightarrow> p r ! i = p s ! i"
    using Suc unfolding r_def by auto
  have kn: "k < n" using Suc.prems by simp
  have eq: "fold pressure_cell [0..<Suc k] s = pressure_cell k r"
    unfolding r_def by simp
  define v where "v = p s ! k + p_prime s ! k"
  have pk: "p r ! k = p s ! k" using IH(5)[of k] by simp
  have pc: "pressure_cell k r = r\<lparr>p := (p r)[k := v], p_storage := (p_storage r)[k + 1 := v]\<rparr>"
    using IH(1,3) pk kn by (simp add: pressure_cell_def Let_def v_def)
  have a: "length (p (pressure_cell k r)) = n" "length (p_storage (pressure_cell k r)) = n + 2"
    "p_prime (pressure_cell k r) = p_prime s"
    unfolding pc using IH(1,2,3) by simp_all
  have b: "p (pressure_cell k r) ! i = p s ! i + p_prime s ! i \<and>
           p_storage (pressure_cell k r) ! (i + 1) = p (pressure_cell k r) ! i" if "i < Suc k" for i
  proof (cases "i = k")
    case True
    then show ?thesis unfolding pc using IH(1,2) kn by (simp add: v_def)
  next
    case False
    then have "i < k" using that by simp
    from IH(4)[OF this] show ?thesis unfolding pc using False by simp
  qed
  have c: "p (pressure_cell k r) ! i = p s ! i" if "Suc k \<le> i" for i
    unfolding pc using IH(5)[of i] that by simp
  show ?case unfolding eq using a b c by blast
qed

lemma pressure_corrector_ghost:
  assumes "well_sized cfg s"
  defines "r \<equiv> pressure_corrector cfg s"
  shows "length (p r) = N cfg" "length (p_storage r) = N cfg + 2"
    "\<And>i. i < N cfg \<Longrightarrow> p r ! i = p s ! i + p_prime s ! i"
    "\<And>i. i < N cfg \<Longrightarrow> p_storage r ! (i + 1) = p r ! i"
    "p_storage r ! 0 = p r ! 0"
    "p_storage r ! (N cfg + 1) = p_outlet cfg"
proof -
  define s1 where "s1 = fold pressure_cell [0..<N cfg] s"
  have ls: "length (p s) = N cfg" "length (p_storage s) = N cfg + 2" "1 \<le> N cfg"
    using assms(1) by (simp_all add: well_sized_def)
  note inv = pressure_fold_inv[OF order_refl ls(1,2), folded s1_def]
  have r: "r = s1\<lparr>p_storage := (p_storage s1)[0 := p_storage s1 ! 1, N cfg + 1 := p_outlet cfg],
                   stage_log := stage_log s1 @ [Pressure_corrector]\<rparr>"
    by (simp add: r_def pressure_corrector_def Let_def s1_def)
  have pr: "p r = p s1" by (simp add: r)
  show "length (p r) = N cfg" "length (p_storage r) = N cfg + 2" using inv by (simp_all add: r)
  show "\<And>i. i < N cfg \<Longrightarrow> p r ! i = p s ! i + p_prime s ! i" using inv by (simp add: r)
  show "\<And>i. i < N cfg \<Longrightarrow> p_storage r ! (i + 1) = p r ! i" using inv by (simp add: r)
  have "p_storage s1 ! 1 = p s1 ! 0" using inv ls(3) by (metis One_nat_def Suc_le_lessD add.commute add.right_neutral plus_1_eq_Suc)
  then show "p_storage r ! 0 = p r ! 0" using inv by (simp add: r)
  show "p_storage r ! (N cfg + 1) = p_outlet cfg" using inv by (simp add: r)
qed

section \<open>The source terms\<close>

lemma fold_source_step_nth:
  assumes "j < length S"
  shows "fold (source_step cfg a b m) [lo..<hi] S ! j =
           (if lo \<le> j \<and> j < hi \<and> 0 < j \<and> real j \<le> a then m
            else if lo \<le> j \<and> j < hi \<and> real (N cfg) - b \<le> real j \<and> j < N cfg - 1 then - m
            else S ! j)"
proof (induction hi)
  case 0
  then show ?case by simp
next
  case (Suc hi)
  show ?case
  proof (cases "lo \<le> hi")
    case False
    then show ?thesis by simp
  next
    case True
    define R where "R = fold (source_step cfg a b m) [lo..<hi] S"
    have len: "j < length R" using assms by (simp add: R_def fold_source_step_length)
    have eq: "fold (source_step cfg a b m) [lo..<Suc hi] S = source_step cfg a b m hi R"
      using True by (simp add: R_def)
    show ?thesis
    proof (cases "j = hi")
      case jh: True
      have "R ! j = S ! j" using Suc.IH jh by (simp add: R_def)
      then show ?thesis unfolding eq using len jh True by (auto simp: source_step_def)
    next
      case jh: False
      have "source_step cfg a b m hi R ! j = R ! j"
        using jh by (simp add: source_step_def)
      then show ?thesis unfolding eq using Suc.IH jh by (auto simp: R_def)
    qed
  qed
qed

lemma zone_nodes_fifth: "zone_nodes cfg 0.2 = real (N cfg div 5)"
proof -
  have "\<lfloor>real (N cfg) * 0.2\<rfloor> = \<lfloor>real (N cfg) / real 5\<rfloor>" by simp
  also have "\<dots> = int (N cfg div 5)" by (simp only: floor_divide_of_nat_eq)
  finally show ?thesis by (simp add: zone_nodes_def)
qed

lemma Sm_init_nth:
  assumes "mass_source_zone cfg = 0.2" "mass_sink_zone cfg = 0.2" "i < N cfg"
  shows "Sm_init cfg ! i =
           (if 1 \<le> i \<and> i \<le> N cfg div 5 \<and> i < N cfg - 1 then 1
            else if N cfg - N cfg div 5 \<le> i \<and> 1 \<le> i \<and> i < N cfg - 1 then - 1 else 0)"
proof -
  have le: "N cfg div 5 \<le> N cfg" by simp
  have c: "real (N cfg) - real (N cfg div 5) \<le> real i \<longleftrightarrow> N cfg - N cfg div 5 \<le> i"
    using le by linarith
  have z: "zone_nodes cfg (mass_source_zone cfg) = real (N cfg div 5)"
    "zone_nodes cfg (mass_sink_zone cfg) = real (N cfg div 5)"
    using zone_nodes_fifth[of cfg] by (simp_all only: assms(1,2))
  have "Sm_init cfg ! i =
          fold (source_step cfg (real (N cfg div 5)) (real (N cfg div 5)) 1) [1..<N cfg - 1]
            (replicate (N cfg) 0) ! i"
    unfolding Sm_init_def Let_def z by simp
  also have "\<dots> = (if 1 \<le> i \<and> i < N cfg - 1 \<and> 0 < i \<and> real i \<le> real (N cfg div 5) then 1
            else if 1 \<le> i \<and> i < N cfg - 1 \<and> real (N cfg) - real (N cfg div 5) \<le> real i \<and> i < N cfg - 1 then - 1
            else replicate (N cfg) 0 ! i)"
    by (rule fold_source_step_nth) (simp add: assms(3))
  also have "\<dots> = (if 1 \<le> i \<and> i \<le> N cfg div 5 \<and> i < N cfg - 1 then 1
            else if N cfg - N cfg div 5 \<le> i \<and> 1 \<le> i \<and> i < N cfg - 1 then - 1 else 0)"
    unfolding c using assms(3) by auto
  finally show ?thesis .
qed

lemma floor_fifth: "nat \<lfloor>real n * 0.2\<rfloor> = n div 5"
proof -
  have "\<lfloor>real n * 0.2\<rfloor> = \<lfloor>real n / real 5\<rfloor>" by simp
  also have "\<dots> = int (n div 5)" by (simp only: floor_divide_of_nat_eq)
  finally show ?thesis by simp
qed

lemma Sm_init_sum:
  assumes z: "mass_source_zone cfg = 0.2" "mass_sink_zone cfg = 0.2" and n5: "5 \<le> N cfg"
  shows "{i. i < N cfg \<and> Sm_init cfg ! i = 1} = {1..N cfg div 5}"
    "{i. i < N cfg \<and> Sm_init cfg ! i = - 1} = {N cfg - N cfg div 5..<N cfg - 1}"
    "sum_list (Sm_init cfg) = 1"
proof -
  define n where "n = N cfg"
  define k where "k = n div 5"
  have k: "1 \<le> k" "k + 1 < n - k" "k \<le> n - 2" using n5 by (auto simp: k_def n_def)
  have nth: "Sm_init cfg ! i = (if i \<in> {1..k} then 1 else if i \<in> {n - k..<n - 1} then - 1 else 0)"
    if "i < n" for i
    using Sm_init_nth[OF z, of i] that k by (auto simp: n_def k_def)
  have A: "{i. i < n \<and> Sm_init cfg ! i = 1} = {1..k}"
    using nth k by (auto split: if_splits)
  have B: "{i. i < n \<and> Sm_init cfg ! i = - 1} = {n - k..<n - 1}"
    using nth k by (auto split: if_splits)
  show "{i. i < N cfg \<and> Sm_init cfg ! i = 1} = {1..N cfg div 5}"
    using A by (simp add: n_def k_def)
  show "{i. i < N cfg \<and> Sm_init cfg ! i = - 1} = {N cfg - N cfg div 5..<N cfg - 1}"
    using B by (simp add: n_def k_def)
  have "sum_list (Sm_init cfg) = (\<Sum>i = 0..<n. Sm_init cfg ! i)"
    by (simp add: sum_list_sum_nth length_Sm_init n_def)
  also have "\<dots> = (\<Sum>i = 0..<n. (if i \<in> {1..k} then 1 else if i \<in> {n - k..<n - 1} then - 1 else 0))"
    by (rule sum.cong) (simp_all add: nth)
  also have "\<dots> = (\<Sum>i \<in> {1..k}. 1) + (\<Sum>i \<in> {n - k..<n - 1}. - 1)"
  proof -
    have s1: "{0..<n} \<inter> {i. i \<in> {1..k}} = {1..k}" using k by auto
    have s2: "({0..<n} \<inter> - {i. i \<in> {1..k}}) \<inter> {i. i \<in> {n - k..<n - 1}} = {n - k..<n - 1}"
      using k by auto
    have "(\<Sum>i = 0..<n. (if i \<in> {1..k} then 1 else if i \<in> {n - k..<n - 1} then - 1 else (0::real)))
        = (\<Sum>i \<in> {0..<n} \<inter> {i. i \<in> {1..k}}. 1) +
          (\<Sum>i \<in> {0..<n} \<inter> - {i. i \<in> {1..k}}. if i \<in> {n - k..<n - 1} then - 1 else 0)"
      by (rule sum.If_cases) simp
    also have "(\<Sum>i \<in> {0..<n} \<inter> - {i. i \<in> {1..k}}. if i \<in> {n - k..<n - 1} then - 1 else (0::real))
        = (\<Sum>i \<in> ({0..<n} \<inter> - {i. i \<in> {1..k}}) \<inter> {i. i \<in> {n - k..<n - 1}}. - 1) +
          (\<Sum>i \<in> ({0..<n} \<inter> - {i. i \<in> {1..k}}) \<inter> - {i. i \<in> {n - k..<n - 1}}. 0)"
      by (rule sum.If_cases) simp
    finally show ?thesis unfolding s1 s2 by simp
  qed
  also have "\<dots> = real k - real (k - 1)" using k by simp
  also have "\<dots> = 1" using k by simp
  finally show "sum_list (Sm_init cfg) = 1" .
qed

text \<open>
  Claim C10. After initialization with \<open>mass_source_zone = mass_sink_zone = 0.2\<close> (and at least
  five cells), \<open>Sm[i] = +1.0\<close> for \<open>1 \<le> i \<le> floor(0.2 N)\<close>, which are \<open>floor(0.2 N)\<close> cells;
  \<open>Sm[i] = -1.0\<close> for \<open>N - floor(0.2 N) \<le> i \<le> N - 2\<close>, which are \<open>floor(0.2 N) - 1\<close> cells;
  \<open>Sm[i] = 0\<close> for every other cell; and the sum of \<open>Sm\<close> over the \<open>N\<close> cells is \<open>+1.0\<close>: the
  source and the sink zone do not balance.
\<close>

theorem Sm_initialization:
  assumes "mass_source_zone cfg = 0.2" "mass_sink_zone cfg = 0.2" "5 \<le> N cfg"
  shows "length (Sm (init cfg)) = N cfg \<and>
         (\<forall>i. 1 \<le> i \<and> i \<le> nat \<lfloor>real (N cfg) * 0.2\<rfloor> \<longrightarrow> Sm (init cfg) ! i = 1.0) \<and>
         card {i. i < N cfg \<and> Sm (init cfg) ! i = 1.0} = nat \<lfloor>real (N cfg) * 0.2\<rfloor> \<and>
         (\<forall>i. N cfg - nat \<lfloor>real (N cfg) * 0.2\<rfloor> \<le> i \<and> i \<le> N cfg - 2 \<longrightarrow>
              Sm (init cfg) ! i = - 1.0) \<and>
         card {i. i < N cfg \<and> Sm (init cfg) ! i = - 1.0} = nat \<lfloor>real (N cfg) * 0.2\<rfloor> - 1 \<and>
         (\<forall>i < N cfg. \<not> (1 \<le> i \<and> i \<le> nat \<lfloor>real (N cfg) * 0.2\<rfloor>) \<and>
              \<not> (N cfg - nat \<lfloor>real (N cfg) * 0.2\<rfloor> \<le> i \<and> i \<le> N cfg - 2) \<longrightarrow>
              Sm (init cfg) ! i = 0) \<and>
         sum_list (Sm (init cfg)) = 1.0"
proof -
  have S: "Sm (init cfg) = Sm_init cfg" by (simp add: init_def)
  have k: "1 \<le> N cfg div 5" "N cfg div 5 \<le> N cfg - 2" using assms(3) by auto
  note nth = Sm_init_nth[OF assms(1,2)]
  note sets = Sm_init_sum[OF assms]
  have a: "Sm_init cfg ! i = 1" if "1 \<le> i \<and> i \<le> N cfg div 5" for i
    using nth[of i] that k by auto
  have b: "Sm_init cfg ! i = - 1" if "N cfg - N cfg div 5 \<le> i \<and> i \<le> N cfg - 2" for i
    using nth[of i] that k assms(3) by auto
  have c: "Sm_init cfg ! i = 0"
    if "i < N cfg" "\<not> (1 \<le> i \<and> i \<le> N cfg div 5) \<and> \<not> (N cfg - N cfg div 5 \<le> i \<and> i \<le> N cfg - 2)" for i
    using nth[of i] that k assms(3) by auto
  have ca: "card {i. i < N cfg \<and> Sm_init cfg ! i = 1} = N cfg div 5"
    unfolding sets(1) by simp
  have cb: "card {i. i < N cfg \<and> Sm_init cfg ! i = - 1} = N cfg div 5 - 1"
    unfolding sets(2) using k assms(3) by auto
  show ?thesis
    unfolding S floor_fifth using a b c ca cb sets(3) length_Sm_init[of cfg] by simp
qed

theorem Sm_initialization_witness:
  "mass_source_zone Part_000_config = 0.2 \<and> mass_sink_zone Part_000_config = 0.2 \<and>
   5 \<le> N Part_000_config \<and> N Part_000_config = 100 \<and>
   nat \<lfloor>real (N Part_000_config) * 0.2\<rfloor> = 20 \<and>
   length (Sm (init Part_000_config)) = 100 \<and>
   Sm (init Part_000_config) ! 1 = 1 \<and> Sm (init Part_000_config) ! 20 = 1 \<and>
   Sm (init Part_000_config) ! 21 = 0 \<and> Sm (init Part_000_config) ! 79 = 0 \<and>
   Sm (init Part_000_config) ! 80 = - 1 \<and> Sm (init Part_000_config) ! 98 = - 1 \<and>
   Sm (init Part_000_config) ! 99 = 0 \<and> Sm (init Part_000_config) ! 0 = 0 \<and>
   card {i. i < 100 \<and> Sm (init Part_000_config) ! i = 1} = 20 \<and>
   card {i. i < 100 \<and> Sm (init Part_000_config) ! i = - 1} = 19 \<and>
   sum_list (Sm (init Part_000_config)) = 1"
proof -
  have h: "mass_source_zone Part_000_config = 0.2" "mass_sink_zone Part_000_config = 0.2"
    "5 \<le> N Part_000_config"
    by (simp_all add: Part_000_config_def)
  have n: "N Part_000_config = 100" by (simp add: Part_000_config_def)
  have k: "nat \<lfloor>real (N Part_000_config) * 0.2\<rfloor> = 20" by (simp add: n)
  note T = Sm_initialization[OF h, unfolded k, unfolded n]
  from T have "Sm (init Part_000_config) ! 1 = 1" "Sm (init Part_000_config) ! 20 = 1"
    "Sm (init Part_000_config) ! 80 = - 1" "Sm (init Part_000_config) ! 98 = - 1"
    "Sm (init Part_000_config) ! 21 = 0" "Sm (init Part_000_config) ! 79 = 0"
    "Sm (init Part_000_config) ! 99 = 0" "Sm (init Part_000_config) ! 0 = 0"
    by simp_all
  then show ?thesis using T h n k by simp
qed

section \<open>The ghost-padded pressure buffer and the property functions\<close>

text \<open>
  Claim C5. Immediately after a pressure update the ghost-padded buffer agrees with the
  pressure field, \<open>p_storage[i + 1] = p[i]\<close> for every cell \<open>0 \<le> i \<le> N - 1\<close>; the inlet ghost
  \<open>p_storage[0]\<close> equals the first interior value \<open>p[0]\<close>; and the outlet ghost
  \<open>p_storage[N + 1]\<close> equals the configured outlet pressure.
\<close>

theorem pressure_corrector_ghost_buffer:
  assumes "well_sized cfg s"
  shows "(\<forall>i<N cfg. p_storage (pressure_corrector cfg s) ! (i + 1) = p (pressure_corrector cfg s) ! i) \<and>
         p_storage (pressure_corrector cfg s) ! 0 = p (pressure_corrector cfg s) ! 0 \<and>
         p_storage (pressure_corrector cfg s) ! (N cfg + 1) = p_outlet cfg"
  using pressure_corrector_ghost[OF assms] by simp

theorem pressure_corrector_ghost_buffer_witness:
  "well_sized Part_000_config (init Part_000_config) \<and>
   p_storage (pressure_corrector Part_000_config (init Part_000_config)) ! 1 =
     p (pressure_corrector Part_000_config (init Part_000_config)) ! 0 \<and>
   p_storage (pressure_corrector Part_000_config (init Part_000_config)) ! 100 =
     p (pressure_corrector Part_000_config (init Part_000_config)) ! 99 \<and>
   p_storage (pressure_corrector Part_000_config (init Part_000_config)) ! 0 =
     p (pressure_corrector Part_000_config (init Part_000_config)) ! 0 \<and>
   p_storage (pressure_corrector Part_000_config (init Part_000_config)) ! 101 = 50000"
proof -
  have n: "N Part_000_config = 100" and po: "p_outlet Part_000_config = 50000"
    by (simp_all add: Part_000_config_def)
  have w: "well_sized Part_000_config (init Part_000_config)"
    by (rule well_sized_init) (simp add: n)
  note G = pressure_corrector_ghost_buffer[OF w, unfolded n po]
  have a: "p_storage (pressure_corrector Part_000_config (init Part_000_config)) ! (i + 1) =
     p (pressure_corrector Part_000_config (init Part_000_config)) ! i" if "i < 100" for i
    using G that by blast
  have "p_storage (pressure_corrector Part_000_config (init Part_000_config)) ! 1 =
     p (pressure_corrector Part_000_config (init Part_000_config)) ! 0"
    "p_storage (pressure_corrector Part_000_config (init Part_000_config)) ! 100 =
     p (pressure_corrector Part_000_config (init Part_000_config)) ! 99"
    using a[of 0] a[of 99] by simp_all
  then show ?thesis using G w by simp
qed

text \<open>
  Claim C7, as amended. Each of the four property functions of the namespace
  \<open>liquid_sodium\<close> of \<^verbatim>\<open>PISO.cpp\<close> emits the below-solidification warning if and only if its
  argument is strictly below 370.87 K, emits nothing at or above it, and returns the value
  of its correlation formula in every case. The property functions of the second PISO file
  and of the SIMPLEC program never emit anything and return the same values.
\<close>

theorem property_warnings:
  "(fst (liquid_sodium_rho x) = warning x \<longleftrightarrow> x < 370.87) \<and>
   (fst (liquid_sodium_rho x) = [] \<longleftrightarrow> 370.87 \<le> x) \<and>
   snd (liquid_sodium_rho x) =
     219.0 + 275.32 * (1.0 - x / 2509.46) + 511.58 * (1.0 - x / 2509.46) powr 0.5 \<and>
   (fst (liquid_sodium_k x) = warning x \<longleftrightarrow> x < 370.87) \<and>
   (fst (liquid_sodium_k x) = [] \<longleftrightarrow> 370.87 \<le> x) \<and>
   snd (liquid_sodium_k x) =
     124.67 - 0.11381 * x + 0.000055226 * x * x - 0.000000011842 * x * x * x \<and>
   (fst (liquid_sodium_cp x) = warning x \<longleftrightarrow> x < 370.87) \<and>
   (fst (liquid_sodium_cp x) = [] \<longleftrightarrow> 370.87 \<le> x) \<and>
   snd (liquid_sodium_cp x) =
     1436.72 - 0.58 * (x - 273.15) + 0.0004627 * (x - 273.15) * (x - 273.15) \<and>
   (fst (liquid_sodium_mu x) = warning x \<longleftrightarrow> x < 370.87) \<and>
   (fst (liquid_sodium_mu x) = [] \<longleftrightarrow> 370.87 \<le> x) \<and>
   snd (liquid_sodium_mu x) = exp (- 6.4406 - 0.3958 * ln x + 556.835 / x) \<and>
   part_000_rho x = ([], snd (liquid_sodium_rho x)) \<and>
   part_000_k x = ([], snd (liquid_sodium_k x)) \<and>
   part_000_cp x = ([], snd (liquid_sodium_cp x)) \<and>
   part_000_mu x = ([], snd (liquid_sodium_mu x)) \<and>
   rho_Na_l x = ([], snd (liquid_sodium_rho x)) \<and>
   k_Na_l x = ([], snd (liquid_sodium_k x)) \<and>
   Cp_Na_l x = ([], snd (liquid_sodium_cp x)) \<and>
   mu_Na x = ([], snd (liquid_sodium_mu x))"
proof -
  have w: "warning x \<noteq> []" by (simp add: warning_def)
  have a: "(fst (liquid_sodium_rho x) = warning x \<longleftrightarrow> x < 370.87) \<and>
           (fst (liquid_sodium_rho x) = [] \<longleftrightarrow> 370.87 \<le> x)"
    using w by (auto simp: liquid_sodium_rho_def Tsolid_def)
  have b: "(fst (liquid_sodium_k x) = warning x \<longleftrightarrow> x < 370.87) \<and>
           (fst (liquid_sodium_k x) = [] \<longleftrightarrow> 370.87 \<le> x)"
    using w by (auto simp: liquid_sodium_k_def Tsolid_def)
  have c: "(fst (liquid_sodium_cp x) = warning x \<longleftrightarrow> x < 370.87) \<and>
           (fst (liquid_sodium_cp x) = [] \<longleftrightarrow> 370.87 \<le> x)"
    using w by (auto simp: liquid_sodium_cp_def Tsolid_def)
  have d: "(fst (liquid_sodium_mu x) = warning x \<longleftrightarrow> x < 370.87) \<and>
           (fst (liquid_sodium_mu x) = [] \<longleftrightarrow> 370.87 \<le> x)"
    using w by (auto simp: liquid_sodium_mu_def Tsolid_def)
  have v: "snd (liquid_sodium_rho x) =
     219.0 + 275.32 * (1.0 - x / 2509.46) + 511.58 * (1.0 - x / 2509.46) powr 0.5"
    "snd (liquid_sodium_k x) =
     124.67 - 0.11381 * x + 0.000055226 * x * x - 0.000000011842 * x * x * x"
    "snd (liquid_sodium_cp x) =
     1436.72 - 0.58 * (x - 273.15) + 0.0004627 * (x - 273.15) * (x - 273.15)"
    "snd (liquid_sodium_mu x) = exp (- 6.4406 - 0.3958 * ln x + 556.835 / x)"
    by (simp_all add: liquid_sodium_rho_def liquid_sodium_k_def liquid_sodium_cp_def
        liquid_sodium_mu_def Tcrit_def Let_def)
  have e: "part_000_rho x = ([], snd (liquid_sodium_rho x))"
    "part_000_k x = ([], snd (liquid_sodium_k x))"
    "part_000_cp x = ([], snd (liquid_sodium_cp x))"
    "part_000_mu x = ([], snd (liquid_sodium_mu x))"
    by (simp_all add: part_000_rho_def part_000_k_def part_000_cp_def part_000_mu_def
        liquid_sodium_rho_def liquid_sodium_k_def liquid_sodium_cp_def liquid_sodium_mu_def)
  have f: "rho_Na_l x = ([], snd (liquid_sodium_rho x))"
    "k_Na_l x = ([], snd (liquid_sodium_k x))"
    "Cp_Na_l x = ([], snd (liquid_sodium_cp x))"
    "mu_Na x = ([], snd (liquid_sodium_mu x))"
    by (simp_all add: rho_Na_l_def k_Na_l_def Cp_Na_l_def mu_Na_def T_Na_crit_def Tcrit_def
        liquid_sodium_rho_def liquid_sodium_k_def liquid_sodium_cp_def liquid_sodium_mu_def)
  show ?thesis using a b c d v e f by blast
qed

text \<open>
  The claim as stated, for each fluid property function, fails: the density function of the
  second PISO file at 200 K (its initial temperature) and the density function of the
  SIMPLEC program at 300 K (its initial temperature) are called below 370.87 K and emit no
  warning.
\<close>

theorem property_warnings_counterexample:
  "(200::real) < 370.87 \<and> fst (part_000_rho 200) = [] \<and> fst (part_000_rho 200) \<noteq> warning 200 \<and>
   (300::real) < 370.87 \<and> fst (rho_Na_l 300) = [] \<and> fst (rho_Na_l 300) \<noteq> warning 300"
  by (simp add: part_000_rho_def rho_Na_l_def warning_def Let_def)

section \<open>Sizes and frames of the stages\<close>

lemma fold_keeps:
  assumes "\<And>i s. g (f i s) = g s"
  shows "g (fold f js s) = g s"
  by (induction js arbitrary: s) (simp_all add: assms)

lemma fold_invariant:
  assumes "\<And>i s. P s \<Longrightarrow> P (f i s)" "P s"
  shows "P (fold f js s)"
  using assms(2) by (induction js arbitrary: s) (simp_all add: assms(1))

lemma solveTridiagonal_Some:
  fixes a b c d :: "('a :: {zero, minus, times, inverse}) list"
  assumes "1 \<le> length b" "length a = length b" "length c = length b" "length d = length b"
  shows "\<exists>x. solveTridiagonal a b c d = Some x \<and> length x = length b"
proof -
  have "solveTridiagonal a b c d =
          Some (backward_substitution (fst (forward_elimination a b c d))
                  (snd (forward_elimination a b c d)) (length b))"
  proof -
    have "b \<noteq> []" using assms(1) by auto
    then show ?thesis using assms(2-4) by (simp add: solveTridiagonal_def Let_def)
  qed
  then show ?thesis
    using backward_substitution_props(1)[OF assms(1)] by simp
qed

lemma sized4_solve:
  assumes "sized4 n (a, b, c, d)" "1 \<le> n"
  shows "\<exists>x. solveTridiagonal a b c d = Some x \<and> length x = n"
  using solveTridiagonal_Some[of b a c d] assms by (simp add: sized4_def)

lemma continuity_cell_sized: "sized4 n sys \<Longrightarrow> sized4 n (continuity_cell cfg s i sys)"
  by (cases sys; cases "source cfg") (simp_all add: continuity_cell_def sized4_def Let_def)

lemma temperature_cell_sized: "sized4 n sys \<Longrightarrow> sized4 n (temperature_cell cfg s i sys)"
  by (cases sys; cases "source cfg") (simp_all add: temperature_cell_def sized4_def Let_def)

lemma continuity_system_sized: "sized4 (N cfg) (continuity_system cfg s)"
proof -
  have "sized4 (N cfg) (fold (continuity_cell cfg s) [1..<N cfg - 1]
     (replicate (N cfg) 0.0, replicate (N cfg) 0.0, replicate (N cfg) 0.0, replicate (N cfg) 0.0))"
    by (rule fold_invariant) (erule continuity_cell_sized, simp add: sized4_def)
  then show ?thesis
    by (simp add: continuity_system_def sized4_def split: prod.splits)
qed

lemma temperature_system_sized: "sized4 (N cfg) (temperature_system cfg s)"
proof -
  have "sized4 (N cfg) (fold (temperature_cell cfg s) [1..<N cfg - 1]
     (replicate (N cfg) 0.0, replicate (N cfg) 0.0, replicate (N cfg) 0.0, replicate (N cfg) 0.0))"
    by (rule fold_invariant) (erule temperature_cell_sized, simp add: sized4_def)
  then show ?thesis
    by (cases "source cfg") (simp_all add: temperature_system_def sized4_def split: prod.splits)
qed

text \<open>The fields a stage leaves alone, and the sizes it keeps.\<close>

lemma momentum_cell_frame:
  "u (momentum_cell cfg i s) = u s" "p (momentum_cell cfg i s) = p s"
  "T (momentum_cell cfg i s) = T s" "p_storage (momentum_cell cfg i s) = p_storage s"
  "T_old (momentum_cell cfg i s) = T_old s" "p_old (momentum_cell cfg i s) = p_old s"
  "p_prime (momentum_cell cfg i s) = p_prime s" "Sm (momentum_cell cfg i s) = Sm s"
  "Su (momentum_cell cfg i s) = Su s" "St (momentum_cell cfg i s) = St s"
  "maxErr (momentum_cell cfg i s) = maxErr s" "fout (momentum_cell cfg i s) = fout s"
  "stage_log (momentum_cell cfg i s) = stage_log s"
  "length (aU (momentum_cell cfg i s)) = length (aU s)"
  "length (bU (momentum_cell cfg i s)) = length (bU s)"
  "length (cU (momentum_cell cfg i s)) = length (cU s)"
  "length (dU (momentum_cell cfg i s)) = length (dU s)"
  by (simp_all add: momentum_cell_def Let_def)

lemma momentum_cell_well_sized: "well_sized cfg s \<Longrightarrow> well_sized cfg (momentum_cell cfg i s)"
  by (simp add: well_sized_def momentum_cell_frame)

lemma momentum_boundary_frame:
  "u (momentum_boundary cfg s) = u s" "p (momentum_boundary cfg s) = p s"
  "T (momentum_boundary cfg s) = T s" "p_storage (momentum_boundary cfg s) = p_storage s"
  "T_old (momentum_boundary cfg s) = T_old s" "p_old (momentum_boundary cfg s) = p_old s"
  "p_prime (momentum_boundary cfg s) = p_prime s" "Sm (momentum_boundary cfg s) = Sm s"
  "Su (momentum_boundary cfg s) = Su s" "St (momentum_boundary cfg s) = St s"
  "maxErr (momentum_boundary cfg s) = maxErr s" "fout (momentum_boundary cfg s) = fout s"
  "stage_log (momentum_boundary cfg s) = stage_log s"
  "length (aU (momentum_boundary cfg s)) = length (aU s)"
  "length (bU (momentum_boundary cfg s)) = length (bU s)"
  "length (cU (momentum_boundary cfg s)) = length (cU s)"
  "length (dU (momentum_boundary cfg s)) = length (dU s)"
  by (simp_all add: momentum_boundary_def Let_def)

lemma momentum_assembly_frame:
  "u (momentum_assembly cfg s) = u s" "p (momentum_assembly cfg s) = p s"
  "T (momentum_assembly cfg s) = T s" "p_storage (momentum_assembly cfg s) = p_storage s"
  "T_old (momentum_assembly cfg s) = T_old s" "p_old (momentum_assembly cfg s) = p_old s"
  "p_prime (momentum_assembly cfg s) = p_prime s" "Sm (momentum_assembly cfg s) = Sm s"
  "Su (momentum_assembly cfg s) = Su s" "St (momentum_assembly cfg s) = St s"
  "maxErr (momentum_assembly cfg s) = maxErr s" "fout (momentum_assembly cfg s) = fout s"
  "stage_log (momentum_assembly cfg s) = stage_log s"
  unfolding momentum_assembly_def momentum_boundary_frame
  by (rule fold_keeps, simp add: momentum_cell_frame)+

lemma momentum_assembly_well_sized:
  assumes "well_sized cfg s"
  shows "well_sized cfg (momentum_assembly cfg s)"
proof -
  have "well_sized cfg (fold (momentum_cell cfg) [1..<N cfg - 1] s)"
    by (rule fold_invariant) (simp_all add: momentum_cell_well_sized assms)
  then show ?thesis
    by (simp add: momentum_assembly_def well_sized_def momentum_boundary_frame)
qed

lemma momentum_predictor_total:
  assumes "well_sized cfg s"
  shows "\<exists>x. momentum_predictor cfg s =
            Some ((momentum_assembly cfg s)\<lparr>u := x, stage_log := stage_log s @ [Momentum_predictor]\<rparr>) \<and>
            length x = N cfg"
proof -
  define s1 where "s1 = momentum_assembly cfg s"
  have w: "well_sized cfg s1" unfolding s1_def by (rule momentum_assembly_well_sized[OF assms])
  then have "sized4 (N cfg) (aU s1, bU s1, cU s1, dU s1)" "1 \<le> N cfg"
    by (simp_all add: well_sized_def sized4_def)
  from sized4_solve[OF this] obtain x where
    x: "solveTridiagonal (aU s1) (bU s1) (cU s1) (dU s1) = Some x" "length x = N cfg" by blast
  have "momentum_predictor cfg s = Some (s1\<lparr>u := x, stage_log := stage_log s @ [Momentum_predictor]\<rparr>)"
    by (simp add: momentum_predictor_def Let_def x(1) momentum_assembly_frame flip: s1_def)
       (simp add: s1_def momentum_assembly_frame)
  then show ?thesis using x(2) by (auto simp: s1_def)
qed

lemma momentum_predictor_well_sized:
  assumes "well_sized cfg s" "momentum_predictor cfg s = Some s'"
  shows "well_sized cfg s'" "stage_log s' = stage_log s @ [Momentum_predictor]" "fout s' = fout s"
    "maxErr s' = maxErr s"
proof -
  from momentum_predictor_total[OF assms(1)] assms(2) obtain x where
    s': "s' = (momentum_assembly cfg s)\<lparr>u := x, stage_log := stage_log s @ [Momentum_predictor]\<rparr>"
    and x: "length x = N cfg" by auto
  have "well_sized cfg (momentum_assembly cfg s)" by (rule momentum_assembly_well_sized[OF assms(1)])
  then show "well_sized cfg s'" using x by (simp add: s' well_sized_def)
  show "stage_log s' = stage_log s @ [Momentum_predictor]" by (simp add: s')
  show "fout s' = fout s" "maxErr s' = maxErr s" by (simp_all add: s' momentum_assembly_frame)
qed

lemma continuity_satisfactor_total:
  assumes "well_sized cfg s"
  shows "\<exists>x. continuity_satisfactor cfg s =
            Some (s\<lparr>p_prime := x, stage_log := stage_log s @ [Continuity_satisfactor]\<rparr>) \<and>
            length x = N cfg"
proof -
  obtain aP bP cP dP where sys: "continuity_system cfg s = (aP, bP, cP, dP)"
    by (cases "continuity_system cfg s") auto
  have "sized4 (N cfg) (aP, bP, cP, dP)" using continuity_system_sized[of cfg s] by (simp add: sys)
  moreover have "1 \<le> N cfg" using assms by (simp add: well_sized_def)
  ultimately obtain x where "solveTridiagonal aP bP cP dP = Some x" "length x = N cfg"
    using sized4_solve by blast
  then show ?thesis by (intro exI[of _ x]) (simp add: continuity_satisfactor_def sys)
qed

lemma pressure_cell_frame:
  "u (pressure_cell i s) = u s" "T (pressure_cell i s) = T s"
  "T_old (pressure_cell i s) = T_old s" "p_old (pressure_cell i s) = p_old s"
  "p_prime (pressure_cell i s) = p_prime s" "Sm (pressure_cell i s) = Sm s"
  "Su (pressure_cell i s) = Su s" "St (pressure_cell i s) = St s"
  "aU (pressure_cell i s) = aU s" "bU (pressure_cell i s) = bU s"
  "cU (pressure_cell i s) = cU s" "dU (pressure_cell i s) = dU s"
  "maxErr (pressure_cell i s) = maxErr s" "fout (pressure_cell i s) = fout s"
  "stage_log (pressure_cell i s) = stage_log s"
  by (simp_all add: pressure_cell_def Let_def)

lemma pressure_corrector_frame:
  "u (pressure_corrector cfg s) = u s" "T (pressure_corrector cfg s) = T s"
  "T_old (pressure_corrector cfg s) = T_old s" "p_old (pressure_corrector cfg s) = p_old s"
  "p_prime (pressure_corrector cfg s) = p_prime s" "Sm (pressure_corrector cfg s) = Sm s"
  "Su (pressure_corrector cfg s) = Su s" "St (pressure_corrector cfg s) = St s"
  "aU (pressure_corrector cfg s) = aU s" "bU (pressure_corrector cfg s) = bU s"
  "cU (pressure_corrector cfg s) = cU s" "dU (pressure_corrector cfg s) = dU s"
  "maxErr (pressure_corrector cfg s) = maxErr s" "fout (pressure_corrector cfg s) = fout s"
  "stage_log (pressure_corrector cfg s) = stage_log s @ [Pressure_corrector]"
  unfolding pressure_corrector_def Let_def
  by (simp_all add: fold_keeps[where f = pressure_cell] pressure_cell_frame)

lemma pressure_corrector_well_sized:
  assumes "well_sized cfg s"
  shows "well_sized cfg (pressure_corrector cfg s)"
  using assms pressure_corrector_ghost(1,2)[OF assms]
  by (simp add: well_sized_def pressure_corrector_frame)

lemma velocity_cell_frame:
  "p (velocity_cell cfg i s) = p s" "T (velocity_cell cfg i s) = T s"
  "p_storage (velocity_cell cfg i s) = p_storage s"
  "T_old (velocity_cell cfg i s) = T_old s" "p_old (velocity_cell cfg i s) = p_old s"
  "p_prime (velocity_cell cfg i s) = p_prime s" "Sm (velocity_cell cfg i s) = Sm s"
  "Su (velocity_cell cfg i s) = Su s" "St (velocity_cell cfg i s) = St s"
  "aU (velocity_cell cfg i s) = aU s" "bU (velocity_cell cfg i s) = bU s"
  "cU (velocity_cell cfg i s) = cU s" "dU (velocity_cell cfg i s) = dU s"
  "fout (velocity_cell cfg i s) = fout s"
  "stage_log (velocity_cell cfg i s) = stage_log s"
  "length (u (velocity_cell cfg i s)) = length (u s)"
  by (simp_all add: velocity_cell_def Let_def)

lemma velocity_corrector_frame:
  "p (velocity_corrector cfg s) = p s" "T (velocity_corrector cfg s) = T s"
  "p_storage (velocity_corrector cfg s) = p_storage s"
  "T_old (velocity_corrector cfg s) = T_old s" "p_old (velocity_corrector cfg s) = p_old s"
  "p_prime (velocity_corrector cfg s) = p_prime s" "Sm (velocity_corrector cfg s) = Sm s"
  "Su (velocity_corrector cfg s) = Su s" "St (velocity_corrector cfg s) = St s"
  "aU (velocity_corrector cfg s) = aU s" "bU (velocity_corrector cfg s) = bU s"
  "cU (velocity_corrector cfg s) = cU s" "dU (velocity_corrector cfg s) = dU s"
  "fout (velocity_corrector cfg s) = fout s"
  "stage_log (velocity_corrector cfg s) = stage_log s @ [Velocity_corrector]"
  "length (u (velocity_corrector cfg s)) = length (u s)"
  unfolding velocity_corrector_def Let_def
  by (simp_all add: fold_keeps[where f = "velocity_cell cfg"] velocity_cell_frame
      fold_keeps[where f = "velocity_cell cfg" and g = "\<lambda>s. length (u s)"])

lemma velocity_corrector_well_sized:
  "well_sized cfg s \<Longrightarrow> well_sized cfg (velocity_corrector cfg s)"
  by (simp add: well_sized_def velocity_corrector_frame)

lemma corrector_round_total:
  assumes "well_sized cfg s"
  shows "\<exists>s'. corrector_round cfg s = Some s' \<and> well_sized cfg s' \<and>
           stage_log s' = stage_log s @ [Continuity_satisfactor, Pressure_corrector, Velocity_corrector] \<and>
           fout s' = fout s"
proof -
  from continuity_satisfactor_total[OF assms] obtain x where
    c: "continuity_satisfactor cfg s =
          Some (s\<lparr>p_prime := x, stage_log := stage_log s @ [Continuity_satisfactor]\<rparr>)"
    and x: "length x = N cfg" by blast
  define s1 where "s1 = s\<lparr>p_prime := x, stage_log := stage_log s @ [Continuity_satisfactor]\<rparr>"
  have w1: "well_sized cfg s1" using assms x by (simp add: s1_def well_sized_def)
  have r: "corrector_round cfg s = Some (velocity_corrector cfg (pressure_corrector cfg s1))"
    by (simp add: corrector_round_def c s1_def)
  have w: "well_sized cfg (velocity_corrector cfg (pressure_corrector cfg s1))"
    by (intro velocity_corrector_well_sized pressure_corrector_well_sized w1)
  have l: "stage_log (velocity_corrector cfg (pressure_corrector cfg s1)) =
           stage_log s @ [Continuity_satisfactor, Pressure_corrector, Velocity_corrector]"
    by (simp add: velocity_corrector_frame pressure_corrector_frame s1_def)
  have f: "fout (velocity_corrector cfg (pressure_corrector cfg s1)) = fout s"
    by (simp add: velocity_corrector_frame pressure_corrector_frame s1_def)
  show ?thesis using r w l f by blast
qed

lemma rounds_total:
  assumes "well_sized cfg s"
  shows "\<exists>s'. rounds cfg k s = Some s' \<and> well_sized cfg s' \<and>
           stage_log s' = stage_log s @
             concat (replicate k [Continuity_satisfactor, Pressure_corrector, Velocity_corrector]) \<and>
           fout s' = fout s"
  using assms
proof (induction k arbitrary: s)
  case 0
  then show ?case by simp
next
  case (Suc k)
  from corrector_round_total[OF Suc.prems] obtain s1 where
    s1: "corrector_round cfg s = Some s1" "well_sized cfg s1"
      "stage_log s1 = stage_log s @ [Continuity_satisfactor, Pressure_corrector, Velocity_corrector]"
      "fout s1 = fout s" by blast
  from Suc.IH[OF s1(2)] obtain s' where
    s': "rounds cfg k s1 = Some s'" "well_sized cfg s'"
      "stage_log s' = stage_log s1 @
         concat (replicate k [Continuity_satisfactor, Pressure_corrector, Velocity_corrector])"
      "fout s' = fout s1" by blast
  have "rounds cfg (Suc k) s = Some s'" by (simp add: s1(1) s'(1))
  then show ?case using s' s1 by simp
qed

lemma rounds_snoc:
  "rounds cfg (Suc k) s = (case rounds cfg k s of None \<Rightarrow> None | Some s1 \<Rightarrow> corrector_round cfg s1)"
proof (induction k arbitrary: s)
  case 0
  then show ?case by (simp split: option.splits)
next
  case (Suc k)
  show ?case
  proof (cases "corrector_round cfg s")
    case None
    then show ?thesis by simp
  next
    case (Some s1)
    have "rounds cfg (Suc (Suc k)) s = rounds cfg (Suc k) s1" by (simp add: Some)
    also have "\<dots> = (case rounds cfg k s1 of None \<Rightarrow> None | Some s2 \<Rightarrow> corrector_round cfg s2)"
      by (rule Suc.IH)
    also have "rounds cfg k s1 = rounds cfg (Suc k) s" by (simp add: Some)
    finally show ?thesis .
  qed
qed

lemma piso_correctors_rounds:
  "piso_correctors cfg j s = rounds cfg (corr_iter cfg - j) s"
proof (induction cfg j s rule: piso_correctors.induct)
  case (1 cfg piso s)
  show ?case
  proof (cases "piso < corr_iter cfg")
    case False
    then show ?thesis by (subst piso_correctors.simps) simp
  next
    case True
    then have d: "corr_iter cfg - piso = Suc (corr_iter cfg - (piso + 1))" by simp
    show ?thesis
    proof (cases "corrector_round cfg s")
      case None
      then show ?thesis using True by (subst piso_correctors.simps) (simp add: d)
    next
      case (Some s1)
      have "piso_correctors cfg piso s = piso_correctors cfg (piso + 1) s1"
        using True Some by (subst piso_correctors.simps) simp
      also have "\<dots> = rounds cfg (corr_iter cfg - (piso + 1)) s1"
        by (rule "1.IH"[OF True Some])
      also have "\<dots> = rounds cfg (corr_iter cfg - piso) s"
        unfolding d by (simp add: Some)
      finally show ?thesis .
    qed
  qed
qed

lemma piso_iteration_total:
  assumes "well_sized cfg s"
  shows "\<exists>s'. piso_iteration cfg s = Some s' \<and> well_sized cfg s' \<and>
           stage_log s' = stage_log s @ iteration_log cfg \<and> fout s' = fout s"
proof -
  from momentum_predictor_total[OF assms] obtain s1 where
    m: "momentum_predictor cfg s = Some s1" by blast
  note s1 = momentum_predictor_well_sized[OF assms m]
  from rounds_total[OF s1(1), of "corr_iter cfg"] obtain s' where
    s': "rounds cfg (corr_iter cfg) s1 = Some s'" "well_sized cfg s'"
      "stage_log s' = stage_log s1 @
         concat (replicate (corr_iter cfg) [Continuity_satisfactor, Pressure_corrector, Velocity_corrector])"
      "fout s' = fout s1" by blast
  have "piso_iteration cfg s = Some s'"
    by (simp add: piso_iteration_def m piso_correctors_rounds s'(1))
  then show ?thesis using s' s1 by (simp add: iteration_log_def)
qed

section \<open>The loops of a timestep\<close>

lemma piso_loop_total:
  assumes "well_sized cfg s"
  shows "\<exists>iter' s' k. piso_loop cfg iter s = Some (iter', s') \<and> well_sized cfg s' \<and>
           iter' = iter + k \<and> (0 < k \<longrightarrow> iter' \<le> tot_iter cfg) \<and>
           stage_log s' = stage_log s @ concat (replicate k (iteration_log cfg)) \<and>
           fout s' = fout s \<and>
           (0 < k \<longleftrightarrow> tol cfg < maxErr s \<and> iter < tot_iter cfg) \<and>
           \<not> (tol cfg < maxErr s' \<and> iter' < tot_iter cfg)"
  using assms
proof (induction cfg iter s rule: piso_loop.induct)
  case (1 cfg iter s)
  show ?case
  proof (cases "iter < tot_iter cfg \<and> maxErr s > tol cfg")
    case False
    then have "piso_loop cfg iter s = Some (iter, s)"
      by (subst piso_loop.simps) auto
    then show ?thesis using False "1.prems"
      by (intro exI[of _ iter] exI[of _ s] exI[of _ 0]) auto
  next
    case True
    from piso_iteration_total[OF "1.prems"] obtain s1 where
      s1: "piso_iteration cfg s = Some s1" "well_sized cfg s1"
        "stage_log s1 = stage_log s @ iteration_log cfg" "fout s1 = fout s" by blast
    from "1.IH"[OF True s1(1) s1(2)] obtain iter' s' k where
      r: "piso_loop cfg (iter + 1) s1 = Some (iter', s')" "well_sized cfg s'"
        "iter' = iter + 1 + k" "0 < k \<longrightarrow> iter' \<le> tot_iter cfg"
        "stage_log s' = stage_log s1 @ concat (replicate k (iteration_log cfg))"
        "fout s' = fout s1"
        "0 < k \<longleftrightarrow> tol cfg < maxErr s1 \<and> iter + 1 < tot_iter cfg"
        "\<not> (tol cfg < maxErr s' \<and> iter' < tot_iter cfg)"
      by blast
    have e: "piso_loop cfg iter s = Some (iter', s')"
      using True s1(1) r(1) by (subst piso_loop.simps) simp
    have le: "iter' \<le> tot_iter cfg"
    proof (cases "0 < k")
      case True
      then show ?thesis using r(4) by simp
    next
      case False
      then show ?thesis using r(3) True by simp
    qed
    show ?thesis
      using e r(2,3,5,6,8) s1(3,4) True le
      by (intro exI[of _ iter'] exI[of _ s'] exI[of _ "Suc k"]) simp
  qed
qed

lemma temperature_calculator_total:
  assumes "well_sized cfg s"
  shows "\<exists>x. temperature_calculator cfg s =
            Some (s\<lparr>T := x, stage_log := stage_log s @ [Temperature_calculator]\<rparr>) \<and>
            length x = N cfg"
proof -
  obtain aT bT cT dT where sys: "temperature_system cfg s = (aT, bT, cT, dT)"
    by (cases "temperature_system cfg s") auto
  have "sized4 (N cfg) (aT, bT, cT, dT)" using temperature_system_sized[of cfg s] by (simp add: sys)
  moreover have "1 \<le> N cfg" using assms by (simp add: well_sized_def)
  ultimately obtain x where "solveTridiagonal aT bT cT dT = Some x" "length x = N cfg"
    using sized4_solve by blast
  then show ?thesis by (intro exI[of _ x]) (simp add: temperature_calculator_def sys)
qed

lemma output_region_frame:
  "u (output_region cfg it s) = u s" "p (output_region cfg it s) = p s"
  "T (output_region cfg it s) = T s" "p_storage (output_region cfg it s) = p_storage s"
  "T_old (output_region cfg it s) = T_old s" "p_old (output_region cfg it s) = p_old s"
  "p_prime (output_region cfg it s) = p_prime s" "Sm (output_region cfg it s) = Sm s"
  "Su (output_region cfg it s) = Su s" "St (output_region cfg it s) = St s"
  "aU (output_region cfg it s) = aU s" "bU (output_region cfg it s) = bU s"
  "cU (output_region cfg it s) = cU s" "dU (output_region cfg it s) = dU s"
  "maxErr (output_region cfg it s) = maxErr s"
  "stage_log (output_region cfg it s) = stage_log s @ [Output]"
  by (simp_all add: output_region_def Let_def)

lemma output_region_other_timesteps:
  "it \<noteq> t_iter cfg - 1 \<Longrightarrow>
   fout (output_region cfg it s) = fout s @ [Text ''\<newline>\<newline>'', Text ''\<newline>\<newline>'']"
  by (simp add: output_region_def Let_def)

lemma write_profile_append:
  "write_profile cfg v f = f @ concat (map (\<lambda>i. [Number (v ! i), Text '', '']) [0..<N cfg])"
proof -
  have "fold (\<lambda>i f. f @ [Number (v ! i), Text '', '']) js f =
          f @ concat (map (\<lambda>i. [Number (v ! i), Text '', '']) js)" for js
    by (induction js arbitrary: f) simp_all
  then show ?thesis by (simp add: write_profile_def)
qed

text \<open>
  At the last timestep the output region writes the three profiles, each value followed by
  a comma and a blank, with the two separators between them.
\<close>

lemma output_region_last_timestep:
  assumes "it = t_iter cfg - 1"
  shows "fout (output_region cfg it s) =
           fout s
           @ concat (map (\<lambda>i. [Number (u s ! i), Text '', '']) [0..<N cfg])
           @ [Text ''\<newline>\<newline>'']
           @ concat (map (\<lambda>i. [Number (p s ! i), Text '', '']) [0..<N cfg])
           @ [Text ''\<newline>\<newline>'']
           @ concat (map (\<lambda>i. [Number (T s ! i), Text '', '']) [0..<N cfg])"
  using assms by (simp add: output_region_def Let_def write_profile_append)

text \<open>The state in which a timestep enters the \<^verbatim>\<open>while\<close> loop.\<close>

lemma timestep_entry_well_sized:
  assumes "well_sized cfg s"
  shows "well_sized cfg
           ((case source cfg of PISO_cpp \<Rightarrow> s\<lparr>T_old := T s, p_old := p s\<rparr> | Part_000 \<Rightarrow> s)
            \<lparr>maxErr := 1.0\<rparr>)"
  using assms by (cases "source cfg") (simp_all add: well_sized_def)

lemma timestep_total:
  assumes "well_sized cfg s"
  defines "s0 \<equiv> (case source cfg of PISO_cpp \<Rightarrow> s\<lparr>T_old := T s, p_old := p s\<rparr> | Part_000 \<Rightarrow> s)
                   \<lparr>maxErr := 1.0\<rparr>"
  shows "\<exists>iter s1 x.
           piso_loop cfg 0 s0 = Some (iter, s1) \<and> iter \<le> tot_iter cfg \<and>
           (tol cfg < maxErr s1 \<longrightarrow> iter = tot_iter cfg) \<and>
           well_sized cfg s1 \<and>
           stage_log s1 = stage_log s @ concat (replicate iter (iteration_log cfg)) \<and>
           fout s1 = fout s \<and>
           temperature_calculator cfg s1 =
             Some (s1\<lparr>T := x, stage_log := stage_log s1 @ [Temperature_calculator]\<rparr>) \<and>
           length x = N cfg \<and>
           timestep cfg it s =
             Some (output_region cfg it
                     (s1\<lparr>T := x, stage_log := stage_log s1 @ [Temperature_calculator]\<rparr>))"
proof -
  have w0: "well_sized cfg s0" unfolding s0_def by (rule timestep_entry_well_sized[OF assms(1)])
  have l0: "stage_log s0 = stage_log s" "fout s0 = fout s"
    by (cases "source cfg"; simp add: s0_def)+
  from piso_loop_total[OF w0, of 0] obtain iter s1 k where
    r: "piso_loop cfg 0 s0 = Some (iter, s1)" "well_sized cfg s1" "iter = 0 + k"
      "0 < k \<longrightarrow> iter \<le> tot_iter cfg"
      "stage_log s1 = stage_log s0 @ concat (replicate k (iteration_log cfg))"
      "fout s1 = fout s0" "\<not> (tol cfg < maxErr s1 \<and> iter < tot_iter cfg)"
    by blast
  from temperature_calculator_total[OF r(2)] obtain x where
    t: "temperature_calculator cfg s1 =
          Some (s1\<lparr>T := x, stage_log := stage_log s1 @ [Temperature_calculator]\<rparr>)"
      "length x = N cfg" by blast
  have le: "iter \<le> tot_iter cfg" using r(3,4) by (cases k) simp_all
  have ts: "timestep cfg it s =
      Some (output_region cfg it (s1\<lparr>T := x, stage_log := stage_log s1 @ [Temperature_calculator]\<rparr>))"
    using r(1)[unfolded s0_def] t(1) by (simp add: timestep_def Let_def)
  have ex: "tol cfg < maxErr s1 \<longrightarrow> iter = tot_iter cfg" using r(7) le by auto
  show ?thesis
    using r(1,2,5,6) t ts le ex l0 r(3) by (intro exI[of _ iter] exI[of _ s1] exI[of _ x]) simp
qed

lemma count_list_concat_replicate:
  "count_list (concat (replicate k xs)) a = k * count_list xs a"
  by (induction k) simp_all



text \<open>
  The entries of the energy system, read off the assembly loop and the boundary rows.
\<close>

lemma fold_rows_nth:
  fixes step :: "nat \<Rightarrow> real list \<times> real list \<times> real list \<times> real list \<Rightarrow>
                 real list \<times> real list \<times> real list \<times> real list"
  assumes step: "\<And>i a b c d. step i (a, b, c, d) = (a[i := fa i], b[i := fb i], c[i := fc i], d[i := fd i])"
    and sz: "sized4 n (a0, b0, c0, d0)" and j: "j < n"
    and res: "fold step [lo..<hi] (a0, b0, c0, d0) = (a, b, c, d)"
  shows "length a = n \<and> length b = n \<and> length c = n \<and> length d = n \<and>
         a ! j = (if lo \<le> j \<and> j < hi then fa j else a0 ! j) \<and>
         b ! j = (if lo \<le> j \<and> j < hi then fb j else b0 ! j) \<and>
         c ! j = (if lo \<le> j \<and> j < hi then fc j else c0 ! j) \<and>
         d ! j = (if lo \<le> j \<and> j < hi then fd j else d0 ! j)"
  using res
proof (induction hi arbitrary: a b c d)
  case 0
  then show ?case using sz by (auto simp: sized4_def)
next
  case (Suc hi)
  show ?case
  proof (cases "lo \<le> hi")
    case False
    then show ?thesis using Suc.prems sz by (auto simp: sized4_def)
  next
    case lh: True
    obtain a1 b1 c1 d1 where f1: "fold step [lo..<hi] (a0, b0, c0, d0) = (a1, b1, c1, d1)"
      using prod_cases4 by blast
    note IH = Suc.IH[OF f1]
    have "fold step [lo..<Suc hi] (a0, b0, c0, d0) = step hi (a1, b1, c1, d1)"
      using lh by (simp add: f1)
    then have abcd: "a = a1[hi := fa hi]" "b = b1[hi := fb hi]" "c = c1[hi := fc hi]"
      "d = d1[hi := fd hi]"
      using Suc.prems by (simp_all add: step)
    show ?thesis
    proof (cases "j = hi")
      case True
      then show ?thesis unfolding abcd using IH j lh by simp
    next
      case False
      then show ?thesis unfolding abcd using IH by auto
    qed
  qed
qed

lemma face_velocities_explicit:
  assumes "0 < i"
  shows "u_l_face cfg s i =
           0.5 * (u s ! (i - 1) + u s ! i) + real_of_int (rhie_chow_on_off cfg) *
             (- (1.0 / bU s ! (i - 1) + 1.0 / bU s ! i) / (8 * dz cfg) *
              (p_storage s ! (i - 1) - 3 * p_storage s ! i + 3 * p_storage s ! (i + 1)
               - p_storage s ! (i + 2)))"
    "u_r_face cfg s i =
           0.5 * (u s ! i + u s ! (i + 1)) + real_of_int (rhie_chow_on_off cfg) *
             (- (1.0 / bU s ! (i + 1) + 1.0 / bU s ! i) / (8 * dz cfg) *
              (p_storage s ! i - 3 * p_storage s ! (i + 1) + 3 * p_storage s ! (i + 2)
               - p_storage s ! (i + 3)))"
proof -
  have n: "nat (int i - 2 + 1) = i - 1" "nat (int i - 1 + 1) = i" "nat (int i + 1) = i + 1"
    "nat (int i + 1 + 1) = i + 2" "nat (int i + 2 + 1) = i + 3"
    using assms by simp_all
  show "u_l_face cfg s i =
           0.5 * (u s ! (i - 1) + u s ! i) + real_of_int (rhie_chow_on_off cfg) *
             (- (1.0 / bU s ! (i - 1) + 1.0 / bU s ! i) / (8 * dz cfg) *
              (p_storage s ! (i - 1) - 3 * p_storage s ! i + 3 * p_storage s ! (i + 1)
               - p_storage s ! (i + 2)))"
    unfolding u_l_face_def rhie_chow_l_def p_padded_def n ..
  show "u_r_face cfg s i =
           0.5 * (u s ! i + u s ! (i + 1)) + real_of_int (rhie_chow_on_off cfg) *
             (- (1.0 / bU s ! (i + 1) + 1.0 / bU s ! i) / (8 * dz cfg) *
              (p_storage s ! i - 3 * p_storage s ! (i + 1) + 3 * p_storage s ! (i + 2)
               - p_storage s ! (i + 3)))"
    unfolding u_r_face_def rhie_chow_r_def p_padded_def n ..
qed

lemma temperature_system_rows:
  assumes sys: "temperature_system cfg s = (aT, bT, cT, dT)"
  shows "length aT = N cfg \<and> length bT = N cfg \<and> length cT = N cfg \<and> length dT = N cfg"
    "\<And>i. 0 < i \<Longrightarrow> i < N cfg - 1 \<Longrightarrow>
       (aT ! i, bT ! i, cT ! i, dT ! i) =
         (case temperature_cell cfg s i (replicate (N cfg) 0, replicate (N cfg) 0,
                 replicate (N cfg) 0, replicate (N cfg) 0)
          of (a, b, c, d) \<Rightarrow> (a ! i, b ! i, c ! i, d ! i))"
    "2 \<le> N cfg \<Longrightarrow>
       (case source cfg of
          PISO_cpp \<Rightarrow> bT ! 0 = 1 \<and> cT ! 0 = - 1 \<and> dT ! 0 = 0 \<and>
            aT ! (N cfg - 1) = - 1 \<and> bT ! (N cfg - 1) = 1 \<and> dT ! (N cfg - 1) = 0
        | Part_000 \<Rightarrow> bT ! 0 = 1 \<and> cT ! 0 = 0 \<and> dT ! 0 = T_inlet cfg \<and>
            aT ! (N cfg - 1) = 0 \<and> bT ! (N cfg - 1) = 1 \<and> dT ! (N cfg - 1) = T_outlet cfg)"
proof -
  define z where "z = (replicate (N cfg) (0::real), replicate (N cfg) (0::real),
     replicate (N cfg) (0::real), replicate (N cfg) (0::real))"
  obtain a1 b1 c1 d1 where f: "fold (temperature_cell cfg s) [1..<N cfg - 1] z = (a1, b1, c1, d1)"
    using prod_cases4 by blast
  have sz: "sized4 (N cfg) z" by (simp add: z_def sized4_def)
  have "sized4 (N cfg) (fold (temperature_cell cfg s) [1..<N cfg - 1] z)"
    by (rule fold_invariant) (erule temperature_cell_sized, rule sz)
  then have l1: "length a1 = N cfg" "length b1 = N cfg" "length c1 = N cfg" "length d1 = N cfg"
    unfolding f by (simp_all add: sized4_def)
  have abcd: "(aT, bT, cT, dT) =
      (case source cfg of
         PISO_cpp \<Rightarrow>
           (a1[N cfg - 1 := - 1.0], b1[0 := 1.0, N cfg - 1 := 1.0], c1[0 := - 1.0],
            d1[0 := 0.0, N cfg - 1 := 0.0])
       | Part_000 \<Rightarrow>
           (a1[N cfg - 1 := 0.0], b1[0 := 1.0, N cfg - 1 := 1.0], c1[0 := 0.0],
            d1[0 := T_inlet cfg, N cfg - 1 := T_outlet cfg]))"
    using sys f by (simp add: temperature_system_def z_def)
  show "length aT = N cfg \<and> length bT = N cfg \<and> length cT = N cfg \<and> length dT = N cfg"
    using abcd l1 by (cases "source cfg") simp_all
  show "2 \<le> N cfg \<Longrightarrow>
       (case source cfg of
          PISO_cpp \<Rightarrow> bT ! 0 = 1 \<and> cT ! 0 = - 1 \<and> dT ! 0 = 0 \<and>
            aT ! (N cfg - 1) = - 1 \<and> bT ! (N cfg - 1) = 1 \<and> dT ! (N cfg - 1) = 0
        | Part_000 \<Rightarrow> bT ! 0 = 1 \<and> cT ! 0 = 0 \<and> dT ! 0 = T_inlet cfg \<and>
            aT ! (N cfg - 1) = 0 \<and> bT ! (N cfg - 1) = 1 \<and> dT ! (N cfg - 1) = T_outlet cfg)"
    using abcd l1 by (cases "source cfg") (simp_all add: nth_list_update)
  show "(aT ! i, bT ! i, cT ! i, dT ! i) =
         (case temperature_cell cfg s i (replicate (N cfg) 0, replicate (N cfg) 0,
                 replicate (N cfg) 0, replicate (N cfg) 0)
          of (a, b, c, d) \<Rightarrow> (a ! i, b ! i, c ! i, d ! i))"
    if i: "0 < i" "i < N cfg - 1" for i
  proof -
    have iN: "i < N cfg" "i \<noteq> 0" "i \<noteq> N cfg - 1" "1 \<le> i" using i by simp_all
    obtain fa fb fc fd where step:
      "\<And>j a b c d. temperature_cell cfg s j (a, b, c, d) = (a[j := fa j], b[j := fb j], c[j := fc j], d[j := fd j])"
    proof (cases "source cfg")
      case PISO_cpp
      show ?thesis
        by (rule that) (simp add: temperature_cell_def PISO_cpp Let_def)
    next
      case Part_000
      show ?thesis
        by (rule that) (simp add: temperature_cell_def Part_000 Let_def)
    qed
    from fold_rows_nth[of "temperature_cell cfg s" fa fb fc fd, OF step sz[unfolded z_def] iN(1) f[unfolded z_def]]
    have v: "a1 ! i = fa i" "b1 ! i = fb i" "c1 ! i = fc i" "d1 ! i = fd i"
      using i by simp_all
    have "(aT ! i, bT ! i, cT ! i, dT ! i) = (a1 ! i, b1 ! i, c1 ! i, d1 ! i)"
      using abcd iN by (cases "source cfg") simp_all
    also have "\<dots> = (fa i, fb i, fc i, fd i)" by (simp add: v)
    finally show ?thesis using iN(1) by (simp add: step)
  qed
qed



text \<open>
  The pressure corrector of every round leaves the buffer padded, and no other stage of the
  inner loop writes \<open>p\<close> or \<open>p_storage\<close>.
\<close>

lemma corrector_round_padded:
  assumes "well_sized cfg s" "corrector_round cfg s = Some s'"
  shows "ghost_padded cfg s'"
proof -
  from continuity_satisfactor_total[OF assms(1)] obtain x where
    c: "continuity_satisfactor cfg s =
          Some (s\<lparr>p_prime := x, stage_log := stage_log s @ [Continuity_satisfactor]\<rparr>)"
    and x: "length x = N cfg" by blast
  define s1 where "s1 = s\<lparr>p_prime := x, stage_log := stage_log s @ [Continuity_satisfactor]\<rparr>"
  have w1: "well_sized cfg s1" using assms(1) x by (simp add: s1_def well_sized_def)
  have r: "s' = velocity_corrector cfg (pressure_corrector cfg s1)"
    using assms(2) by (simp add: corrector_round_def c s1_def)
  show ?thesis
    unfolding ghost_padded_def r velocity_corrector_frame
    using pressure_corrector_ghost(4,5,6)[OF w1] by simp
qed

lemma rounds_padded:
  assumes "well_sized cfg s" "ghost_padded cfg s" "rounds cfg k s = Some s'"
  shows "ghost_padded cfg s'"
  using assms
proof (induction k arbitrary: s)
  case 0
  then show ?case by simp
next
  case (Suc k)
  from corrector_round_total[OF Suc.prems(1)] obtain s1 where
    s1: "corrector_round cfg s = Some s1" "well_sized cfg s1" by blast
  have "rounds cfg k s1 = Some s'" using Suc.prems(3) by (simp add: s1(1))
  from Suc.IH[OF s1(2) corrector_round_padded[OF Suc.prems(1) s1(1)] this] show ?case .
qed

lemma piso_iteration_padded:
  assumes "well_sized cfg s" "ghost_padded cfg s" "piso_iteration cfg s = Some s'"
  shows "ghost_padded cfg s'"
proof -
  from momentum_predictor_total[OF assms(1)] obtain x where
    m: "momentum_predictor cfg s =
          Some ((momentum_assembly cfg s)\<lparr>u := x, stage_log := stage_log s @ [Momentum_predictor]\<rparr>)"
    by blast
  define s1 where "s1 = (momentum_assembly cfg s)\<lparr>u := x, stage_log := stage_log s @ [Momentum_predictor]\<rparr>"
  have w1: "well_sized cfg s1"
    by (rule momentum_predictor_well_sized(1)[OF assms(1)]) (simp add: m s1_def)
  have g1: "ghost_padded cfg s1"
    using assms(2) by (simp add: ghost_padded_def s1_def momentum_assembly_frame)
  have "rounds cfg (corr_iter cfg) s1 = Some s'"
    using assms(3) by (simp add: piso_iteration_def m piso_correctors_rounds flip: s1_def)
  from rounds_padded[OF w1 g1 this] show ?thesis .
qed

lemma piso_loop_padded:
  assumes "well_sized cfg s" "ghost_padded cfg s" "piso_loop cfg iter s = Some (iter', s')"
  shows "ghost_padded cfg s'"
  using assms
proof (induction cfg iter s rule: piso_loop.induct)
  case (1 cfg iter s)
  show ?case
  proof (cases "iter < tot_iter cfg \<and> maxErr s > tol cfg")
    case False
    then have "piso_loop cfg iter s = Some (iter, s)"
      by (subst piso_loop.simps) auto
    then show ?thesis using "1.prems" by simp
  next
    case True
    from piso_iteration_total[OF "1.prems"(1)] obtain s1 where
      s1: "piso_iteration cfg s = Some s1" "well_sized cfg s1" by blast
    have "piso_loop cfg iter s = piso_loop cfg (iter + 1) s1"
      using True s1(1) by (subst piso_loop.simps) simp
    then have "piso_loop cfg (iter + 1) s1 = Some (iter', s')" using "1.prems"(3) by simp
    from "1.IH"[OF True s1(1) s1(2) piso_iteration_padded[OF "1.prems"(1,2) s1(1)] this]
    show ?thesis .
  qed
qed

text \<open>
  Claim C4. In every timestep, on a state whose vectors have their declared sizes, the inner
  loop returns after at most \<open>tot_iter\<close> iterations, without failure, also when \<open>maxErr > tol\<close>
  still holds at exit (which happens only with the budget exhausted). The energy system is
  then assembled once from the state \<open>s1\<close> the loop returned, with no case distinction on
  convergence: every interior row is built from the face velocities, which are computed from
  the loop's final \<open>u\<close>, from its final \<open>bU\<close> and from its final pressure in the ghost-padded
  buffer (which agrees with \<open>p\<close> whenever it did at the start of the timestep), and from the
  properties at the temperature before the solve; the boundary rows are those of the file.
  The new temperature is what \<open>solveTridiagonal\<close> returns for that system, velocity and
  pressure are left as the loop returned them, and the timestep returns the state after the
  output region. The temperature calculator runs once per timestep.
\<close>

theorem timestep_always_completes:
  assumes "well_sized cfg s"
  shows "\<exists>iter s1 s2 aT bT cT dT.
           piso_loop cfg 0
             ((case source cfg of PISO_cpp \<Rightarrow> s\<lparr>T_old := T s, p_old := p s\<rparr> | Part_000 \<Rightarrow> s)
              \<lparr>maxErr := 1.0\<rparr>) = Some (iter, s1) \<and>
           iter \<le> tot_iter cfg \<and>
           (tol cfg < maxErr s1 \<longrightarrow> iter = tot_iter cfg) \<and>
           temperature_system cfg s1 = (aT, bT, cT, dT) \<and>
           length aT = N cfg \<and> length bT = N cfg \<and> length cT = N cfg \<and> length dT = N cfg \<and>
           (\<forall>i. 0 < i \<and> i < N cfg - 1 \<longrightarrow>
              (let u_l = 0.5 * (u s1 ! (i - 1) + u s1 ! i) + real_of_int (rhie_chow_on_off cfg) *
                     (- (1.0 / bU s1 ! (i - 1) + 1.0 / bU s1 ! i) / (8 * dz cfg) *
                      (p_storage s1 ! (i - 1) - 3 * p_storage s1 ! i + 3 * p_storage s1 ! (i + 1)
                       - p_storage s1 ! (i + 2)));
                   u_r = 0.5 * (u s1 ! i + u s1 ! (i + 1)) + real_of_int (rhie_chow_on_off cfg) *
                     (- (1.0 / bU s1 ! (i + 1) + 1.0 / bU s1 ! i) / (8 * dz cfg) *
                      (p_storage s1 ! i - 3 * p_storage s1 ! (i + 1) + 3 * p_storage s1 ! (i + 2)
                       - p_storage s1 ! (i + 3)));
                   Fl = (if u_l \<ge> 0 then rho (T s1 ! (i - 1)) else rho (T s1 ! i)) * u_l;
                   Fr = (if u_r \<ge> 0 then rho (T s1 ! i) else rho (T s1 ! (i + 1))) * u_r
               in case source cfg of
                    PISO_cpp \<Rightarrow>
                      (let rhoCp_dzdt = rho (T s1 ! i) * cp (T s1 ! i) * dz cfg / dt cfg;
                           Dl = 0.5 * (k_cond (T s1 ! i) + k_cond (T s1 ! (i - 1))) / dz cfg;
                           Dr = 0.5 * (k_cond (T s1 ! i) + k_cond (T s1 ! (i + 1))) / dz cfg;
                           C_l = Fl * (if u_l \<ge> 0 then cp (T s1 ! (i - 1)) else cp (T s1 ! i));
                           C_r = Fr * (if u_r \<ge> 0 then cp (T s1 ! i) else cp (T s1 ! (i + 1)))
                       in aT ! i = - Dl - max C_l 0 \<and>
                          cT ! i = - Dr + max (- C_r) 0 \<and>
                          bT ! i = (max C_r 0 - max (- C_l) 0) + Dl + Dr + rhoCp_dzdt \<and>
                          dT ! i = rhoCp_dzdt * T_old s1 ! i + St s1 ! i * dz cfg)
                  | Part_000 \<Rightarrow>
                      (let rhoCp_dt = rho (T s1 ! i) * cp (T s1 ! i) / dt cfg;
                           A_w = k_cond (T s1 ! i) / (dz cfg * dz cfg)
                                 + max ((Fl * cp (T s1 ! i)) / dz cfg) 0;
                           A_e = k_cond (T s1 ! i) / (dz cfg * dz cfg)
                                 + max (- ((Fr * cp (T s1 ! i)) / dz cfg)) 0
                       in aT ! i = - A_w \<and> cT ! i = - A_e \<and> bT ! i = A_w + A_e + rhoCp_dt \<and>
                          dT ! i = rhoCp_dt * T s1 ! i + St s1 ! i))) \<and>
           (2 \<le> N cfg \<longrightarrow>
              (case source cfg of
                 PISO_cpp \<Rightarrow> bT ! 0 = 1 \<and> cT ! 0 = - 1 \<and> dT ! 0 = 0 \<and>
                   aT ! (N cfg - 1) = - 1 \<and> bT ! (N cfg - 1) = 1 \<and> dT ! (N cfg - 1) = 0
               | Part_000 \<Rightarrow> bT ! 0 = 1 \<and> cT ! 0 = 0 \<and> dT ! 0 = T_inlet cfg \<and>
                   aT ! (N cfg - 1) = 0 \<and> bT ! (N cfg - 1) = 1 \<and> dT ! (N cfg - 1) = T_outlet cfg)) \<and>
           (ghost_padded cfg s \<longrightarrow> ghost_padded cfg s1) \<and>
           solveTridiagonal aT bT cT dT = Some (T s2) \<and>
           temperature_calculator cfg s1 = Some s2 \<and>
           u s2 = u s1 \<and> p s2 = p s1 \<and>
           timestep cfg it s = Some (output_region cfg it s2) \<and>
           stage_log (output_region cfg it s2) =
             stage_log s @ concat (replicate iter (iteration_log cfg))
               @ [Temperature_calculator, Output] \<and>
           count_list (concat (replicate iter (iteration_log cfg)) @ [Temperature_calculator, Output])
             Temperature_calculator = 1"
proof -
  from timestep_total[OF assms, of it] obtain iter s1 x where
    r: "piso_loop cfg 0
             ((case source cfg of PISO_cpp \<Rightarrow> s\<lparr>T_old := T s, p_old := p s\<rparr> | Part_000 \<Rightarrow> s)
              \<lparr>maxErr := 1.0\<rparr>) = Some (iter, s1)"
      "iter \<le> tot_iter cfg" "tol cfg < maxErr s1 \<longrightarrow> iter = tot_iter cfg"
      "stage_log s1 = stage_log s @ concat (replicate iter (iteration_log cfg))"
      "temperature_calculator cfg s1 =
             Some (s1\<lparr>T := x, stage_log := stage_log s1 @ [Temperature_calculator]\<rparr>)"
      "timestep cfg it s =
             Some (output_region cfg it
                     (s1\<lparr>T := x, stage_log := stage_log s1 @ [Temperature_calculator]\<rparr>))"
    by blast
  define s2 where "s2 = s1\<lparr>T := x, stage_log := stage_log s1 @ [Temperature_calculator]\<rparr>"
  obtain aT bT cT dT where sys: "temperature_system cfg s1 = (aT, bT, cT, dT)"
    using prod_cases4 by blast
  note R = temperature_system_rows[OF sys]
  have len: "length aT = N cfg \<and> length bT = N cfg \<and> length cT = N cfg \<and> length dT = N cfg"
    by (rule R(1))
  have gp: "ghost_padded cfg s \<longrightarrow> ghost_padded cfg s1"
  proof
    assume g: "ghost_padded cfg s"
    have g0: "ghost_padded cfg
             ((case source cfg of PISO_cpp \<Rightarrow> s\<lparr>T_old := T s, p_old := p s\<rparr> | Part_000 \<Rightarrow> s)
              \<lparr>maxErr := 1.0\<rparr>)"
      using g by (cases "source cfg") (simp_all add: ghost_padded_def)
    from piso_loop_padded[OF timestep_entry_well_sized[OF assms] g0 r(1)]
    show "ghost_padded cfg s1" .
  qed
  have sol: "solveTridiagonal aT bT cT dT = Some (T s2)"
  proof -
    from r(5) obtain x2 where x2: "solveTridiagonal aT bT cT dT = Some x2"
      "s1\<lparr>T := x2, stage_log := stage_log s1 @ [Temperature_calculator]\<rparr> =
       s1\<lparr>T := x, stage_log := stage_log s1 @ [Temperature_calculator]\<rparr>"
      by (auto simp: temperature_calculator_def sys split: option.splits)
    from arg_cong[OF x2(2), of T] have "x2 = x" by simp
    then show ?thesis using x2(1) by (simp add: s2_def)
  qed
  have f: "u s2 = u s1" "p s2 = p s1" by (simp_all add: s2_def)
  have l: "stage_log (output_region cfg it s2) =
             stage_log s @ concat (replicate iter (iteration_log cfg))
               @ [Temperature_calculator, Output]"
    by (simp add: output_region_frame s2_def r(4))
  have "count_list (iteration_log cfg) Temperature_calculator = 0"
    by (simp add: iteration_log_def count_list_concat_replicate)
  then have c: "count_list (concat (replicate iter (iteration_log cfg)) @ [Temperature_calculator, Output])
             Temperature_calculator = 1"
    by (simp add: count_list_concat_replicate)
  have rows: "let u_l = 0.5 * (u s1 ! (i - 1) + u s1 ! i) + real_of_int (rhie_chow_on_off cfg) *
                     (- (1.0 / bU s1 ! (i - 1) + 1.0 / bU s1 ! i) / (8 * dz cfg) *
                      (p_storage s1 ! (i - 1) - 3 * p_storage s1 ! i + 3 * p_storage s1 ! (i + 1)
                       - p_storage s1 ! (i + 2)));
                   u_r = 0.5 * (u s1 ! i + u s1 ! (i + 1)) + real_of_int (rhie_chow_on_off cfg) *
                     (- (1.0 / bU s1 ! (i + 1) + 1.0 / bU s1 ! i) / (8 * dz cfg) *
                      (p_storage s1 ! i - 3 * p_storage s1 ! (i + 1) + 3 * p_storage s1 ! (i + 2)
                       - p_storage s1 ! (i + 3)));
                   Fl = (if u_l \<ge> 0 then rho (T s1 ! (i - 1)) else rho (T s1 ! i)) * u_l;
                   Fr = (if u_r \<ge> 0 then rho (T s1 ! i) else rho (T s1 ! (i + 1))) * u_r
               in case source cfg of
                    PISO_cpp \<Rightarrow>
                      (let rhoCp_dzdt = rho (T s1 ! i) * cp (T s1 ! i) * dz cfg / dt cfg;
                           Dl = 0.5 * (k_cond (T s1 ! i) + k_cond (T s1 ! (i - 1))) / dz cfg;
                           Dr = 0.5 * (k_cond (T s1 ! i) + k_cond (T s1 ! (i + 1))) / dz cfg;
                           C_l = Fl * (if u_l \<ge> 0 then cp (T s1 ! (i - 1)) else cp (T s1 ! i));
                           C_r = Fr * (if u_r \<ge> 0 then cp (T s1 ! i) else cp (T s1 ! (i + 1)))
                       in aT ! i = - Dl - max C_l 0 \<and>
                          cT ! i = - Dr + max (- C_r) 0 \<and>
                          bT ! i = (max C_r 0 - max (- C_l) 0) + Dl + Dr + rhoCp_dzdt \<and>
                          dT ! i = rhoCp_dzdt * T_old s1 ! i + St s1 ! i * dz cfg)
                  | Part_000 \<Rightarrow>
                      (let rhoCp_dt = rho (T s1 ! i) * cp (T s1 ! i) / dt cfg;
                           A_w = k_cond (T s1 ! i) / (dz cfg * dz cfg)
                                 + max ((Fl * cp (T s1 ! i)) / dz cfg) 0;
                           A_e = k_cond (T s1 ! i) / (dz cfg * dz cfg)
                                 + max (- ((Fr * cp (T s1 ! i)) / dz cfg)) 0
                       in aT ! i = - A_w \<and> cT ! i = - A_e \<and> bT ! i = A_w + A_e + rhoCp_dt \<and>
                          dT ! i = rhoCp_dt * T s1 ! i + St s1 ! i)"
    if i: "0 < i" "i < N cfg - 1" for i
  proof -
    have iN: "i < N cfg" using i by simp
    note E = face_velocities_explicit[OF i(1), of cfg s1]
    show ?thesis
    proof (cases "source cfg")
      case PISO_cpp
      from R(2)[OF i] show ?thesis
        unfolding temperature_cell_def PISO_cpp F_l_def F_r_def E Let_def
        using iN by simp
    next
      case Part_000
      from R(2)[OF i] show ?thesis
        unfolding temperature_cell_def Part_000 F_l_def F_r_def E Let_def
        using iN by simp
    qed
  qed
  show ?thesis
    apply (rule exI[of _ iter], rule exI[of _ s1], rule exI[of _ s2])
    apply (rule exI[of _ aT], rule exI[of _ bT], rule exI[of _ cT], rule exI[of _ dT])
    apply (intro conjI)
    apply (rule r(1))
    apply (rule r(2))
    apply (rule r(3))
    apply (rule sys)
    apply (rule len[THEN conjunct1])
    apply (rule len[THEN conjunct2, THEN conjunct1])
    apply (rule len[THEN conjunct2, THEN conjunct2, THEN conjunct1])
    apply (rule len[THEN conjunct2, THEN conjunct2, THEN conjunct2])
    apply (intro allI impI, erule conjE, erule (1) rows)
    apply (rule impI, erule R(3))
    apply (rule gp)
    apply (rule sol)
    apply (rule r(5)[folded s2_def])
    apply (rule f(1))
    apply (rule f(2))
    apply (rule r(6)[folded s2_def])
    apply (rule l)
    apply (rule c)
    done
qed


theorem timestep_always_completes_witness:
  "well_sized Part_000_config (init Part_000_config) \<and>
   ghost_padded Part_000_config (init Part_000_config) \<and>
   (\<exists>iter s1 s2 aT bT cT dT.
       piso_loop Part_000_config 0 (init Part_000_config) = Some (iter, s1) \<and>
       iter \<le> 200 \<and>
       temperature_system Part_000_config s1 = (aT, bT, cT, dT) \<and>
       (let u_l = 0.5 * (u s1 ! 0 + u s1 ! 1) +
                  (- (1.0 / bU s1 ! 0 + 1.0 / bU s1 ! 1) / (8 * dz Part_000_config) *
                   (p_storage s1 ! 0 - 3 * p_storage s1 ! 1 + 3 * p_storage s1 ! 2
                    - p_storage s1 ! 3));
            Fl = (if u_l \<ge> 0 then rho (T s1 ! 0) else rho (T s1 ! 1)) * u_l
        in aT ! 1 = - (k_cond (T s1 ! 1) / (dz Part_000_config * dz Part_000_config)
                       + max ((Fl * cp (T s1 ! 1)) / dz Part_000_config) 0)) \<and>
       bT ! 0 = 1 \<and> cT ! 0 = 0 \<and> dT ! 0 = 300 \<and>
       aT ! 99 = 0 \<and> bT ! 99 = 1 \<and> dT ! 99 = 100 \<and>
       ghost_padded Part_000_config s1 \<and>
       solveTridiagonal aT bT cT dT = Some (T s2) \<and>
       temperature_calculator Part_000_config s1 = Some s2 \<and>
       timestep Part_000_config 0 (init Part_000_config) = Some (output_region Part_000_config 0 s2))"
proof -
  have w: "well_sized Part_000_config (init Part_000_config)"
    by (rule well_sized_init) (simp add: Part_000_config_def)
  have g: "ghost_padded Part_000_config (init Part_000_config)"
    by (simp add: ghost_padded_def init_def Part_000_config_def)
  have e: "(case source Part_000_config of
              PISO_cpp \<Rightarrow> (init Part_000_config)\<lparr>T_old := T (init Part_000_config),
                                                 p_old := p (init Part_000_config)\<rparr>
            | Part_000 \<Rightarrow> init Part_000_config)\<lparr>maxErr := 1.0\<rparr> = init Part_000_config"
    by (simp add: Part_000_config_def init_def)
  have c: "tot_iter Part_000_config = 200" "N Part_000_config = 100"
    "source Part_000_config = Part_000" "rhie_chow_on_off Part_000_config = 1"
    "T_inlet Part_000_config = 300" "T_outlet Part_000_config = 100"
    by (simp_all add: Part_000_config_def)
  from timestep_always_completes[OF w, of 0, unfolded e] obtain iter s1 s2 aT bT cT dT where
    r: "piso_loop Part_000_config 0 (init Part_000_config) = Some (iter, s1)"
      "iter \<le> tot_iter Part_000_config"
      "temperature_system Part_000_config s1 = (aT, bT, cT, dT)"
      "\<forall>i. 0 < i \<and> i < N Part_000_config - 1 \<longrightarrow>
              (let u_l = 0.5 * (u s1 ! (i - 1) + u s1 ! i) + real_of_int (rhie_chow_on_off Part_000_config) *
                     (- (1.0 / bU s1 ! (i - 1) + 1.0 / bU s1 ! i) / (8 * dz Part_000_config) *
                      (p_storage s1 ! (i - 1) - 3 * p_storage s1 ! i + 3 * p_storage s1 ! (i + 1)
                       - p_storage s1 ! (i + 2)));
                   u_r = 0.5 * (u s1 ! i + u s1 ! (i + 1)) + real_of_int (rhie_chow_on_off Part_000_config) *
                     (- (1.0 / bU s1 ! (i + 1) + 1.0 / bU s1 ! i) / (8 * dz Part_000_config) *
                      (p_storage s1 ! i - 3 * p_storage s1 ! (i + 1) + 3 * p_storage s1 ! (i + 2)
                       - p_storage s1 ! (i + 3)));
                   Fl = (if u_l \<ge> 0 then rho (T s1 ! (i - 1)) else rho (T s1 ! i)) * u_l;
                   Fr = (if u_r \<ge> 0 then rho (T s1 ! i) else rho (T s1 ! (i + 1))) * u_r
               in case source Part_000_config of
                    PISO_cpp \<Rightarrow>
                      (let rhoCp_dzdt = rho (T s1 ! i) * cp (T s1 ! i) * dz Part_000_config / dt Part_000_config;
                           Dl = 0.5 * (k_cond (T s1 ! i) + k_cond (T s1 ! (i - 1))) / dz Part_000_config;
                           Dr = 0.5 * (k_cond (T s1 ! i) + k_cond (T s1 ! (i + 1))) / dz Part_000_config;
                           C_l = Fl * (if u_l \<ge> 0 then cp (T s1 ! (i - 1)) else cp (T s1 ! i));
                           C_r = Fr * (if u_r \<ge> 0 then cp (T s1 ! i) else cp (T s1 ! (i + 1)))
                       in aT ! i = - Dl - max C_l 0 \<and>
                          cT ! i = - Dr + max (- C_r) 0 \<and>
                          bT ! i = (max C_r 0 - max (- C_l) 0) + Dl + Dr + rhoCp_dzdt \<and>
                          dT ! i = rhoCp_dzdt * T_old s1 ! i + St s1 ! i * dz Part_000_config)
                  | Part_000 \<Rightarrow>
                      (let rhoCp_dt = rho (T s1 ! i) * cp (T s1 ! i) / dt Part_000_config;
                           A_w = k_cond (T s1 ! i) / (dz Part_000_config * dz Part_000_config)
                                 + max ((Fl * cp (T s1 ! i)) / dz Part_000_config) 0;
                           A_e = k_cond (T s1 ! i) / (dz Part_000_config * dz Part_000_config)
                                 + max (- ((Fr * cp (T s1 ! i)) / dz Part_000_config)) 0
                       in aT ! i = - A_w \<and> cT ! i = - A_e \<and> bT ! i = A_w + A_e + rhoCp_dt \<and>
                          dT ! i = rhoCp_dt * T s1 ! i + St s1 ! i))"
      "2 \<le> N Part_000_config \<longrightarrow>
              (case source Part_000_config of
                 PISO_cpp \<Rightarrow> bT ! 0 = 1 \<and> cT ! 0 = - 1 \<and> dT ! 0 = 0 \<and>
                   aT ! (N Part_000_config - 1) = - 1 \<and> bT ! (N Part_000_config - 1) = 1 \<and>
                   dT ! (N Part_000_config - 1) = 0
               | Part_000 \<Rightarrow> bT ! 0 = 1 \<and> cT ! 0 = 0 \<and> dT ! 0 = T_inlet Part_000_config \<and>
                   aT ! (N Part_000_config - 1) = 0 \<and> bT ! (N Part_000_config - 1) = 1 \<and>
                   dT ! (N Part_000_config - 1) = T_outlet Part_000_config)"
      "ghost_padded Part_000_config (init Part_000_config) \<longrightarrow> ghost_padded Part_000_config s1"
      "solveTridiagonal aT bT cT dT = Some (T s2)"
      "temperature_calculator Part_000_config s1 = Some s2"
      "timestep Part_000_config 0 (init Part_000_config) = Some (output_region Part_000_config 0 s2)"
    by blast
  have i1: "(0::nat) < 1 \<and> 1 < N Part_000_config - 1" by (simp add: c)
  from r(4)[THEN spec, of 1, THEN mp, OF i1]
  have row: "let u_l = 0.5 * (u s1 ! 0 + u s1 ! 1) +
                  (- (1.0 / bU s1 ! 0 + 1.0 / bU s1 ! 1) / (8 * dz Part_000_config) *
                   (p_storage s1 ! 0 - 3 * p_storage s1 ! 1 + 3 * p_storage s1 ! 2
                    - p_storage s1 ! 3));
            Fl = (if u_l \<ge> 0 then rho (T s1 ! 0) else rho (T s1 ! 1)) * u_l
        in aT ! 1 = - (k_cond (T s1 ! 1) / (dz Part_000_config * dz Part_000_config)
                       + max ((Fl * cp (T s1 ! 1)) / dz Part_000_config) 0)"
    by (simp add: c Let_def numeral_2_eq_2 numeral_3_eq_3)
  have bnd: "bT ! 0 = 1" "cT ! 0 = 0" "dT ! 0 = 300" "aT ! 99 = 0" "bT ! 99 = 1" "dT ! 99 = 100"
    using r(5) by (simp_all add: c)
  have g1: "ghost_padded Part_000_config s1" using r(6) g by simp
  have le: "iter \<le> 200" using r(2) by (simp add: c)
  have "\<exists>iter s1 s2 aT bT cT dT.
       piso_loop Part_000_config 0 (init Part_000_config) = Some (iter, s1) \<and>
       iter \<le> 200 \<and>
       temperature_system Part_000_config s1 = (aT, bT, cT, dT) \<and>
       (let u_l = 0.5 * (u s1 ! 0 + u s1 ! 1) +
                  (- (1.0 / bU s1 ! 0 + 1.0 / bU s1 ! 1) / (8 * dz Part_000_config) *
                   (p_storage s1 ! 0 - 3 * p_storage s1 ! 1 + 3 * p_storage s1 ! 2
                    - p_storage s1 ! 3));
            Fl = (if u_l \<ge> 0 then rho (T s1 ! 0) else rho (T s1 ! 1)) * u_l
        in aT ! 1 = - (k_cond (T s1 ! 1) / (dz Part_000_config * dz Part_000_config)
                       + max ((Fl * cp (T s1 ! 1)) / dz Part_000_config) 0)) \<and>
       bT ! 0 = 1 \<and> cT ! 0 = 0 \<and> dT ! 0 = 300 \<and>
       aT ! 99 = 0 \<and> bT ! 99 = 1 \<and> dT ! 99 = 100 \<and>
       ghost_padded Part_000_config s1 \<and>
       solveTridiagonal aT bT cT dT = Some (T s2) \<and>
       temperature_calculator Part_000_config s1 = Some s2 \<and>
       timestep Part_000_config 0 (init Part_000_config) = Some (output_region Part_000_config 0 s2)"
    apply (rule exI[of _ iter], rule exI[of _ s1], rule exI[of _ s2])
    apply (rule exI[of _ aT], rule exI[of _ bT], rule exI[of _ cT], rule exI[of _ dT])
    apply (intro conjI)
    apply (rule r(1))
    apply (rule le)
    apply (rule r(3))
    apply (rule row)
    apply (rule bnd(1))
    apply (rule bnd(2))
    apply (rule bnd(3))
    apply (rule bnd(4))
    apply (rule bnd(5))
    apply (rule bnd(6))
    apply (rule g1)
    apply (rule r(7))
    apply (rule r(8))
    apply (rule r(9))
    done
  then show ?thesis using w g by (intro conjI)
qed

text \<open>
  Claim C8 says that nothing is written to the output stream in a timestep other than the
  last. The first timestep of \<^verbatim>\<open>PISO.cpp\<close> (\<open>it = 0\<close> of 10000) completes and leaves two inserted
  strings of two newlines each in the stream, which was empty before: the two insertions
  \<^verbatim>\<open>fout << "\n\n"\<close> stand after the closing brace of their \<^verbatim>\<open>if\<close>.
\<close>

theorem output_written_at_first_timestep:
  "\<exists>s'. timestep PISO_cpp_config 0 (init PISO_cpp_config) = Some s' \<and>
        fout (init PISO_cpp_config) = [] \<and>
        fout s' = [Text ''\<newline>\<newline>'', Text ''\<newline>\<newline>''] \<and>
        t_iter PISO_cpp_config = 10000"
proof -
  have w: "well_sized PISO_cpp_config (init PISO_cpp_config)"
    by (rule well_sized_init) (simp add: PISO_cpp_config_def)
  have ti: "t_iter PISO_cpp_config = 10000"
    by (simp add: t_iter_def std_round_def PISO_cpp_config_def)
  have f0: "fout (init PISO_cpp_config) = []" by (simp add: init_def)
  from timestep_total[OF w, of 0] obtain s1 x where
    r: "fout s1 = fout (init PISO_cpp_config)"
      "timestep PISO_cpp_config 0 (init PISO_cpp_config) =
             Some (output_region PISO_cpp_config 0
                     (s1\<lparr>T := x, stage_log := stage_log s1 @ [Temperature_calculator]\<rparr>))"
    by blast
  have "(0::int) \<noteq> t_iter PISO_cpp_config - 1" by (simp add: ti)
  from output_region_other_timesteps[OF this]
  have "fout (output_region PISO_cpp_config 0
                     (s1\<lparr>T := x, stage_log := stage_log s1 @ [Temperature_calculator]\<rparr>))
        = [Text ''\<newline>\<newline>'', Text ''\<newline>\<newline>'']"
    by (simp add: r(1) f0)
  then show ?thesis using r(2) f0 ti by blast
qed

section \<open>The convergence residual\<close>



text \<open>
  The velocity corrector on doubles, whatever values its vectors hold.
\<close>

lemma velocity_fold_double_inv:
  fixes h :: real and pp bb vel :: "double list" and m0 :: double
  assumes "1 \<le> k" "k \<le> n - 1" "length vel = n"
  defines "r \<equiv> fold (velocity_cell_double h pp bb) [1..<k] (vel, m0)"
  shows "length (fst r) = n \<and>
         (\<forall>i. \<not> (1 \<le> i \<and> i < k) \<longrightarrow> fst r ! i = vel ! i) \<and>
         (\<forall>i. 1 \<le> i \<and> i < k \<longrightarrow>
            fst r ! i = vel ! i - (pp ! (i + 1) - pp ! (i - 1)) / (Finite 2.0 * Finite h * bb ! i)) \<and>
         (m0 \<noteq> NaN \<longrightarrow> snd r \<noteq> NaN) \<and>
         \<not> snd r < m0 \<and>
         (\<forall>i. 1 \<le> i \<and> i < k \<longrightarrow> \<not> snd r < \<bar>fst r ! i - vel ! i\<bar>) \<and>
         (snd r = m0 \<or> (\<exists>i. 1 \<le> i \<and> i < k \<and> snd r = \<bar>fst r ! i - vel ! i\<bar>))"
  using assms(1,2) unfolding r_def
proof (induction k rule: dec_induct)
  case base
  then show ?case using assms(3) by (simp add: less_double_irrefl)
next
  case (step k)
  define r where "r = fold (velocity_cell_double h pp bb) [1..<k] (vel, m0)"
  define w where "w = fst r"
  define m where "m = snd r"
  have IH: "length w = n" "\<And>i. \<not> (1 \<le> i \<and> i < k) \<Longrightarrow> w ! i = vel ! i"
    "\<And>i. 1 \<le> i \<Longrightarrow> i < k \<Longrightarrow>
       w ! i = vel ! i - (pp ! (i + 1) - pp ! (i - 1)) / (Finite 2.0 * Finite h * bb ! i)"
    "m0 \<noteq> NaN \<Longrightarrow> m \<noteq> NaN" "\<not> m < m0"
    "\<And>i. 1 \<le> i \<Longrightarrow> i < k \<Longrightarrow> \<not> m < \<bar>w ! i - vel ! i\<bar>"
    "m = m0 \<or> (\<exists>i. 1 \<le> i \<and> i < k \<and> m = \<bar>w ! i - vel ! i\<bar>)"
    using step unfolding r_def w_def m_def by auto
  have kn: "k < n" "1 \<le> k" using step by auto
  have eq: "fold (velocity_cell_double h pp bb) [1..<Suc k] (vel, m0) = velocity_cell_double h pp bb k r"
    using step(1) unfolding r_def by simp
  define v where "v = vel ! k - (pp ! (k + 1) - pp ! (k - 1)) / (Finite 2.0 * Finite h * bb ! k)"
  define c where "c = \<bar>v - vel ! k\<bar>"
  have wk: "w ! k = vel ! k" using IH(2)[of k] by simp
  have r_eq: "r = (w, m)" by (simp add: w_def m_def)
  have vc: "velocity_cell_double h pp bb k r = (w[k := v], std_max m c)"
    unfolding r_eq using kn IH(1) by (simp add: velocity_cell_double_def Let_def v_def c_def wk)
  define w' where "w' = w[k := v]"
  define m' where "m' = std_max m c"
  have a: "length w' = n" using IH(1) by (simp add: w'_def)
  have b: "w' ! i = vel ! i" if "\<not> (1 \<le> i \<and> i < Suc k)" for i
  proof -
    have "i \<noteq> k" "\<not> (1 \<le> i \<and> i < k)" using that kn by auto
    then show ?thesis using IH(2)[of i] by (simp add: w'_def)
  qed
  have cc: "w' ! i = vel ! i - (pp ! (i + 1) - pp ! (i - 1)) / (Finite 2.0 * Finite h * bb ! i)"
    if "1 \<le> i" "i < Suc k" for i
  proof (cases "i = k")
    case True
    then show ?thesis using kn IH(1) by (simp add: w'_def v_def)
  next
    case False
    then have "i < k" using that by simp
    from IH(3)[OF that(1) this] show ?thesis using False by (simp add: w'_def)
  qed
  have ch: "\<bar>w' ! i - vel ! i\<bar> = (if i = k then c else \<bar>w ! i - vel ! i\<bar>)" for i
    using kn IH(1) by (simp add: w'_def c_def)
  have d: "m0 \<noteq> NaN \<Longrightarrow> m' \<noteq> NaN"
    unfolding m'_def using IH(4) std_max_props(1) by blast
  have e: "\<not> m' < m0" unfolding m'_def by (rule std_max_props(4)[OF IH(5)])
  have f: "\<not> m' < \<bar>w' ! i - vel ! i\<bar>" if "1 \<le> i" "i < Suc k" for i
  proof (cases "i = k")
    case True
    then show ?thesis unfolding ch m'_def by (simp add: std_max_props(2))
  next
    case False
    then have "i < k" using that by simp
    from IH(6)[OF that(1) this] show ?thesis unfolding ch m'_def using False
      by (simp add: std_max_props(4))
  qed
  have g: "m' = m0 \<or> (\<exists>i. 1 \<le> i \<and> i < Suc k \<and> m' = \<bar>w' ! i - vel ! i\<bar>)"
  proof (cases "m' = c")
    case True
    then have "1 \<le> k \<and> k < Suc k \<and> m' = \<bar>w' ! k - vel ! k\<bar>" using kn by (simp add: ch)
    then show ?thesis by blast
  next
    case False
    then have mm: "m' = m" using std_max_props(3)[of m c] by (simp add: m'_def)
    from IH(7) show ?thesis
    proof
      assume "m = m0"
      then show ?thesis using mm by simp
    next
      assume "\<exists>i. 1 \<le> i \<and> i < k \<and> m = \<bar>w ! i - vel ! i\<bar>"
      then obtain i where i: "1 \<le> i" "i < k" "m = \<bar>w ! i - vel ! i\<bar>" by blast
      then have "1 \<le> i \<and> i < Suc k \<and> m' = \<bar>w' ! i - vel ! i\<bar>" using mm by (simp add: ch)
      then show ?thesis by blast
    qed
  qed
  show ?case unfolding eq vc fst_conv snd_conv w'_def[symmetric] m'_def[symmetric]
    using a b cc d e f g by blast
qed


lemma velocity_corrector_double_residual:
  fixes h :: real and pp bb vel :: "double list"
  assumes n: "3 \<le> n" and len: "length vel = n"
  defines "w \<equiv> fst (velocity_corrector_double n h pp bb vel)"
    and "m \<equiv> snd (velocity_corrector_double n h pp bb vel)"
  shows "length w = n" "m \<noteq> NaN"
    "\<And>i. \<not> (1 \<le> i \<and> i < n - 1) \<Longrightarrow> w ! i = vel ! i"
    "\<And>i. 1 \<le> i \<Longrightarrow> i < n - 1 \<Longrightarrow>
       w ! i = vel ! i - (pp ! (i + 1) - pp ! (i - 1)) / (Finite 2.0 * Finite h * bb ! i)"
    "\<And>i. 1 \<le> i \<Longrightarrow> i < n - 1 \<Longrightarrow> \<not> m < \<bar>w ! i - vel ! i\<bar>"
    "m = Finite 0 \<or> (\<exists>i. 1 \<le> i \<and> i < n - 1 \<and> m = \<bar>w ! i - vel ! i\<bar>)"
    "(\<forall>i. 1 \<le> i \<and> i < n - 1 \<longrightarrow> \<bar>w ! i - vel ! i\<bar> \<noteq> NaN) \<Longrightarrow>
       (\<forall>i. 1 \<le> i \<and> i < n - 1 \<longrightarrow> \<bar>w ! i - vel ! i\<bar> \<le> m) \<and>
       (\<exists>i. 1 \<le> i \<and> i < n - 1 \<and> m = \<bar>w ! i - vel ! i\<bar>)"
proof -
  have k: "1 \<le> n - 1" using n by simp
  have z: "Finite 0.0 = Finite 0" by simp
  note inv' = velocity_fold_double_inv[OF k order_refl len, of h pp bb "Finite 0.0",
      folded velocity_corrector_double_def, folded w_def m_def, unfolded z]
  show l: "length w = n" using inv' by blast
  show mn: "m \<noteq> NaN" using inv' by simp
  show "\<And>i. \<not> (1 \<le> i \<and> i < n - 1) \<Longrightarrow> w ! i = vel ! i" using inv' by blast
  show "\<And>i. 1 \<le> i \<Longrightarrow> i < n - 1 \<Longrightarrow>
       w ! i = vel ! i - (pp ! (i + 1) - pp ! (i - 1)) / (Finite 2.0 * Finite h * bb ! i)"
    using inv' by blast
  show ub: "\<And>i. 1 \<le> i \<Longrightarrow> i < n - 1 \<Longrightarrow> \<not> m < \<bar>w ! i - vel ! i\<bar>" using inv' by blast
  show at: "m = Finite 0 \<or> (\<exists>i. 1 \<le> i \<and> i < n - 1 \<and> m = \<bar>w ! i - vel ! i\<bar>)"
    using inv' by blast
  show "(\<forall>i. 1 \<le> i \<and> i < n - 1 \<longrightarrow> \<bar>w ! i - vel ! i\<bar> \<le> m) \<and>
       (\<exists>i. 1 \<le> i \<and> i < n - 1 \<and> m = \<bar>w ! i - vel ! i\<bar>)"
    if nn: "\<forall>i. 1 \<le> i \<and> i < n - 1 \<longrightarrow> \<bar>w ! i - vel ! i\<bar> \<noteq> NaN"
  proof -
    have le: "\<bar>w ! i - vel ! i\<bar> \<le> m" if i: "1 \<le> i" "i < n - 1" for i
    proof -
      have "\<bar>w ! i - vel ! i\<bar> \<noteq> NaN" using nn i by blast
      from less_double_total[OF this mn] ub[OF i] this
      show ?thesis by (auto simp: less_eq_double_def)
    qed
    have ex: "\<exists>i. 1 \<le> i \<and> i < n - 1 \<and> m = \<bar>w ! i - vel ! i\<bar>"
      using at
    proof
      assume "\<exists>i. 1 \<le> i \<and> i < n - 1 \<and> m = \<bar>w ! i - vel ! i\<bar>"
      then show ?thesis .
    next
      assume m0: "m = Finite 0"
      have i1: "(1::nat) \<le> 1" "1 < n - 1" using n by simp_all
      have c1: "\<bar>w ! 1 - vel ! 1\<bar> \<noteq> NaN" using nn i1 by blast
      have "\<bar>w ! 1 - vel ! 1\<bar> \<le> Finite 0" using le[OF i1] m0 by simp
      moreover have "\<not> \<bar>w ! 1 - vel ! 1\<bar> < Finite 0" by (rule abs_double_nonneg[OF c1])
      ultimately have "\<bar>w ! 1 - vel ! 1\<bar> = Finite 0" by (simp add: less_eq_double_def)
      then have "1 \<le> (1::nat) \<and> 1 < n - 1 \<and> m = \<bar>w ! 1 - vel ! 1\<bar>" using i1 m0 by simp
      then show ?thesis by blast
    qed
    show ?thesis using le ex by blast
  qed
qed


text \<open>
  On numbers, with no division by zero, the velocity corrector on doubles computes what the
  velocity corrector on the reals computes.
\<close>

lemma velocity_cell_double_refines:
  assumes "i < length (u s)" "i + 1 < length (p_prime s)" "i < length (bU s)"
    and "dz cfg * bU s ! i \<noteq> 0"
  shows "velocity_cell_double (dz cfg) (map Finite (p_prime s)) (map Finite (bU s)) i
           (map Finite (u s), Finite (maxErr s)) =
         (map Finite (u (velocity_cell cfg i s)), Finite (maxErr (velocity_cell cfg i s)))"
proof -
  have nz: "2 * dz cfg * bU s ! i \<noteq> 0" using assms(4) by simp
  have i1: "i - 1 < length (p_prime s)" using assms(2) by simp
  show ?thesis
    using assms(1-3) i1 nz
    by (simp add: velocity_cell_double_def velocity_cell_def Let_def map_update)
qed

lemma velocity_corrector_double_refines:
  assumes w: "well_sized cfg s"
    and nz: "\<And>i. 1 \<le> i \<Longrightarrow> i < N cfg - 1 \<Longrightarrow> dz cfg * bU s ! i \<noteq> 0"
  shows "velocity_corrector_double (N cfg) (dz cfg) (map Finite (p_prime s)) (map Finite (bU s))
           (map Finite (u s)) =
         (map Finite (u (velocity_corrector cfg s)), Finite (maxErr (velocity_corrector cfg s)))"
proof -
  define s0 where "s0 = s\<lparr>maxErr := 0.0\<rparr>"
  have len: "length (u s) = N cfg" "length (p_prime s) = N cfg" "length (bU s) = N cfg"
    using w by (simp_all add: well_sized_def)
  have step: "fold (velocity_cell_double (dz cfg) (map Finite (p_prime s)) (map Finite (bU s))) [1..<k]
           (map Finite (u s), Finite 0.0) =
         (map Finite (u (fold (velocity_cell cfg) [1..<k] s0)),
          Finite (maxErr (fold (velocity_cell cfg) [1..<k] s0)))"
    if "k \<le> N cfg - 1" for k
    using that
  proof (induction k)
    case 0
    then show ?case by (simp add: s0_def)
  next
    case (Suc k)
    show ?case
    proof (cases "1 \<le> k")
      case False
      then show ?thesis by (simp add: s0_def)
    next
      case True
      define r where "r = fold (velocity_cell cfg) [1..<k] s0"
      have fr: "p_prime r = p_prime s" "bU r = bU s" "length (u r) = N cfg"
        unfolding r_def
        using fold_keeps[where f = "velocity_cell cfg" and g = p_prime, OF velocity_cell_frame(6)]
          fold_keeps[where f = "velocity_cell cfg" and g = bU, OF velocity_cell_frame(11)]
          fold_keeps[where f = "velocity_cell cfg" and g = "\<lambda>s. length (u s)", OF velocity_cell_frame(16)]
        by (simp_all add: s0_def len)
      have kk: "k < N cfg - 1" using Suc.prems by simp
      have IH: "fold (velocity_cell_double (dz cfg) (map Finite (p_prime s)) (map Finite (bU s))) [1..<k]
           (map Finite (u s), Finite 0.0) = (map Finite (u r), Finite (maxErr r))"
        using Suc.IH kk by (simp add: r_def)
      have up: "[1..<Suc k] = [1..<k] @ [k]" using True by simp
      have "fold (velocity_cell_double (dz cfg) (map Finite (p_prime s)) (map Finite (bU s))) [1..<Suc k]
           (map Finite (u s), Finite 0.0) =
            velocity_cell_double (dz cfg) (map Finite (p_prime s)) (map Finite (bU s)) k
              (fold (velocity_cell_double (dz cfg) (map Finite (p_prime s)) (map Finite (bU s))) [1..<k]
                 (map Finite (u s), Finite 0.0))"
        unfolding up by simp
      also have "\<dots> = velocity_cell_double (dz cfg) (map Finite (p_prime r)) (map Finite (bU r)) k
              (map Finite (u r), Finite (maxErr r))"
        unfolding IH fr ..
      also have "\<dots> = (map Finite (u (velocity_cell cfg k r)), Finite (maxErr (velocity_cell cfg k r)))"
        by (rule velocity_cell_double_refines) (use kk fr len nz[OF True kk] in simp_all)
      also have "velocity_cell cfg k r = fold (velocity_cell cfg) [1..<Suc k] s0"
        using True by (simp add: r_def)
      finally show ?thesis .
    qed
  qed
  show ?thesis
    using step[OF order_refl]
    by (simp add: velocity_corrector_double_def velocity_corrector_def Let_def s0_def)
qed


lemma corrector_round_bU:
  assumes "corrector_round cfg s = Some s'"
  shows "bU s' = bU s"
  using assms
  by (auto simp: corrector_round_def continuity_satisfactor_def velocity_corrector_frame
      pressure_corrector_frame split: option.splits prod.splits)

lemma rounds_bU:
  assumes "rounds cfg k s = Some s'"
  shows "bU s' = bU s"
  using assms
proof (induction k arbitrary: s)
  case 0
  then show ?case by simp
next
  case (Suc k)
  then obtain s1 where s1: "corrector_round cfg s = Some s1" "rounds cfg k s1 = Some s'"
    by (auto split: option.splits)
  from Suc.IH[OF s1(2)] corrector_round_bU[OF s1(1)] show ?case by simp
qed

text \<open>
  Claim C9, as amended. With at least one interior cell and at least one corrector round per
  iteration, an iteration of the inner loop ends with the velocity corrector of its last
  round. That corrector starts from the velocity the last round started with (the
  continuity satisfactor and the pressure corrector leave \<open>u\<close> alone), from the \<open>bU\<close> of the
  momentum predictor and from \<open>maxErr = 0\<close>, so what the momentum predictor and the earlier
  rounds changed does not enter the residual; and where no divisor \<open>2 * dz * bU[i]\<close> is zero,
  the residual and the velocity on the reals are those of the velocity corrector on doubles.
  On doubles, whatever the values in \<open>u\<close>, \<open>p_prime\<close> and \<open>bU\<close>: the \<open>maxErr\<close> the velocity
  corrector returns is never NaN; no interior change \<open>|u[i] - u_prev[i]|\<close> is greater than it;
  it is zero or the change of an interior cell. It is thus the maximum of the interior
  changes that are not NaN (\<^verbatim>\<open>std::max\<close> keeps \<open>maxErr\<close> when the change is NaN), and when no
  interior change is NaN it is the maximum of the interior changes.
\<close>

theorem residual_of_final_corrector_round:
  fixes cfg :: config and s :: state and h :: real and pp bb vel :: "double list"
  assumes "well_sized cfg s" "3 \<le> N cfg" "1 \<le> corr_iter cfg" "length vel = N cfg"
  shows "(\<exists>s1 s2 s3 s'.
            momentum_predictor cfg s = Some s1 \<and>
            rounds cfg (corr_iter cfg - 1) s1 = Some s2 \<and>
            map_option (pressure_corrector cfg) (continuity_satisfactor cfg s2) = Some s3 \<and>
            u s3 = u s2 \<and> bU s3 = bU s1 \<and>
            s' = velocity_corrector cfg s3 \<and>
            piso_iteration cfg s = Some s' \<and>
            ((\<forall>i. 1 \<le> i \<and> i < N cfg - 1 \<longrightarrow> dz cfg * bU s3 ! i \<noteq> 0) \<longrightarrow>
               velocity_corrector_double (N cfg) (dz cfg) (map Finite (p_prime s3))
                 (map Finite (bU s3)) (map Finite (u s3)) =
               (map Finite (u s'), Finite (maxErr s')))) \<and>
         (case velocity_corrector_double (N cfg) h pp bb vel of
            (w, m) \<Rightarrow>
              length w = N cfg \<and> m \<noteq> NaN \<and>
              (\<forall>i. 1 \<le> i \<and> i < N cfg - 1 \<longrightarrow>
                 w ! i = vel ! i - (pp ! (i + 1) - pp ! (i - 1)) / (Finite 2.0 * Finite h * bb ! i) \<and>
                 \<not> m < \<bar>w ! i - vel ! i\<bar>) \<and>
              (m = Finite 0 \<or> (\<exists>i. 1 \<le> i \<and> i < N cfg - 1 \<and> m = \<bar>w ! i - vel ! i\<bar>)) \<and>
              ((\<forall>i. 1 \<le> i \<and> i < N cfg - 1 \<longrightarrow> \<bar>w ! i - vel ! i\<bar> \<noteq> NaN) \<longrightarrow>
                 (\<forall>i. 1 \<le> i \<and> i < N cfg - 1 \<longrightarrow> \<bar>w ! i - vel ! i\<bar> \<le> m) \<and>
                 (\<exists>i. 1 \<le> i \<and> i < N cfg - 1 \<and> m = \<bar>w ! i - vel ! i\<bar>)))"
proof -
  from momentum_predictor_total[OF assms(1)] obtain s1 where
    m: "momentum_predictor cfg s = Some s1" by blast
  note w1 = momentum_predictor_well_sized(1)[OF assms(1) m]
  from rounds_total[OF w1, of "corr_iter cfg - 1"] obtain s2 where
    s2: "rounds cfg (corr_iter cfg - 1) s1 = Some s2" "well_sized cfg s2" by blast
  from continuity_satisfactor_total[OF s2(2)] obtain x where
    c: "continuity_satisfactor cfg s2 =
          Some (s2\<lparr>p_prime := x, stage_log := stage_log s2 @ [Continuity_satisfactor]\<rparr>)"
    and x: "length x = N cfg" by blast
  define sc where "sc = s2\<lparr>p_prime := x, stage_log := stage_log s2 @ [Continuity_satisfactor]\<rparr>"
  define s3 where "s3 = pressure_corrector cfg sc"
  define s' where "s' = velocity_corrector cfg s3"
  have wc: "well_sized cfg sc" using s2(2) x by (simp add: sc_def well_sized_def)
  have w3: "well_sized cfg s3" unfolding s3_def by (rule pressure_corrector_well_sized[OF wc])
  have a3: "map_option (pressure_corrector cfg) (continuity_satisfactor cfg s2) = Some s3"
    by (simp add: c s3_def sc_def)
  have u3: "u s3 = u s2" by (simp add: s3_def pressure_corrector_frame sc_def)
  have b3: "bU s3 = bU s1"
    using rounds_bU[OF s2(1)] by (simp add: s3_def pressure_corrector_frame sc_def)
  have r: "corrector_round cfg s2 = Some s'"
    by (simp add: corrector_round_def c s'_def s3_def sc_def)
  have ci: "corr_iter cfg = Suc (corr_iter cfg - 1)" using assms(3) by simp
  have "rounds cfg (Suc (corr_iter cfg - 1)) s1 = Some s'"
    by (simp only: rounds_snoc s2(1) option.case r)
  then have "rounds cfg (corr_iter cfg) s1 = Some s'"
    using ci by simp
  then have it: "piso_iteration cfg s = Some s'"
    by (simp add: piso_iteration_def m piso_correctors_rounds)
  have link: "(\<forall>i. 1 \<le> i \<and> i < N cfg - 1 \<longrightarrow> dz cfg * bU s3 ! i \<noteq> 0) \<longrightarrow>
               velocity_corrector_double (N cfg) (dz cfg) (map Finite (p_prime s3))
                 (map Finite (bU s3)) (map Finite (u s3)) =
               (map Finite (u s'), Finite (maxErr s'))"
    unfolding s'_def using velocity_corrector_double_refines[OF w3] by blast
  have A: "\<exists>s1 s2 s3 s'.
            momentum_predictor cfg s = Some s1 \<and>
            rounds cfg (corr_iter cfg - 1) s1 = Some s2 \<and>
            map_option (pressure_corrector cfg) (continuity_satisfactor cfg s2) = Some s3 \<and>
            u s3 = u s2 \<and> bU s3 = bU s1 \<and>
            s' = velocity_corrector cfg s3 \<and>
            piso_iteration cfg s = Some s' \<and>
            ((\<forall>i. 1 \<le> i \<and> i < N cfg - 1 \<longrightarrow> dz cfg * bU s3 ! i \<noteq> 0) \<longrightarrow>
               velocity_corrector_double (N cfg) (dz cfg) (map Finite (p_prime s3))
                 (map Finite (bU s3)) (map Finite (u s3)) =
               (map Finite (u s'), Finite (maxErr s')))"
    apply (rule exI[of _ s1], rule exI[of _ s2], rule exI[of _ s3], rule exI[of _ s'])
    apply (intro conjI)
    apply (rule m)
    apply (rule s2(1))
    apply (rule a3)
    apply (rule u3)
    apply (rule b3)
    apply (rule s'_def)
    apply (rule it)
    apply (rule link)
    done
  obtain w mm where vc: "velocity_corrector_double (N cfg) h pp bb vel = (w, mm)"
    by (cases "velocity_corrector_double (N cfg) h pp bb vel") auto
  note R = velocity_corrector_double_residual[OF assms(2,4), where h=h and pp=pp and bb=bb, unfolded vc fst_conv snd_conv]
  have B: "length w = N cfg \<and> mm \<noteq> NaN \<and>
              (\<forall>i. 1 \<le> i \<and> i < N cfg - 1 \<longrightarrow>
                 w ! i = vel ! i - (pp ! (i + 1) - pp ! (i - 1)) / (Finite 2.0 * Finite h * bb ! i) \<and>
                 \<not> mm < \<bar>w ! i - vel ! i\<bar>) \<and>
              (mm = Finite 0 \<or> (\<exists>i. 1 \<le> i \<and> i < N cfg - 1 \<and> mm = \<bar>w ! i - vel ! i\<bar>)) \<and>
              ((\<forall>i. 1 \<le> i \<and> i < N cfg - 1 \<longrightarrow> \<bar>w ! i - vel ! i\<bar> \<noteq> NaN) \<longrightarrow>
                 (\<forall>i. 1 \<le> i \<and> i < N cfg - 1 \<longrightarrow> \<bar>w ! i - vel ! i\<bar> \<le> mm) \<and>
                 (\<exists>i. 1 \<le> i \<and> i < N cfg - 1 \<and> mm = \<bar>w ! i - vel ! i\<bar>))"
    using R(1,2,4,5,6,7) by blast
  show ?thesis unfolding vc prod.case using A B by (rule conjI)
qed

text \<open>
  With a pressure correction that holds NaN in every cell, every interior velocity change of
  the round is NaN and the round ends with \<open>maxErr = 0\<close>, which is not the maximum of the
  changes.
\<close>

theorem residual_of_final_corrector_round_counterexample:
  "snd (velocity_corrector_double 100 (1 / 99) (replicate 100 NaN) (replicate 100 (Finite 1))
          (replicate 100 (Finite 0))) = Finite 0 \<and>
   list_all
     (\<lambda>i. \<bar>fst (velocity_corrector_double 100 (1 / 99) (replicate 100 NaN) (replicate 100 (Finite 1))
                 (replicate 100 (Finite 0))) ! i - replicate 100 (Finite 0) ! i\<bar> = NaN)
     [1..<99]"
proof -
  define pp where "pp = replicate 100 NaN"
  define bb where "bb = replicate 100 (Finite 1)"
  define vel where "vel = replicate 100 (Finite 0)"
  define w where "w = fst (velocity_corrector_double 100 (1 / 99) pp bb vel)"
  define m where "m = snd (velocity_corrector_double 100 (1 / 99) pp bb vel)"
  have l: "length vel = 100" by (simp add: vel_def)
  note R = velocity_corrector_double_residual[OF _ l, where h="1 / 99" and pp=pp and bb=bb, folded w_def m_def]
  have ch: "\<bar>w ! i - vel ! i\<bar> = NaN" if "1 \<le> i" "i < 99" for i
  proof -
    have "pp ! (i + 1) = NaN" using that by (simp add: pp_def)
    then have "w ! i = NaN" using R(4)[of i] that by simp
    then show ?thesis by simp
  qed
  have "m = Finite 0"
    using R(6) R(2) ch by auto
  moreover have "list_all (\<lambda>i. \<bar>w ! i - vel ! i\<bar> = NaN) [1..<99]"
    using ch by (simp add: list_all_iff)
  ultimately show ?thesis unfolding w_def m_def pp_def bb_def vel_def by simp
qed


section \<open>The momentum predictor\<close>

lemma momentum_cell_other:
  assumes "i \<noteq> j"
  shows "aU (momentum_cell cfg j s) ! i = aU s ! i" "bU (momentum_cell cfg j s) ! i = bU s ! i"
    "cU (momentum_cell cfg j s) ! i = cU s ! i" "dU (momentum_cell cfg j s) ! i = dU s ! i"
  using assms by (simp_all add: momentum_cell_def Let_def)

lemma momentum_fold_other:
  assumes "i \<notin> set js"
  shows "aU (fold (momentum_cell cfg) js s) ! i = aU s ! i"
    "bU (fold (momentum_cell cfg) js s) ! i = bU s ! i"
    "cU (fold (momentum_cell cfg) js s) ! i = cU s ! i"
    "dU (fold (momentum_cell cfg) js s) ! i = dU s ! i"
  using assms by (induction js arbitrary: s) (simp_all add: momentum_cell_other)

lemma momentum_cell_at:
  assumes "well_sized cfg s" "i < N cfg"
  shows "aU (momentum_cell cfg i s) ! i = - max (F_l cfg s i) 0.0 - D_l cfg s i"
    "cU (momentum_cell cfg i s) ! i = max (- F_r cfg s i) 0.0 - D_r cfg s i"
    "bU (momentum_cell cfg i s) ! i =
       (max (F_r cfg s i) 0.0 - max (- F_l cfg s i) 0.0)
       + rho (T s ! i) * dz cfg / dt cfg + D_l cfg s i + D_r cfg s i
       + mu (T s ! i) / K cfg * dz cfg
       + CF cfg * mu (T s ! i) * dz cfg / sqrt (K cfg) * \<bar>u s ! i\<bar>"
    "dU (momentum_cell cfg i s) ! i =
       - 0.5 * (p s ! (i + 1) - p s ! (i - 1))
       + rho (T s ! i) * u s ! i * dz cfg / dt cfg + Su s ! i * dz cfg"
  using assms by (simp_all add: momentum_cell_def Let_def well_sized_def)

lemma momentum_boundary_interior:
  assumes "0 < i" "i < N cfg - 1"
  shows "aU (momentum_boundary cfg s) ! i = aU s ! i" "bU (momentum_boundary cfg s) ! i = bU s ! i"
    "cU (momentum_boundary cfg s) ! i = cU s ! i" "dU (momentum_boundary cfg s) ! i = dU s ! i"
  using assms by (simp_all add: momentum_boundary_def Let_def)

lemma momentum_assembly_interior:
  assumes w: "well_sized cfg s" and i: "0 < i" "i < N cfg - 1"
  defines "s_i \<equiv> fold (momentum_cell cfg) [1..<i] s"
  shows "aU (momentum_assembly cfg s) ! i = - max (F_l cfg s_i i) 0 - D_l cfg s i"
    "cU (momentum_assembly cfg s) ! i = max (- F_r cfg s_i i) 0 - D_r cfg s i"
    "bU (momentum_assembly cfg s) ! i =
       (max (F_r cfg s_i i) 0 - max (- F_l cfg s_i i) 0)
       + rho (T s ! i) * dz cfg / dt cfg + D_l cfg s i + D_r cfg s i
       + mu (T s ! i) / K cfg * dz cfg
       + CF cfg * mu (T s ! i) * dz cfg / sqrt (K cfg) * \<bar>u s ! i\<bar>"
    "dU (momentum_assembly cfg s) ! i =
       - 0.5 * (p s ! (i + 1) - p s ! (i - 1))
       + rho (T s ! i) * u s ! i * dz cfg / dt cfg + Su s ! i * dz cfg"
proof -
  have split: "[1..<N cfg - 1] = [1..<i] @ i # [Suc i..<N cfg - 1]"
    using i by (metis One_nat_def Suc_leI upt_add_eq_append upt_conv_Cons le_add_diff_inverse less_imp_le_nat)
  have wi: "well_sized cfg s_i"
    unfolding s_i_def by (rule fold_invariant) (simp_all add: momentum_cell_well_sized w)
  have fr: "T s_i = T s" "u s_i = u s" "p s_i = p s" "Su s_i = Su s"
    unfolding s_i_def by (rule fold_keeps, simp add: momentum_cell_frame)+
  have D: "D_l cfg s_i i = D_l cfg s i" "D_r cfg s_i i = D_r cfg s i"
    by (cases "source cfg"; simp add: D_l_def D_r_def fr)+
  have iN: "i < N cfg" using i by simp
  have notin: "i \<notin> set [Suc i..<N cfg - 1]" by simp
  have loop: "fold (momentum_cell cfg) [1..<N cfg - 1] s =
              fold (momentum_cell cfg) [Suc i..<N cfg - 1] (momentum_cell cfg i s_i)"
    unfolding s_i_def by (subst split) simp
  note at = momentum_cell_at[OF wi iN, unfolded fr D]
  show "aU (momentum_assembly cfg s) ! i = - max (F_l cfg s_i i) 0 - D_l cfg s i"
    unfolding momentum_assembly_def momentum_boundary_interior(1)[OF i] loop
      momentum_fold_other(1)[OF notin] using at(1) by simp
  show "cU (momentum_assembly cfg s) ! i = max (- F_r cfg s_i i) 0 - D_r cfg s i"
    unfolding momentum_assembly_def momentum_boundary_interior(3)[OF i] loop
      momentum_fold_other(3)[OF notin] using at(2) by simp
  show "bU (momentum_assembly cfg s) ! i =
       (max (F_r cfg s_i i) 0 - max (- F_l cfg s_i i) 0)
       + rho (T s ! i) * dz cfg / dt cfg + D_l cfg s i + D_r cfg s i
       + mu (T s ! i) / K cfg * dz cfg
       + CF cfg * mu (T s ! i) * dz cfg / sqrt (K cfg) * \<bar>u s ! i\<bar>"
    unfolding momentum_assembly_def momentum_boundary_interior(2)[OF i] loop
      momentum_fold_other(2)[OF notin] using at(3) by simp
  show "dU (momentum_assembly cfg s) ! i =
       - 0.5 * (p s ! (i + 1) - p s ! (i - 1))
       + rho (T s ! i) * u s ! i * dz cfg / dt cfg + Su s ! i * dz cfg"
    unfolding momentum_assembly_def momentum_boundary_interior(4)[OF i] loop
      momentum_fold_other(4)[OF notin] using at(4) by simp
qed

lemma rho_ge: "x \<le> Tcrit \<Longrightarrow> 219 \<le> rho x"
proof -
  assume "x \<le> Tcrit"
  then have "0 \<le> 1 - x / Tcrit" by (simp add: Tcrit_def)
  moreover have "0 \<le> (1 - x / Tcrit) powr 0.5" by simp
  ultimately have "0 \<le> 275.32 * (1 - x / Tcrit) + 511.58 * (1 - x / Tcrit) powr 0.5"
    by simp
  then show ?thesis by (simp add: rho_def liquid_sodium_rho_def)
qed

lemma mu_pos: "0 < mu x"
  by (simp add: mu_def liquid_sodium_mu_def)

lemma mu_200_less_1: "mu 200 < 1"
proof -
  have "0 \<le> ln (200::real)" by simp
  then have "0 \<le> 1979 * ln (200::real)" by simp
  then have "- (146257 / 8) < 1979 * ln (200::real)" by linarith
  then have "- 6.4406 - 0.3958 * ln (200::real) + 556.835 / 200 < 0" by simp
  then show ?thesis by (simp add: mu_def liquid_sodium_mu_def)
qed


text \<open>
  Claim C3 gives the diffusive conductances as the averaged viscosity over \<open>dz\<close>, which is
  what \<^verbatim>\<open>PISO.cpp\<close> computes (lemma \<open>momentum_assembly_interior_PISO_cpp\<close>). The second PISO
  file averages the density instead. In its first momentum assembly (initial state, 200 K
  everywhere), at cell 1, \<open>aU[1] = -max(F_l, 0) - 0.5 * (rho(200) + rho(200)) / dz\<close>, which
  is not \<open>-max(F_l, 0) - 0.5 * (mu(T[1]) + mu(T[0])) / dz\<close>.
\<close>

theorem part_000_conductance_from_density:
  "T (init Part_000_config) ! 1 = 200 \<and> T (init Part_000_config) ! 0 = 200 \<and>
   aU (momentum_assembly Part_000_config (init Part_000_config)) ! 1 =
     - max (F_l Part_000_config (init Part_000_config) 1) 0
     - 0.5 * (rho 200 + rho 200) / dz Part_000_config \<and>
   aU (momentum_assembly Part_000_config (init Part_000_config)) ! 1 \<noteq>
     - max (F_l Part_000_config (init Part_000_config) 1) 0
     - 0.5 * (mu (T (init Part_000_config) ! 1) + mu (T (init Part_000_config) ! 0))
       / dz Part_000_config"
proof -
  have w: "well_sized Part_000_config (init Part_000_config)"
    by (rule well_sized_init) (simp add: Part_000_config_def)
  have n: "N Part_000_config = 100" "T_init Part_000_config = 200"
    "source Part_000_config = Part_000"
    by (simp_all add: Part_000_config_def)
  have i: "(0::nat) < 1" "1 < N Part_000_config - 1" by (simp_all add: n)
  have t: "T (init Part_000_config) ! 1 = 200" "T (init Part_000_config) ! 0 = 200"
    by (simp_all add: init_def n)
  have dzv: "dz Part_000_config = 1 / 99" by (simp add: dz_def Part_000_config_def)
  have D: "D_l Part_000_config (init Part_000_config) 1 = 0.5 * (rho 200 + rho 200) / dz Part_000_config"
    using t by (simp add: D_l_def n)
  have a: "aU (momentum_assembly Part_000_config (init Part_000_config)) ! 1 =
     - max (F_l Part_000_config (init Part_000_config) 1) 0
     - 0.5 * (rho 200 + rho 200) / dz Part_000_config"
  proof -
    have f: "fold (momentum_cell Part_000_config) [1..<1] (init Part_000_config) = init Part_000_config"
      by simp
    show ?thesis by (rule momentum_assembly_interior(1)[OF w i, unfolded D f])
  qed
  have "219 \<le> rho 200" by (rule rho_ge) (simp add: Tcrit_def)
  then have ne: "rho 200 \<noteq> mu 200" using mu_200_less_1 by simp
  have b: "aU (momentum_assembly Part_000_config (init Part_000_config)) ! 1 \<noteq>
     - max (F_l Part_000_config (init Part_000_config) 1) 0
     - 0.5 * (mu (T (init Part_000_config) ! 1) + mu (T (init Part_000_config) ! 0))
       / dz Part_000_config"
    unfolding a t using ne by (simp add: dzv)
  show ?thesis using t a b by blast
qed

section \<open>Boundary velocities\<close>

lemma momentum_boundary_rows:
  assumes "well_sized cfg s" "2 \<le> N cfg"
  defines "s1 \<equiv> momentum_assembly cfg s"
  shows "cU s1 ! 0 = 0" "dU s1 ! 0 = bU s1 ! 0 * u_inlet cfg"
    "aU s1 ! (N cfg - 1) = 0" "dU s1 ! (N cfg - 1) = bU s1 ! (N cfg - 1) * u_outlet cfg"
proof -
  define r where "r = fold (momentum_cell cfg) [1..<N cfg - 1] s"
  have w: "well_sized cfg r"
    unfolding r_def by (rule fold_invariant) (simp_all add: momentum_cell_well_sized assms(1))
  then have l: "length (aU r) = N cfg" "length (bU r) = N cfg" "length (cU r) = N cfg"
    "length (dU r) = N cfg" by (simp_all add: well_sized_def)
  have ne: "0 \<noteq> N cfg - 1" "0 < N cfg" "N cfg - 1 < N cfg" using assms(2) by simp_all
  have s1: "s1 = momentum_boundary cfg r" by (simp add: s1_def momentum_assembly_def r_def)
  show "cU s1 ! 0 = 0" using l ne by (simp add: s1 momentum_boundary_def Let_def)
  show "dU s1 ! 0 = bU s1 ! 0 * u_inlet cfg"
    using l ne by (simp add: s1 momentum_boundary_def Let_def)
  show "aU s1 ! (N cfg - 1) = 0" using l ne by (simp add: s1 momentum_boundary_def Let_def)
  show "dU s1 ! (N cfg - 1) = bU s1 ! (N cfg - 1) * u_outlet cfg"
    using l ne by (simp add: s1 momentum_boundary_def Let_def)
qed

lemma momentum_predictor_boundary:
  assumes w: "well_sized cfg s" and n: "2 \<le> N cfg"
    and piv: "pivots_nonzero (aU (momentum_assembly cfg s)) (bU (momentum_assembly cfg s))
                (cU (momentum_assembly cfg s)) (dU (momentum_assembly cfg s))"
  shows "\<exists>s'. momentum_predictor cfg s = Some s' \<and> u s' ! 0 = u_inlet cfg \<and>
              u s' ! (N cfg - 1) = u_outlet cfg"
proof -
  define s1 where "s1 = momentum_assembly cfg s"
  have w1: "well_sized cfg s1" unfolding s1_def by (rule momentum_assembly_well_sized[OF w])
  then have len: "length (aU s1) = N cfg" "length (bU s1) = N cfg" "length (cU s1) = N cfg"
    "length (dU s1) = N cfg" by (simp_all add: well_sized_def)
  have n1: "1 \<le> N cfg" using n by simp
  note R = thomas_rows[OF len n1 piv[folded s1_def]]
  note B = momentum_boundary_rows[OF w n, folded s1_def]
  define x where "x = backward_substitution (fst (forward_elimination (aU s1) (bU s1) (cU s1) (dU s1)))
                   (snd (forward_elimination (aU s1) (bU s1) (cU s1) (dU s1))) (N cfg)"
  have b0: "bU s1 ! 0 \<noteq> 0"
    using pivots_nonzeroD[OF piv[folded s1_def], of 0] len n by (simp add: pivot_def)
  have bl: "bU s1 ! (N cfg - 1) \<noteq> 0"
    using pivots_nonzeroD[OF piv[folded s1_def], of "N cfg - 1"] len n B(3) by (simp add: pivot_def)
  have "bU s1 ! 0 * x ! 0 + cU s1 ! 0 * x ! 1 = dU s1 ! 0" using R(3)[OF n] by (simp add: x_def)
  then have x0: "x ! 0 = u_inlet cfg" using B(1,2) b0 by simp
  have "aU s1 ! (N cfg - 1) * x ! (N cfg - 2) + bU s1 ! (N cfg - 1) * x ! (N cfg - 1) = dU s1 ! (N cfg - 1)"
    using R(5)[OF n] by (simp add: x_def)
  then have xl: "x ! (N cfg - 1) = u_outlet cfg" using B(3,4) bl by simp
  have "momentum_predictor cfg s = Some (s1\<lparr>u := x, stage_log := stage_log s1 @ [Momentum_predictor]\<rparr>)"
    using R(1) by (simp add: momentum_predictor_def Let_def x_def flip: s1_def)
  then show ?thesis using x0 xl by simp
qed

lemma SIMPLEC_cell_sized: "sized4 n sys \<Longrightarrow> sized4 n (SIMPLEC_cell dx dtime perm cf vel pres temp ix sys)"
  by (cases sys) (simp add: SIMPLEC_cell_def sized4_def Let_def)

lemma SIMPLEC_momentum_predictor_boundary:
  assumes n: "2 \<le> Nx"
    and sys: "SIMPLEC_momentum_system Nx dx dtime perm cf uin vel pres temp = (a, b, c, d)"
    and piv: "pivots_nonzero a b c d"
  shows "\<exists>x. SIMPLEC_momentum_predictor Nx dx dtime perm cf uin vel pres temp = Some x \<and>
             x ! 0 = uin \<and> x ! (Nx - 1) = x ! (Nx - 2)"
proof -
  obtain a0 b0 c0 d0 where f: "fold (SIMPLEC_cell dx dtime perm cf vel pres temp) [1..<Nx - 1]
             (replicate Nx 0, replicate Nx 0, replicate Nx 0, replicate Nx 0) = (a0, b0, c0, d0)"
    using prod_cases4 by blast
  have "sized4 Nx (fold (SIMPLEC_cell dx dtime perm cf vel pres temp) [1..<Nx - 1]
             (replicate Nx 0, replicate Nx 0, replicate Nx 0, replicate Nx 0))"
    by (rule fold_invariant) (erule SIMPLEC_cell_sized, simp add: sized4_def)
  then have l0: "length a0 = Nx" "length b0 = Nx" "length c0 = Nx" "length d0 = Nx"
    unfolding f by (simp_all add: sized4_def)
  have abcd: "a = a0[Nx - 1 := - 1]" "b = b0[0 := 1, Nx - 1 := 1]" "c = c0[0 := 0]"
    "d = d0[0 := uin, Nx - 1 := 0]"
    using sys unfolding SIMPLEC_momentum_system_def f by simp_all
  have len: "length a = Nx" "length b = Nx" "length c = Nx" "length d = Nx"
    by (simp_all add: abcd l0)
  have ne: "0 \<noteq> Nx - 1" "0 < Nx" "Nx - 1 < Nx" using n by simp_all
  have rows: "b ! 0 = 1" "c ! 0 = 0" "d ! 0 = uin" "a ! (Nx - 1) = - 1" "b ! (Nx - 1) = 1"
    "d ! (Nx - 1) = 0"
    using l0 ne by (simp_all add: abcd)
  have n1: "1 \<le> Nx" using n by simp
  note R = thomas_rows[OF len n1 piv]
  define x where "x = backward_substitution (fst (forward_elimination a b c d))
                   (snd (forward_elimination a b c d)) Nx"
  have "b ! 0 * x ! 0 + c ! 0 * x ! 1 = d ! 0" using R(3)[OF n] by (simp add: x_def)
  then have x0: "x ! 0 = uin" by (simp add: rows)
  have "a ! (Nx - 1) * x ! (Nx - 2) + b ! (Nx - 1) * x ! (Nx - 1) = d ! (Nx - 1)"
    using R(5)[OF n] by (simp add: x_def)
  then have xl: "x ! (Nx - 1) = x ! (Nx - 2)" unfolding rows by simp
  have "SIMPLEC_momentum_predictor Nx dx dtime perm cf uin vel pres temp = Some x"
    using R(1) by (simp add: SIMPLEC_momentum_predictor_def sys x_def)
  then show ?thesis using x0 xl by simp
qed

text \<open>
  Claim C6, as amended. In exact arithmetic and under the precondition of the solver, that
  no pivot of the assembled system is zero: after the momentum-predictor solve of the PISO
  program, on a state of the declared sizes with at least two cells, \<open>u[0]\<close> equals \<open>u_inlet\<close>
  and \<open>u[N - 1]\<close> equals \<open>u_outlet\<close>; after the momentum solve of the SIMPLEC program (the
  zero-gradient variant), \<open>u[0]\<close> equals \<open>u_inlet\<close> and \<open>u[Nx - 1]\<close> equals \<open>u[Nx - 2]\<close>.
\<close>

theorem boundary_velocities_after_momentum_solve:
  "(well_sized cfg s \<and> 2 \<le> N cfg \<and>
    pivots_nonzero (aU (momentum_assembly cfg s)) (bU (momentum_assembly cfg s))
      (cU (momentum_assembly cfg s)) (dU (momentum_assembly cfg s)) \<longrightarrow>
    (\<exists>s'. momentum_predictor cfg s = Some s' \<and> u s' ! 0 = u_inlet cfg \<and>
          u s' ! (N cfg - 1) = u_outlet cfg)) \<and>
   (2 \<le> Nx \<and>
    (case SIMPLEC_momentum_system Nx dx dtime perm cf uin vel pres temp of
       (a, b, c, d) \<Rightarrow> pivots_nonzero a b c d) \<longrightarrow>
    (\<exists>x. SIMPLEC_momentum_predictor Nx dx dtime perm cf uin vel pres temp = Some x \<and>
         x ! 0 = uin \<and> x ! (Nx - 1) = x ! (Nx - 2)))"
proof (intro conjI impI)
  assume "well_sized cfg s \<and> 2 \<le> N cfg \<and>
    pivots_nonzero (aU (momentum_assembly cfg s)) (bU (momentum_assembly cfg s))
      (cU (momentum_assembly cfg s)) (dU (momentum_assembly cfg s))"
  then show "\<exists>s'. momentum_predictor cfg s = Some s' \<and> u s' ! 0 = u_inlet cfg \<and>
          u s' ! (N cfg - 1) = u_outlet cfg"
    using momentum_predictor_boundary by blast
next
  assume h: "2 \<le> Nx \<and>
    (case SIMPLEC_momentum_system Nx dx dtime perm cf uin vel pres temp of
       (a, b, c, d) \<Rightarrow> pivots_nonzero a b c d)"
  obtain a b c d where sys: "SIMPLEC_momentum_system Nx dx dtime perm cf uin vel pres temp = (a, b, c, d)"
    using prod_cases4 by blast
  with h have "pivots_nonzero a b c d" by simp
  from SIMPLEC_momentum_predictor_boundary[OF _ sys this] h
  show "\<exists>x. SIMPLEC_momentum_predictor Nx dx dtime perm cf uin vel pres temp = Some x \<and>
         x ! 0 = uin \<and> x ! (Nx - 1) = x ! (Nx - 2)"
    by blast
qed

text \<open>
  Without them the boundary values can be lost. A right-hand side that is NaN in its first
  and last entry gives NaN in the first and last entry of the solution.
\<close>

lemma solveTridiagonal_NaN_ends:
  fixes a b c d :: "double list"
  assumes len: "length a = n" "length b = n" "length c = n" "length d = n" and n: "2 \<le> n"
    and d0: "d ! 0 = NaN" and dl: "d ! (n - 1) = NaN"
  shows "\<exists>x. solveTridiagonal a b c d = Some x \<and> length x = n \<and> x ! 0 = NaN \<and> x ! (n - 1) = NaN"
proof -
  define cs where "cs = fst (forward_elimination a b c d)"
  define ds where "ds = snd (forward_elimination a b c d)"
  define x where "x = backward_substitution cs ds n"
  have lb: "1 \<le> length b" and n1: "1 \<le> n" using len n by simp_all
  note F = forward_elimination_props[where a=a and b=b and c=c and d=d, OF lb, folded cs_def ds_def, unfolded len]
  note B = backward_substitution_props[where cs=cs and ds=ds, OF n1, folded x_def]
  have sol: "solveTridiagonal a b c d = Some x"
    using len n by (simp add: solveTridiagonal_def Let_def x_def cs_def ds_def)
  have "ds ! 0 = NaN" using F(4) d0 by simp
  moreover have "x ! 0 = ds ! 0 - cs ! 0 * x ! (0 + 1)" using B(3)[of 0] n by simp
  ultimately have x0: "x ! 0 = NaN" by simp
  have "1 \<le> n - 1" "n - 1 < n" using n by simp_all
  from F(5)[OF this] have "ds ! (n - 1) = NaN" using dl by simp
  then have xl: "x ! (n - 1) = NaN" using B(2) by simp
  show ?thesis using sol B(1) x0 xl by blast
qed

text \<open>
  The second PISO file (\<open>N = 100\<close>, \<open>dz = 1 / 99\<close>, \<open>dt = 0.001\<close>, both boundary velocities \<open>0\<close>)
  with NaN in the temperature field: the assembly loop leaves NaN in every interior entry
  (each has a factor \<open>rho(T[i])\<close> or a term \<open>D_l\<close>, \<open>D_r\<close>), the boundary rows get
  \<open>bU[0] = bU[N - 1] = NaN\<close> and \<open>dU[0] = dU[N - 1] = NaN * 0 = NaN\<close>, and the solve returns NaN
  in \<open>u[0]\<close> and in \<open>u[N - 1]\<close>, not the boundary velocities.
\<close>

theorem boundary_velocities_after_momentum_solve_counterexample:
  "map_option (\<lambda>x. (x ! 0, x ! 99))
     (momentum_solve_double 100 (1 / 99) 0.001 0 0 (replicate 100 NaN)
        ((replicate 100 NaN)[0 := Finite 0], replicate 100 NaN,
         (replicate 100 NaN)[99 := Finite 0], replicate 100 NaN)) = Some (NaN, NaN) \<and>
   NaN \<noteq> Finite 0"
proof -
  define sys where "sys = momentum_boundary_double 100 (1 / 99) 0.001 0 0 (replicate 100 NaN)
        ((replicate 100 NaN)[0 := Finite 0], replicate 100 NaN,
         (replicate 100 NaN)[99 := Finite 0], replicate 100 NaN)"
  define a where "a = (replicate 100 NaN)[0 := Finite 0, 99 := Finite 0]"
  define b where "b = (replicate 100 NaN)[0 := NaN, 99 := NaN]"
  define c where "c = (replicate 100 NaN)[99 := Finite 0, 0 := Finite 0]"
  define d where "d = (replicate 100 NaN)[0 := NaN, 99 := NaN]"
  note v = a_def b_def c_def d_def
  have abcd: "sys = (a, b, c, d)"
    unfolding sys_def v by (simp add: momentum_boundary_double_def Let_def property_NaN)
  have len: "length a = 100" "length b = 100" "length c = 100" "length d = 100"
    by (simp_all add: v)
  have e: "d ! 0 = NaN" "d ! (100 - 1) = NaN" by (simp_all add: v)
  from solveTridiagonal_NaN_ends[OF len _ e] obtain x where
    x: "solveTridiagonal a b c d = Some x" "x ! 0 = NaN" "x ! (100 - 1) = NaN" by auto
  have "momentum_solve_double 100 (1 / 99) 0.001 0 0 (replicate 100 NaN)
        ((replicate 100 NaN)[0 := Finite 0], replicate 100 NaN,
         (replicate 100 NaN)[99 := Finite 0], replicate 100 NaN) = Some x"
    unfolding momentum_solve_double_def sys_def[symmetric] abcd using x(1) by simp
  then show ?thesis using x(2,3) by simp
qed

section \<open>Diagonal dominance\<close>

text \<open>
  The precondition of the solver holds for a diagonally dominant system: strictly dominant
  in row 0 and in every row without a subdiagonal entry, at least weakly dominant in the
  other rows.
\<close>

lemma weakly_dominant_pivots_nonzero:
  fixes a b c d :: "real list"
  assumes len: "length a = n" "length b = n" "length c = n" "length d = n" and n1: "1 \<le> n"
    and row0: "\<bar>c ! 0\<bar> < \<bar>b ! 0\<bar>"
    and rows: "\<And>i. 1 \<le> i \<Longrightarrow> i < n \<Longrightarrow>
                 \<bar>a ! i\<bar> + \<bar>c ! i\<bar> < \<bar>b ! i\<bar> \<or> (a ! i \<noteq> 0 \<and> \<bar>a ! i\<bar> + \<bar>c ! i\<bar> \<le> \<bar>b ! i\<bar>)"
  shows "pivots_nonzero a b c d"
proof -
  define cs where "cs = fst (forward_elimination a b c d)"
  have lb: "1 \<le> length b" using len n1 by simp
  note F = forward_elimination_props[where a=a and b=b and c=c and d=d, OF lb, folded cs_def, unfolded len]
  have inv: "\<bar>cs ! i\<bar> < 1 \<and> pivot a b c d i \<noteq> 0" if "i < n" for i
    using that
  proof (induction i)
    case 0
    have b0: "b ! 0 \<noteq> 0" using row0 by auto
    have "\<bar>cs ! 0\<bar> = \<bar>c ! 0\<bar> / \<bar>b ! 0\<bar>" by (simp add: F(3))
    also have "\<dots> < 1" using row0 b0 by simp
    finally show ?case using b0 by (simp add: pivot_def)
  next
    case (Suc j)
    define i where "i = Suc j"
    have i: "1 \<le> i" "i < n" using Suc.prems by (simp_all add: i_def)
    have ij: "i - 1 = j" "i - Suc 0 = j" by (simp_all add: i_def)
    have IH: "\<bar>cs ! j\<bar> < 1" using Suc.IH Suc.prems by simp
    define m where "m = b ! i - a ! i * cs ! j"
    have tri: "\<bar>b ! i\<bar> - \<bar>a ! i * cs ! j\<bar> \<le> \<bar>m\<bar>"
      unfolding m_def by (rule abs_triangle_ineq2)
    have cm: "\<bar>c ! i\<bar> < \<bar>m\<bar>"
    proof (cases "\<bar>a ! i\<bar> + \<bar>c ! i\<bar> < \<bar>b ! i\<bar>")
      case True
      have "\<bar>a ! i * cs ! j\<bar> \<le> \<bar>a ! i\<bar>" using IH by (simp add: abs_mult mult_left_le)
      then show ?thesis using tri True by linarith
    next
      case False
      then have w: "a ! i \<noteq> 0" "\<bar>a ! i\<bar> + \<bar>c ! i\<bar> \<le> \<bar>b ! i\<bar>" using rows[OF i] by auto
      have "\<bar>a ! i\<bar> * \<bar>cs ! j\<bar> < \<bar>a ! i\<bar> * 1"
        by (rule mult_strict_left_mono) (use IH w(1) in simp_all)
      then have "\<bar>a ! i * cs ! j\<bar> < \<bar>a ! i\<bar>" by (simp add: abs_mult)
      then show ?thesis using tri w(2) by linarith
    qed
    then have m0: "m \<noteq> 0" by auto
    have "cs ! i = c ! i / m" using F(5)[OF i(1,2)] by (simp add: m_def ij)
    then have "\<bar>cs ! i\<bar> = \<bar>c ! i\<bar> / \<bar>m\<bar>" by simp
    also have "\<dots> < 1" using cm m0 by simp
    finally have "\<bar>cs ! i\<bar> < 1" .
    moreover have "pivot a b c d i = m" using i by (simp add: pivot_def m_def cs_def ij)
    ultimately show ?case using m0 by (simp add: i_def)
  qed
  then show ?thesis by (simp add: pivots_nonzero_def list_all_iff len)
qed

lemma dominant_pivots_nonzero:
  fixes a b c d :: "real list"
  assumes len: "length a = n" "length b = n" "length c = n" "length d = n" and n1: "1 \<le> n"
    and row0: "\<bar>c ! 0\<bar> < \<bar>b ! 0\<bar>"
    and rows: "\<And>i. 1 \<le> i \<Longrightarrow> i < n \<Longrightarrow> \<bar>a ! i\<bar> + \<bar>c ! i\<bar> < \<bar>b ! i\<bar>"
  shows "pivots_nonzero a b c d"
proof (rule weakly_dominant_pivots_nonzero[OF len n1 row0])
  fix i assume "1 \<le> i" "i < n"
  then show "\<bar>a ! i\<bar> + \<bar>c ! i\<bar> < \<bar>b ! i\<bar> \<or> (a ! i \<noteq> 0 \<and> \<bar>a ! i\<bar> + \<bar>c ! i\<bar> \<le> \<bar>b ! i\<bar>)"
    using rows by blast
qed

lemma uniform_face_fluxes:
  assumes "u s = replicate n 0.001" "p_storage s = replicate (n + 2) pr" "T s = replicate n temp"
    and i: "0 < i" "i < n - 1"
  shows "F_l cfg s i = rho temp * 0.001" "F_r cfg s i = rho temp * 0.001"
proof -
  have idx: "nat (int i - 2 + 1) < n + 2" "nat (int i - 1 + 1) < n + 2" "nat (int i + 1) < n + 2"
    "nat (int i + 1 + 1) < n + 2" "nat (int i + 2 + 1) < n + 2"
    using i by simp_all
  have pp: "p_padded s (int i - 2) = pr" "p_padded s (int i - 1) = pr" "p_padded s (int i) = pr"
    "p_padded s (int i + 1) = pr" "p_padded s (int i + 2) = pr"
    unfolding p_padded_def assms(2) using idx by (simp_all only: nth_replicate)
  have rc: "rhie_chow_l cfg s i = 0" "rhie_chow_r cfg s i = 0"
    by (simp_all add: rhie_chow_l_def rhie_chow_r_def pp)
  have ix: "i - 1 < n" "i < n" "i + 1 < n" using i by simp_all
  have uu: "u s ! (i - 1) = 0.001" "u s ! i = 0.001" "u s ! (i + 1) = 0.001"
    unfolding assms(1) using ix by (simp_all only: nth_replicate)
  have tt: "T s ! (i - 1) = temp" "T s ! i = temp" "T s ! (i + 1) = temp"
    unfolding assms(3) using ix by (simp_all only: nth_replicate)
  have f: "u_l_face cfg s i = 0.001" "u_r_face cfg s i = 0.001"
    unfolding u_l_face_def u_r_face_def rc uu by simp_all
  show "F_l cfg s i = rho temp * 0.001" "F_r cfg s i = rho temp * 0.001"
    unfolding F_l_def F_r_def f tt Let_def by simp_all
qed

text \<open>
  The momentum system assembled from the initial state is strictly diagonally dominant, for
  positive \<open>dz\<close>, \<open>dt\<close>, \<open>K\<close> and an initial temperature up to the critical one: the stencil of
  the Rhie and Chow correction vanishes on the uniform pressure, so both face fluxes are
  \<open>rho * 0.001\<close>.
\<close>

lemma init_momentum_system_dominant:
  assumes n: "2 \<le> N cfg" and pos: "0 < dz cfg" "0 < dt cfg" "0 < K cfg" "0 \<le> CF cfg"
    and temp: "T_init cfg \<le> Tcrit"
  shows "pivots_nonzero (aU (momentum_assembly cfg (init cfg))) (bU (momentum_assembly cfg (init cfg)))
           (cU (momentum_assembly cfg (init cfg))) (dU (momentum_assembly cfg (init cfg)))"
    "\<And>i. i < N cfg \<Longrightarrow> 0 < bU (momentum_assembly cfg (init cfg)) ! i"
proof -
  define s where "s = init cfg"
  define s1 where "s1 = momentum_assembly cfg s"
  define r where "r = fold (momentum_cell cfg) [1..<N cfg - 1] s"
  have w: "well_sized cfg s" unfolding s_def by (rule well_sized_init) (use n in simp)
  have w1: "well_sized cfg s1" unfolding s1_def by (rule momentum_assembly_well_sized[OF w])
  then have len: "length (aU s1) = N cfg" "length (bU s1) = N cfg" "length (cU s1) = N cfg"
    "length (dU s1) = N cfg" by (simp_all add: well_sized_def)
  have wr: "well_sized cfg r"
    unfolding r_def by (rule fold_invariant) (simp_all add: momentum_cell_well_sized w)
  then have lr: "length (aU r) = N cfg" "length (bU r) = N cfg" "length (cU r) = N cfg"
    by (simp_all add: well_sized_def)
  have s1r: "s1 = momentum_boundary cfg r" by (simp add: s1_def momentum_assembly_def r_def)
  have Tr: "T r = replicate (N cfg) (T_init cfg)"
    unfolding r_def fold_keeps[where g = T and f = "momentum_cell cfg", OF momentum_cell_frame(3)]
    by (simp add: s_def init_def)
  have rho_p: "0 < rho (T_init cfg)" using rho_ge[OF temp] by simp
  have mu_p: "0 < mu (T_init cfg)" by (rule mu_pos)
  define bb where "bb = rho (T_init cfg) * dz cfg / dt cfg + 2 * (mu (T_init cfg) / dz cfg)"
  have bbpos: "0 < bb"
  proof -
    have "0 < rho (T_init cfg) * dz cfg / dt cfg" using rho_p pos by simp
    moreover have "0 < 2 * (mu (T_init cfg) / dz cfg)" using mu_p pos by simp
    ultimately show ?thesis unfolding bb_def by linarith
  qed
  have ne: "0 \<noteq> N cfg - 1" "0 < N cfg" "N cfg - 1 < N cfg" using n by simp_all
  have b0: "bU s1 ! 0 = bb" "bU s1 ! (N cfg - 1) = bb"
    using lr ne by (simp_all add: s1r momentum_boundary_def Let_def Tr bb_def)
  have c0: "cU s1 ! 0 = 0" using lr ne by (simp add: s1r momentum_boundary_def Let_def)
  have aN: "aU s1 ! (N cfg - 1) = 0" using lr ne by (simp add: s1r momentum_boundary_def Let_def)
  have "N cfg - 1 \<notin> set [1..<N cfg - 1]" by simp
  from momentum_fold_other(3)[OF this, of cfg s]
  have "cU r ! (N cfg - 1) = 0" using ne by (simp add: r_def s_def init_def)
  then have cN: "cU s1 ! (N cfg - 1) = 0"
    using ne by (simp add: s1r momentum_boundary_def Let_def)
  have row0: "\<bar>cU s1 ! 0\<bar> < \<bar>bU s1 ! 0\<bar>" using bbpos by (simp add: b0 c0)
  have rows: "\<bar>aU s1 ! i\<bar> + \<bar>cU s1 ! i\<bar> < \<bar>bU s1 ! i\<bar> \<and> 0 < bU s1 ! i"
    if i: "1 \<le> i" "i < N cfg" for i
  proof (cases "i = N cfg - 1")
    case True
    show ?thesis unfolding True b0 aN cN using bbpos by simp
  next
    case False
    then have ii: "0 < i" "i < N cfg - 1" using i by simp_all
    define s_i where "s_i = fold (momentum_cell cfg) [1..<i] s"
    have fr: "u s_i = replicate (N cfg) 0.001" "p_storage s_i = replicate (N cfg + 2) 50000"
      "T s_i = replicate (N cfg) (T_init cfg)"
      unfolding s_i_def
        fold_keeps[where g = u and f = "momentum_cell cfg", OF momentum_cell_frame(1)]
        fold_keeps[where g = p_storage and f = "momentum_cell cfg", OF momentum_cell_frame(4)]
        fold_keeps[where g = T and f = "momentum_cell cfg", OF momentum_cell_frame(3)]
      by (simp_all add: s_def init_def)
    note FF = uniform_face_fluxes[OF fr ii, of cfg]
    define Fv where "Fv = rho (T_init cfg) * 0.001"
    have Fpos: "0 \<le> Fv" using rho_p by (simp add: Fv_def)
    have ts: "T s ! i = T_init cfg" "T s ! (i - 1) = T_init cfg" "T s ! (i + 1) = T_init cfg"
      using ii by (simp_all add: s_def init_def)
    have Dl: "0 \<le> D_l cfg s i \<and> 0 \<le> D_r cfg s i"
    proof (cases "source cfg")
      case PISO_cpp
      show ?thesis unfolding D_l_def D_r_def ts PISO_cpp using mu_p pos by simp
    next
      case Part_000
      show ?thesis unfolding D_l_def D_r_def ts Part_000 using rho_p pos by simp
    qed
    note A = momentum_assembly_interior[OF w ii, folded s_i_def s1_def, unfolded FF, folded Fv_def]
    define R where "R = rho (T s ! i) * dz cfg / dt cfg + mu (T s ! i) / K cfg * dz cfg
       + CF cfg * mu (T s ! i) * dz cfg / sqrt (K cfg) * \<bar>u s ! i\<bar>"
    have Rpos: "0 < R"
    proof -
      have "0 < rho (T s ! i) * dz cfg / dt cfg" using rho_p pos by (simp add: ts)
      moreover have "0 < mu (T s ! i) / K cfg * dz cfg" using mu_p pos by (simp add: ts)
      moreover have "0 \<le> CF cfg * mu (T s ! i) * dz cfg / sqrt (K cfg) * \<bar>u s ! i\<bar>"
        using mu_p pos by (simp add: ts)
      ultimately show ?thesis unfolding R_def by linarith
    qed
    have a: "aU s1 ! i = - Fv - D_l cfg s i" using A(1) Fpos by simp
    have c: "cU s1 ! i = - D_r cfg s i" using A(2) Fpos by simp
    have b: "bU s1 ! i = Fv + D_l cfg s i + D_r cfg s i + R" using A(3) Fpos by (simp add: R_def)
    show ?thesis unfolding a b c using Fpos Dl Rpos by simp
  qed
  show "pivots_nonzero (aU (momentum_assembly cfg (init cfg))) (bU (momentum_assembly cfg (init cfg)))
           (cU (momentum_assembly cfg (init cfg))) (dU (momentum_assembly cfg (init cfg)))"
    using dominant_pivots_nonzero[OF len _ row0 rows[THEN conjunct1]] n by (simp add: s1_def s_def)
  show "0 < bU (momentum_assembly cfg (init cfg)) ! i" if "i < N cfg" for i
  proof (cases "i = 0")
    case True
    then show ?thesis using b0(1) bbpos by (simp add: s1_def s_def)
  next
    case False
    then have "1 \<le> i" by simp
    from rows[OF this that] show ?thesis by (simp add: s1_def s_def)
  qed
qed

lemma SIMPLEC_fold_nth:
  assumes "sized4 n (a0, b0, c0, d0)" "j < n"
    and "fold (SIMPLEC_cell dx dtime perm cf vel pres temp) [lo..<hi] (a0, b0, c0, d0) = (a, b, c, d)"
  shows "a ! j = (if lo \<le> j \<and> j < hi then - snd (mu_Na (temp ! j)) / (dx * dx) else a0 ! j) \<and>
    b ! j = (if lo \<le> j \<and> j < hi
              then snd (rho_Na_l (temp ! j)) / dtime + 2 * snd (mu_Na (temp ! j)) / (dx * dx)
                   + snd (rho_Na_l (temp ! j)) * (vel ! j - vel ! (j - 1)) / dx
                   + snd (mu_Na (temp ! j)) / perm
                   + cf * snd (rho_Na_l (temp ! j)) / sqrt perm * \<bar>vel ! j\<bar>
              else b0 ! j) \<and>
    c ! j = (if lo \<le> j \<and> j < hi then - snd (mu_Na (temp ! j)) / (dx * dx) else c0 ! j)"
  using assms(3)
proof (induction hi arbitrary: a b c d)
  case 0
  then show ?case by simp
next
  case (Suc hi)
  show ?case
  proof (cases "lo \<le> hi")
    case False
    then show ?thesis using Suc.prems by auto
  next
    case lh: True
    obtain a1 b1 c1 d1 where f1: "fold (SIMPLEC_cell dx dtime perm cf vel pres temp) [lo..<hi] (a0, b0, c0, d0)
        = (a1, b1, c1, d1)" using prod_cases4 by blast
    have "sized4 n (fold (SIMPLEC_cell dx dtime perm cf vel pres temp) [lo..<hi] (a0, b0, c0, d0))"
      by (rule fold_invariant) (erule SIMPLEC_cell_sized, rule assms(1))
    then have l1: "length a1 = n" "length b1 = n" "length c1 = n"
      unfolding f1 by (simp_all add: sized4_def)
    have "fold (SIMPLEC_cell dx dtime perm cf vel pres temp) [lo..<Suc hi] (a0, b0, c0, d0)
        = SIMPLEC_cell dx dtime perm cf vel pres temp hi (a1, b1, c1, d1)"
      using lh by (simp add: f1)
    then have "SIMPLEC_cell dx dtime perm cf vel pres temp hi (a1, b1, c1, d1) = (a, b, c, d)"
      using Suc.prems by simp
    then have abc: "a = a1[hi := - snd (mu_Na (temp ! hi)) / (dx * dx)]"
      "b = b1[hi := snd (rho_Na_l (temp ! hi)) / dtime + 2 * snd (mu_Na (temp ! hi)) / (dx * dx)
                   + snd (rho_Na_l (temp ! hi)) * (vel ! hi - vel ! (hi - 1)) / dx
                   + snd (mu_Na (temp ! hi)) / perm
                   + cf * snd (rho_Na_l (temp ! hi)) / sqrt perm * \<bar>vel ! hi\<bar>]"
      "c = c1[hi := - snd (mu_Na (temp ! hi)) / (dx * dx)]"
      by (simp_all add: SIMPLEC_cell_def Let_def)
    note IH = Suc.IH[OF f1]
    show ?thesis
    proof (cases "j = hi")
      case True
      then show ?thesis unfolding abc using l1 assms(2) lh by simp
    next
      case False
      then show ?thesis unfolding abc using IH by auto
    qed
  qed
qed

lemma SIMPLEC_property_values: "snd (rho_Na_l x) = rho x" "snd (mu_Na x) = mu x"
  by (simp_all add: rho_Na_l_def mu_Na_def rho_def mu_def liquid_sodium_rho_def
      liquid_sodium_mu_def T_Na_crit_def Tcrit_def Let_def)

text \<open>
  The momentum system of the SIMPLEC program is diagonally dominant when, at every interior
  node, the temperature is at most the critical one and the velocity does not drop by more
  than \<open>dx / dt\<close> from the node before. Its last row, \<open>-u[Nx - 2] + u[Nx - 1] = 0\<close>, is
  dominant only weakly.
\<close>

lemma SIMPLEC_system_dominant:
  assumes n: "2 \<le> Nx" and pos: "0 < dx" "0 < dtime" "0 < perm" "0 \<le> cf"
    and interior: "\<And>ix. 1 \<le> ix \<Longrightarrow> ix < Nx - 1 \<Longrightarrow>
                     temp ! ix \<le> Tcrit \<and> - (dx / dtime) < vel ! ix - vel ! (ix - 1)"
    and sys: "SIMPLEC_momentum_system Nx dx dtime perm cf uin vel pres temp = (a, b, c, d)"
  shows "pivots_nonzero a b c d"
proof -
  obtain a1 b1 c1 d1 where f: "fold (SIMPLEC_cell dx dtime perm cf vel pres temp) [1..<Nx - 1]
             (replicate Nx 0, replicate Nx 0, replicate Nx 0, replicate Nx 0) = (a1, b1, c1, d1)"
    using prod_cases4 by blast
  have s0: "sized4 Nx (replicate Nx 0, replicate Nx 0, replicate Nx 0, replicate Nx (0::real))"
    by (simp add: sized4_def)
  have "sized4 Nx (fold (SIMPLEC_cell dx dtime perm cf vel pres temp) [1..<Nx - 1]
             (replicate Nx 0, replicate Nx 0, replicate Nx 0, replicate Nx 0))"
    by (rule fold_invariant) (erule SIMPLEC_cell_sized, rule s0)
  then have l1: "length a1 = Nx" "length b1 = Nx" "length c1 = Nx" "length d1 = Nx"
    unfolding f by (simp_all add: sized4_def)
  have abcd: "a = a1[Nx - 1 := - 1]" "b = b1[0 := 1, Nx - 1 := 1]" "c = c1[0 := 0]"
    "d = d1[0 := uin, Nx - 1 := 0]"
    using sys unfolding SIMPLEC_momentum_system_def f by simp_all
  have len: "length a = Nx" "length b = Nx" "length c = Nx" "length d = Nx"
    by (simp_all add: abcd l1)
  have ne: "0 \<noteq> Nx - 1" "0 < Nx" "Nx - 1 < Nx" using n by simp_all
  have row0: "\<bar>c ! 0\<bar> < \<bar>b ! 0\<bar>" using l1 ne by (simp add: abcd)
  have rows: "\<bar>a ! i\<bar> + \<bar>c ! i\<bar> < \<bar>b ! i\<bar> \<or> (a ! i \<noteq> 0 \<and> \<bar>a ! i\<bar> + \<bar>c ! i\<bar> \<le> \<bar>b ! i\<bar>)"
    if i: "1 \<le> i" "i < Nx" for i
  proof (cases "i = Nx - 1")
    case True
    have "c1 ! (Nx - 1) = 0"
      using SIMPLEC_fold_nth[OF s0 ne(3) f] ne by simp
    then have "a ! i = - 1" "b ! i = 1" "c ! i = 0"
      unfolding True abcd using l1 ne by simp_all
    then show ?thesis by simp
  next
    case False
    then have ii: "1 \<le> i" "i < Nx - 1" "i \<noteq> 0" "i \<noteq> Nx - 1" using i by simp_all
    define rh where "rh = rho (temp ! i)"
    define m where "m = mu (temp ! i)"
    define dv where "dv = vel ! i - vel ! (i - 1)"
    have rhp: "0 < rh" using rho_ge[of "temp ! i"] interior[OF ii(1,2)] by (simp add: rh_def)
    have mp: "0 < m" by (simp add: m_def mu_pos)
    have dvb: "- (dx / dtime) < dv" using interior[OF ii(1,2)] by (simp add: dv_def)
    note V = SIMPLEC_fold_nth[OF s0 i(2) f, unfolded SIMPLEC_property_values,
        folded rh_def m_def dv_def]
    have a: "a ! i = - m / (dx * dx)" and c: "c ! i = - m / (dx * dx)"
      and b: "b ! i = rh / dtime + 2 * m / (dx * dx) + rh * dv / dx + m / perm
                      + cf * rh / sqrt perm * \<bar>vel ! i\<bar>"
      unfolding abcd using V ii by simp_all
    define q where "q = m / (dx * dx)"
    have qp: "0 < q" using mp pos by (simp add: q_def)
    have "0 < dv * dtime + dx"
    proof -
      have "- (dx / dtime) * dtime < dv * dtime"
        using dvb pos(2) by (rule mult_strict_right_mono)
      then show ?thesis using pos by simp
    qed
    then have "0 < rh * (dv * dtime + dx) / (dtime * dx)" using rhp pos by simp
    also have "rh * (dv * dtime + dx) / (dtime * dx) = rh / dtime + rh * dv / dx"
      using pos by (simp add: field_simps)
    finally have t1: "0 < rh / dtime + rh * dv / dx" .
    have t2: "0 < m / perm" using mp pos by simp
    have t3: "0 \<le> cf * rh / sqrt perm * \<bar>vel ! i\<bar>" using rhp pos by simp
    have aq: "a ! i = - q" "c ! i = - q" by (simp_all add: a c q_def)
    have bq: "b ! i = rh / dtime + 2 * q + rh * dv / dx + m / perm + cf * rh / sqrt perm * \<bar>vel ! i\<bar>"
      by (simp add: b q_def)
    have "\<bar>a ! i\<bar> + \<bar>c ! i\<bar> < \<bar>b ! i\<bar>"
      unfolding aq bq using qp t1 t2 t3 by simp
    then show ?thesis by simp
  qed
  show ?thesis
    using weakly_dominant_pivots_nonzero[OF len _ row0 rows] n by simp
qed

theorem boundary_velocities_after_momentum_solve_witness:
  "well_sized Part_000_config (init Part_000_config) \<and> 2 \<le> N Part_000_config \<and>
   pivots_nonzero
     (aU (momentum_assembly Part_000_config (init Part_000_config)))
     (bU (momentum_assembly Part_000_config (init Part_000_config)))
     (cU (momentum_assembly Part_000_config (init Part_000_config)))
     (dU (momentum_assembly Part_000_config (init Part_000_config))) \<and>
   (\<exists>s'. momentum_predictor Part_000_config (init Part_000_config) = Some s' \<and>
         u s' ! 0 = 0 \<and> u s' ! 99 = 0) \<and>
   (2::nat) \<le> 500 \<and>
   (case SIMPLEC_momentum_system 500 (0.01 / 499) 0.0001 0.000001 0 0.01
           ((replicate 500 0)[0 := 0.01]) (replicate 500 0)
           ((replicate 500 300)[0 := 1000, 499 := 500])
    of (a, b, c, d) \<Rightarrow> pivots_nonzero a b c d) \<and>
   (\<exists>x. SIMPLEC_momentum_predictor 500 (0.01 / 499) 0.0001 0.000001 0 0.01
           ((replicate 500 0)[0 := 0.01]) (replicate 500 0)
           ((replicate 500 300)[0 := 1000, 499 := 500]) = Some x \<and>
        x ! 0 = 0.01 \<and> x ! 499 = x ! 498)"
proof -
  define cfg where "cfg = Part_000_config"
  have c: "N cfg = 100" "T_init cfg = 200" "u_inlet cfg = 0" "u_outlet cfg = 0" "dt cfg = 0.001"
    "L cfg = 1" "K cfg = 0.000001" "CF cfg = 0"
    by (simp_all add: cfg_def Part_000_config_def)
  have dzv: "dz cfg = 1 / 99" by (simp add: dz_def c)
  have w: "well_sized cfg (init cfg)" by (rule well_sized_init) (simp add: c)
  have n2: "2 \<le> N cfg" by (simp add: c)
  have piv: "pivots_nonzero (aU (momentum_assembly cfg (init cfg))) (bU (momentum_assembly cfg (init cfg)))
      (cU (momentum_assembly cfg (init cfg))) (dU (momentum_assembly cfg (init cfg)))"
    by (rule init_momentum_system_dominant(1)) (simp_all add: c dzv Tcrit_def)
  define vel where "vel = (replicate 500 (0::real))[0 := 0.01]"
  define pres where "pres = replicate 500 (0::real)"
  define temp where "temp = (replicate 500 (300::real))[0 := 1000, 499 := 500]"
  obtain a b c d where sys:
    "SIMPLEC_momentum_system 500 (0.01 / 499) 0.0001 0.000001 0 0.01 vel pres temp = (a, b, c, d)"
    using prod_cases4 by blast
  have interior: "temp ! ix \<le> Tcrit \<and> - (0.01 / 499 / 0.0001) < vel ! ix - vel ! (ix - 1)"
    if "1 \<le> ix" "ix < 500 - 1" for ix
  proof -
    have "temp ! ix = 300" using that by (simp add: temp_def)
    moreover have "vel ! ix = 0" using that by (simp add: vel_def)
    moreover have "vel ! (ix - 1) = 0.01 \<or> vel ! (ix - 1) = 0"
      using that by (cases "ix = 1") (simp_all add: vel_def)
    ultimately show ?thesis by (auto simp: Tcrit_def)
  qed
  have piv2: "pivots_nonzero a b c d"
    by (rule SIMPLEC_system_dominant[OF _ _ _ _ _ interior sys]) simp_all
  have h2: "(2::nat) \<le> 500 \<and>
    (case SIMPLEC_momentum_system 500 (0.01 / 499) 0.0001 0.000001 0 0.01 vel pres temp of
       (a, b, c, d) \<Rightarrow> pivots_nonzero a b c d)"
    unfolding sys using piv2 by simp
  note T = boundary_velocities_after_momentum_solve[of cfg "init cfg" 500 "0.01 / 499" "0.0001"
      "0.000001" 0 "0.01" vel pres temp]
  from T w n2 piv have A: "\<exists>s'. momentum_predictor cfg (init cfg) = Some s' \<and>
         u s' ! 0 = 0 \<and> u s' ! 99 = 0"
    by (simp add: c)
  from T h2 have B: "\<exists>x. SIMPLEC_momentum_predictor 500 (0.01 / 499) 0.0001 0.000001 0 0.01
        vel pres temp = Some x \<and> x ! 0 = 0.01 \<and> x ! 499 = x ! 498"
    by simp
  have h2a: "(2::nat) \<le> 500" by simp
  have h2b: "case SIMPLEC_momentum_system 500 (0.01 / 499) 0.0001 0.000001 0 0.01 vel pres temp of
       (a, b, c, d) \<Rightarrow> pivots_nonzero a b c d"
    using h2 by (rule conjunct2)
  show ?thesis using w n2 piv A h2a h2b B unfolding cfg_def vel_def pres_def temp_def
    by (intro conjI)
qed

text \<open>
  The residual at the end of the first iteration of the second PISO file, and the velocity
  corrector on doubles for a pressure correction that is \<open>1\<close> in cell 50 and \<open>0\<close> elsewhere.
\<close>

theorem residual_of_final_corrector_round_witness:
  "well_sized Part_000_config (init Part_000_config) \<and> 3 \<le> N Part_000_config \<and>
   1 \<le> corr_iter Part_000_config \<and>
   length (replicate 100 (Finite 0)) = N Part_000_config \<and>
   (\<exists>s1 s2 s3 s'.
      momentum_predictor Part_000_config (init Part_000_config) = Some s1 \<and>
      corrector_round Part_000_config s1 = Some s2 \<and>
      map_option (pressure_corrector Part_000_config) (continuity_satisfactor Part_000_config s2)
        = Some s3 \<and>
      u s3 = u s2 \<and>
      s' = velocity_corrector Part_000_config s3 \<and>
      piso_iteration Part_000_config (init Part_000_config) = Some s' \<and>
      list_all (\<lambda>i. dz Part_000_config * bU s3 ! i \<noteq> 0) [1..<99] \<and>
      velocity_corrector_double 100 (dz Part_000_config) (map Finite (p_prime s3))
        (map Finite (bU s3)) (map Finite (u s3)) =
      (map Finite (u s'), Finite (maxErr s'))) \<and>
   list_all
     (\<lambda>i. \<bar>fst (velocity_corrector_double 100 (1 / 99) ((replicate 100 (Finite 0))[50 := Finite 1])
                 (replicate 100 (Finite 1)) (replicate 100 (Finite 0))) ! i
            - replicate 100 (Finite 0) ! i\<bar> \<noteq> NaN) [1..<99] \<and>
   \<bar>fst (velocity_corrector_double 100 (1 / 99) ((replicate 100 (Finite 0))[50 := Finite 1])
          (replicate 100 (Finite 1)) (replicate 100 (Finite 0))) ! 49
     - replicate 100 (Finite 0) ! 49\<bar> = Finite (99 / 2) \<and>
   snd (velocity_corrector_double 100 (1 / 99) ((replicate 100 (Finite 0))[50 := Finite 1])
          (replicate 100 (Finite 1)) (replicate 100 (Finite 0))) = Finite (99 / 2)"
proof -
  define cfg where "cfg = Part_000_config"
  define pp where "pp = (replicate 100 (Finite 0))[50 := Finite 1]"
  define bb where "bb = replicate 100 (Finite 1)"
  define vel where "vel = replicate 100 (Finite 0)"
  have c: "N cfg = 100" "T_init cfg = 200" "dt cfg = 0.001" "L cfg = 1" "K cfg = 0.000001"
    "CF cfg = 0" "corr_iter cfg = 2"
    by (simp_all add: cfg_def Part_000_config_def)
  have dzv: "dz cfg = 1 / 99" by (simp add: dz_def c)
  have w: "well_sized cfg (init cfg)" by (rule well_sized_init) (simp add: c)
  have n: "3 \<le> N cfg" "1 \<le> corr_iter cfg" by (simp_all add: c)
  have l: "length vel = N cfg" by (simp add: vel_def c)
  note T = residual_of_final_corrector_round[OF w n l, where h="1 / 99" and pp=pp and bb=bb]
  from T[THEN conjunct1] obtain s1 s2 s3 s' where
    r: "momentum_predictor cfg (init cfg) = Some s1"
      "rounds cfg (corr_iter cfg - 1) s1 = Some s2"
      "map_option (pressure_corrector cfg) (continuity_satisfactor cfg s2) = Some s3"
      "u s3 = u s2" "bU s3 = bU s1" "s' = velocity_corrector cfg s3"
      "piso_iteration cfg (init cfg) = Some s'"
      "(\<forall>i. 1 \<le> i \<and> i < N cfg - 1 \<longrightarrow> dz cfg * bU s3 ! i \<noteq> 0) \<longrightarrow>
         velocity_corrector_double (N cfg) (dz cfg) (map Finite (p_prime s3))
           (map Finite (bU s3)) (map Finite (u s3)) =
         (map Finite (u s'), Finite (maxErr s'))"
    by blast
  have r2: "corrector_round cfg s1 = Some s2"
    using r(2) by (simp add: c split: option.splits)
  have b1: "bU s1 = bU (momentum_assembly cfg (init cfg))"
    using momentum_predictor_total[OF w] r(1) by auto
  have pos: "0 < bU s3 ! i" if "i < N cfg" for i
    unfolding r(5) b1
    by (rule init_momentum_system_dominant(2)) (use that in \<open>simp_all add: c dzv Tcrit_def\<close>)
  have nz: "dz cfg * bU s3 ! i \<noteq> 0" if "1 \<le> i \<and> i < N cfg - 1" for i
  proof -
    have "i < N cfg" using that by (simp add: c)
    from pos[OF this] show ?thesis by (simp add: dzv)
  qed
  then have nzl: "list_all (\<lambda>i. dz cfg * bU s3 ! i \<noteq> 0) [1..<99]"
    by (simp add: list_all_iff c)
  from r(8) nz have eq: "velocity_corrector_double 100 (dz cfg) (map Finite (p_prime s3))
           (map Finite (bU s3)) (map Finite (u s3)) =
         (map Finite (u s'), Finite (maxErr s'))"
    by (simp add: c)
  have A: "\<exists>s1 s2 s3 s'.
      momentum_predictor cfg (init cfg) = Some s1 \<and>
      corrector_round cfg s1 = Some s2 \<and>
      map_option (pressure_corrector cfg) (continuity_satisfactor cfg s2) = Some s3 \<and>
      u s3 = u s2 \<and>
      s' = velocity_corrector cfg s3 \<and>
      piso_iteration cfg (init cfg) = Some s' \<and>
      list_all (\<lambda>i. dz cfg * bU s3 ! i \<noteq> 0) [1..<99] \<and>
      velocity_corrector_double 100 (dz cfg) (map Finite (p_prime s3))
        (map Finite (bU s3)) (map Finite (u s3)) =
      (map Finite (u s'), Finite (maxErr s'))"
    using r(1) r2 r(3,4,6,7) nzl eq by blast
  obtain ww m where vc: "velocity_corrector_double 100 (1 / 99) pp bb vel = (ww, m)"
    by (cases "velocity_corrector_double 100 (1 / 99) pp bb vel") auto
  from T[THEN conjunct2, unfolded c vc prod.case]
  have B: "\<And>i. 1 \<le> i \<and> i < 100 - 1 \<Longrightarrow>
             ww ! i = vel ! i - (pp ! (i + 1) - pp ! (i - 1)) / (Finite 2.0 * Finite (1 / 99) * bb ! i)"
    "(\<forall>i. 1 \<le> i \<and> i < 100 - 1 \<longrightarrow> \<bar>ww ! i - vel ! i\<bar> \<noteq> NaN) \<longrightarrow>
       (\<forall>i. 1 \<le> i \<and> i < 100 - 1 \<longrightarrow> \<bar>ww ! i - vel ! i\<bar> \<le> m) \<and>
       (\<exists>i. 1 \<le> i \<and> i < 100 - 1 \<and> m = \<bar>ww ! i - vel ! i\<bar>)"
    by blast+
  have ppv: "pp ! j = Finite (if j = 50 then 1 else 0)" if "j < 100" for j
    using that by (simp add: pp_def nth_list_update)
  have chv: "\<bar>ww ! i - vel ! i\<bar> = Finite (if i = 49 \<or> i = 51 then 99 / 2 else 0)"
    if i: "1 \<le> i \<and> i < 100 - 1" for i
  proof -
    have j: "i + 1 < 100" "i - 1 < 100" "i < 100" using i by arith+
    have "ww ! i = Finite 0 - (pp ! (i + 1) - pp ! (i - 1)) / (Finite 2.0 * Finite (1 / 99) * Finite 1)"
      using B(1)[OF i] j by (simp add: vel_def bb_def)
    then show ?thesis unfolding ppv[OF j(1)] ppv[OF j(2)] using i j by (auto simp: vel_def)
  qed
  have nn: "\<forall>i. 1 \<le> i \<and> i < 100 - 1 \<longrightarrow> \<bar>ww ! i - vel ! i\<bar> \<noteq> NaN"
    using chv by simp
  have nnl: "list_all (\<lambda>i. \<bar>ww ! i - vel ! i\<bar> \<noteq> NaN) [1..<99]"
    using nn by (simp add: list_all_iff)
  have c49: "\<bar>ww ! 49 - vel ! 49\<bar> = Finite (99 / 2)" using chv[of 49] by simp
  from B(2) nn have le: "\<And>i. 1 \<le> i \<and> i < 100 - 1 \<Longrightarrow> \<bar>ww ! i - vel ! i\<bar> \<le> m"
    and ex: "\<exists>i. 1 \<le> i \<and> i < 100 - 1 \<and> m = \<bar>ww ! i - vel ! i\<bar>" by blast+
  from ex obtain j where j: "1 \<le> j \<and> j < 100 - 1" "m = \<bar>ww ! j - vel ! j\<bar>" by blast
  have "m = Finite (99 / 2) \<or> m = Finite 0" unfolding j(2) chv[OF j(1)] by simp
  moreover have "Finite (99 / 2) \<le> m" using le[of 49] c49 by simp
  ultimately have mv: "m = Finite (99 / 2)" by (auto simp: less_eq_double_def)
  have f: "fst (velocity_corrector_double 100 (1 / 99) pp bb vel) = ww"
    "snd (velocity_corrector_double 100 (1 / 99) pp bb vel) = m" by (simp_all add: vc)
  show ?thesis
    using w n l A nnl c49 mv
    unfolding f[symmetric] cfg_def pp_def bb_def vel_def
    by (intro conjI)
qed

section \<open>An iteration that ends at the tolerance\<close>


















end
